(* ===== verification/Prelude.thy ===== *)
theory Prelude
  imports Main
begin

text \<open>
  Shared vocabulary of the development: the JavaScript container and string operations the
  modelled code uses, and the generic lemmas about them.

  A \<open>Map<string, number>\<close> counter is a map \<open>string \<rightharpoonup> nat\<close> read with
  \<open>m.get(k) ?? 0\<close>; a \<open>ReadonlySet<string>\<close> is a set; \<open>Array.findIndex\<close> returns an option
  (\<open>None\<close> for -1). A JavaScript string is a \<open>string\<close>, the list of the
  bytes of its UTF-8 encoding: every character below 128 is one \<open>char\<close>, and the only others the
  modelled code names, the em dash and the en dash, are three-byte literals.
\<close>

named_theorems budget_simps \<open>rewrite rules for the per-step budget counters\<close>
named_theorems js_simps \<open>rewrite rules for the JavaScript string operations\<close>

section \<open>Counters: \<open>m.get(k) ?? 0\<close> and \<open>m.set(k, v + 1)\<close>\<close>

type_synonym counter = "string \<rightharpoonup> nat"

definition used_of :: "counter \<Rightarrow> string \<Rightarrow> nat" where
  "used_of m k = (case m k of None \<Rightarrow> 0 | Some n \<Rightarrow> n)"

definition bump :: "counter \<Rightarrow> string \<Rightarrow> counter" where
  "bump m k = m(k \<mapsto> used_of m k + 1)"

lemma used_of_empty [simp, budget_simps]: "used_of Map.empty k = 0"
  by (simp add: used_of_def)

lemma used_of_bump [simp, budget_simps]:
  "used_of (bump m k) k' = (if k' = k then Suc (used_of m k) else used_of m k')"
  by (simp add: used_of_def bump_def)

section \<open>Array.findIndex\<close>

fun find_index :: "('a \<Rightarrow> bool) \<Rightarrow> 'a list \<Rightarrow> nat option" where
  "find_index P [] = None"
| "find_index P (x # xs) = (if P x then Some 0 else map_option Suc (find_index P xs))"

lemma find_index_Some:
  "find_index P xs = Some i \<Longrightarrow> i < length xs \<and> P (xs ! i) \<and> (\<forall>j < i. \<not> P (xs ! j))"
proof (induction xs arbitrary: i)
  case Nil
  then show ?case by simp
next
  case (Cons x xs)
  show ?case
  proof (cases "P x")
    case True
    with Cons.prems show ?thesis by simp
  next
    case False
    with Cons.prems obtain j where j: "find_index P xs = Some j" "i = Suc j"
      by auto
    from Cons.IH [OF j(1)] False j(2) show ?thesis
      by (auto simp: less_Suc_eq_0_disj)
  qed
qed

lemma find_index_bound [simp]: "find_index P xs = Some i \<Longrightarrow> i < length xs"
  by (blast dest: find_index_Some)

lemma find_index_None_iff: "find_index P xs = None \<longleftrightarrow> (\<forall>x \<in> set xs. \<not> P x)"
  by (induction xs) auto

section \<open>Insertion-ordered sets: \<open>Set\<close> and the keys of a \<open>Map\<close>\<close>

definition js_add :: "'a \<Rightarrow> 'a list \<Rightarrow> 'a list" where
  "js_add x xs = (if x \<in> set xs then xs else xs @ [x])"

definition js_set :: "'a list \<Rightarrow> 'a list" where
  "js_set xs = fold js_add xs []"

lemma set_js_add [simp]: "set (js_add x xs) = insert x (set xs)"
  by (auto simp: js_add_def)

lemma distinct_js_add [simp]: "distinct (js_add x xs) \<longleftrightarrow> distinct xs"
  by (auto simp: js_add_def)

lemma set_fold_js_add [simp]: "set (fold js_add ys xs) = set ys \<union> set xs"
  by (induction ys arbitrary: xs) auto

lemma distinct_fold_js_add [simp]: "distinct (fold js_add ys xs) \<longleftrightarrow> distinct xs"
  by (induction ys arbitrary: xs) auto

lemma set_js_set [simp]: "set (js_set xs) = set xs" and distinct_js_set [simp]: "distinct (js_set xs)"
  by (simp_all add: js_set_def)

section \<open>Slices\<close>

lemma ball_drop_take:
  "(\<forall>x \<in> set (drop a (take b xs)). P x) \<longleftrightarrow> (\<forall>k. a \<le> k \<and> k < b \<and> k < length xs \<longrightarrow> P (xs ! k))"
proof
  assume L: "\<forall>x \<in> set (drop a (take b xs)). P x"
  show "\<forall>k. a \<le> k \<and> k < b \<and> k < length xs \<longrightarrow> P (xs ! k)"
  proof (intro allI impI)
    fix k assume k: "a \<le> k \<and> k < b \<and> k < length xs"
    then have "drop a (take b xs) ! (k - a) \<in> set (drop a (take b xs))" by (intro nth_mem) auto
    with L k show "P (xs ! k)" by simp
  qed
next
  assume R: "\<forall>k. a \<le> k \<and> k < b \<and> k < length xs \<longrightarrow> P (xs ! k)"
  show "\<forall>x \<in> set (drop a (take b xs)). P x"
  proof
    fix x assume "x \<in> set (drop a (take b xs))"
    then obtain m where m: "m < length (drop a (take b xs))" "x = drop a (take b xs) ! m"
      by (auto simp: in_set_conv_nth)
    then have "a + m < b" "a + m < length xs" by auto
    with R [rule_format, of "a + m"] m show "P x" by simp
  qed
qed

end
