(* ===== verification/RunStatus.thy ===== *)
theory RunStatus
  imports Prelude
begin

text \<open>
  The two status columns with an in-process transition table:
  \<open>workflow_runs.status\<close> (shared/workflows/runStateMachine.ts, shared/types/cyboflow.ts) and
  \<open>sessions.status\<close> (shared/workflows/sessionStateMachine.ts).
\<close>

section \<open>Run statuses\<close>

datatype WorkflowRunStatus =
    Queued | Starting | Running | AwaitingReview | Stuck | Completed | Failed | Canceled
  | AwaitingInput | Paused

definition TERMINAL_RUN_STATUSES :: "WorkflowRunStatus list" where
  "TERMINAL_RUN_STATUSES = [Canceled, Failed, Completed]"

fun status_name :: "WorkflowRunStatus \<Rightarrow> string" where
  "status_name Queued = ''queued''"
| "status_name Starting = ''starting''"
| "status_name Running = ''running''"
| "status_name AwaitingReview = ''awaiting_review''"
| "status_name Stuck = ''stuck''"
| "status_name Completed = ''completed''"
| "status_name Failed = ''failed''"
| "status_name Canceled = ''canceled''"
| "status_name AwaitingInput = ''awaiting_input''"
| "status_name Paused = ''paused''"

fun ALLOWED_TRANSITIONS :: "WorkflowRunStatus \<Rightarrow> WorkflowRunStatus list" where
  "ALLOWED_TRANSITIONS Queued = [Starting, Canceled]"
| "ALLOWED_TRANSITIONS Starting = [Running, Failed, Canceled]"
| "ALLOWED_TRANSITIONS Running =
     [AwaitingReview, AwaitingInput, Completed, Failed, Canceled, Stuck, Paused]"
| "ALLOWED_TRANSITIONS AwaitingReview = [Running, Completed, Canceled, Stuck, Failed, Paused]"
| "ALLOWED_TRANSITIONS AwaitingInput = [Running, Canceled, Failed]"
| "ALLOWED_TRANSITIONS Stuck = [Running, Completed, Canceled, Failed]"
| "ALLOWED_TRANSITIONS Paused = [Running, Canceled, Failed]"
| "ALLOWED_TRANSITIONS Completed = []"
| "ALLOWED_TRANSITIONS Failed = []"
| "ALLOWED_TRANSITIONS Canceled = []"

text \<open>\<open>Object.keys(ALLOWED_TRANSITIONS)\<close>: the keys in the order the table declares them.\<close>

definition transition_keys :: "WorkflowRunStatus list" where
  "transition_keys =
     [Queued, Starting, Running, AwaitingReview, AwaitingInput, Stuck, Paused, Completed, Failed,
      Canceled]"

definition isTransitionAllowed :: "WorkflowRunStatus \<Rightarrow> WorkflowRunStatus \<Rightarrow> bool" where
  "isTransitionAllowed from to = List.member (ALLOWED_TRANSITIONS from) to"

datatype IllegalTransitionError =
  IllegalTransition WorkflowRunStatus WorkflowRunStatus "string option"

definition assertTransitionAllowed ::
  "WorkflowRunStatus \<Rightarrow> WorkflowRunStatus \<Rightarrow> string option \<Rightarrow> IllegalTransitionError + unit" where
  "assertTransitionAllowed from to runId =
     (if \<not> isTransitionAllowed from to then Inl (IllegalTransition from to runId) else Inr ())"

fun assertTransitionAllowedFromAny ::
  "WorkflowRunStatus list \<Rightarrow> WorkflowRunStatus \<Rightarrow> string option \<Rightarrow> IllegalTransitionError + unit" where
  "assertTransitionAllowedFromAny [] to runId = Inr ()"
| "assertTransitionAllowedFromAny (from # froms) to runId =
     (if from = to then assertTransitionAllowedFromAny froms to runId
      else (case assertTransitionAllowed from to runId of
              Inl e \<Rightarrow> Inl e
            | Inr _ \<Rightarrow> assertTransitionAllowedFromAny froms to runId))"

definition allowedSourcesFor :: "WorkflowRunStatus \<Rightarrow> WorkflowRunStatus list" where
  "allowedSourcesFor to = filter (\<lambda>from. List.member (ALLOWED_TRANSITIONS from) to) transition_keys"

datatype sql_in_error = NoLegalEdge WorkflowRunStatus

fun join_comma :: "string list \<Rightarrow> string" where
  "join_comma [] = []"
| "join_comma [x] = x"
| "join_comma (x # xs) = x @ '', '' @ join_comma xs"

definition allowedSourcesSqlIn :: "WorkflowRunStatus \<Rightarrow> sql_in_error + string" where
  "allowedSourcesSqlIn to =
     (let sources = allowedSourcesFor to
      in if sources = [] then Inl (NoLegalEdge to)
         else Inr (''('' @ join_comma (map (\<lambda>s. [CHR 0x27] @ status_name s @ [CHR 0x27]) sources) @ '')''))"

section \<open>Session statuses\<close>

datatype SessionStatus = SPending | SRunning | SStopped | SCompleted | SFailed

fun session_status_name :: "SessionStatus \<Rightarrow> string" where
  "session_status_name SPending = ''pending''"
| "session_status_name SRunning = ''running''"
| "session_status_name SStopped = ''stopped''"
| "session_status_name SCompleted = ''completed''"
| "session_status_name SFailed = ''failed''"

fun SESSION_ALLOWED_TRANSITIONS :: "SessionStatus \<Rightarrow> SessionStatus list" where
  "SESSION_ALLOWED_TRANSITIONS SPending = [SPending, SRunning, SStopped, SCompleted, SFailed]"
| "SESSION_ALLOWED_TRANSITIONS SRunning = [SPending, SRunning, SStopped, SCompleted, SFailed]"
| "SESSION_ALLOWED_TRANSITIONS SStopped = [SPending, SRunning, SStopped, SCompleted, SFailed]"
| "SESSION_ALLOWED_TRANSITIONS SCompleted = [SPending, SRunning, SStopped, SCompleted, SFailed]"
| "SESSION_ALLOWED_TRANSITIONS SFailed = [SPending, SRunning, SStopped, SCompleted, SFailed]"

definition SESSION_STATUSES :: "SessionStatus list" where
  "SESSION_STATUSES = [SPending, SRunning, SStopped, SCompleted, SFailed]"

text \<open>A value of TypeScript type \<open>unknown\<close> at this seam: a string or something else.\<close>

datatype unknown = JsStr string | JsOther

definition parse_session_status :: "string \<Rightarrow> SessionStatus option" where
  "parse_session_status s = find (\<lambda>st. session_status_name st = s) SESSION_STATUSES"

fun isSessionStatus :: "unknown \<Rightarrow> bool" where
  "isSessionStatus (JsStr s) = List.member (map session_status_name SESSION_STATUSES) s"
| "isSessionStatus JsOther = False"

fun isSessionTransitionAllowed :: "unknown \<Rightarrow> unknown \<Rightarrow> bool" where
  "isSessionTransitionAllowed (JsStr from) (JsStr to) =
     (if \<not> isSessionStatus (JsStr from) \<or> \<not> isSessionStatus (JsStr to) then False
      else (case parse_session_status from of
              None \<Rightarrow> False
            | Some f \<Rightarrow> List.member (map session_status_name (SESSION_ALLOWED_TRANSITIONS f)) to))"
| "isSessionTransitionAllowed _ _ = False"

section \<open>The contract of a status table\<close>

fun edges_along :: "('s \<Rightarrow> 's list) \<Rightarrow> 's \<Rightarrow> 's list \<Rightarrow> bool" where
  "edges_along table s [] = True"
| "edges_along table s (t # ts) = (t \<in> set (table s) \<and> edges_along table t ts)"

text \<open>
  What a writer of a status column relies on: the listed keys are all the statuses, and a terminal
  status has no outgoing edge.
\<close>

locale status_table =
  fixes table :: "'s \<Rightarrow> 's list"
    and keys :: "'s list"
    and terminal :: "'s \<Rightarrow> bool"
  assumes keys_total: "s \<in> set keys"
    and terminal_closed: "terminal s \<Longrightarrow> table s = []"
begin

lemma sources_iff: "s \<in> set (filter (\<lambda>f. List.member (table f) t) keys) \<longleftrightarrow> t \<in> set (table s)"
  by (simp add: keys_total)

lemma terminal_final: "edges_along table s ts \<Longrightarrow> terminal s \<Longrightarrow> ts = []"
  by (cases ts) (simp_all add: terminal_closed)

lemma terminal_last_only:
  "edges_along table s ts \<Longrightarrow> i < length ts \<Longrightarrow> terminal (ts ! i) \<Longrightarrow> Suc i = length ts"
proof (induction ts arbitrary: s i)
  case Nil
  then show ?case by simp
next
  case (Cons t ts)
  then show ?case
  proof (cases i)
    case 0
    with Cons.prems have "edges_along table t ts" "terminal t" by auto
    then have "ts = []" by (rule terminal_final)
    with 0 show ?thesis by simp
  next
    case (Suc j)
    with Cons.prems have "edges_along table t ts" "j < length ts" "terminal (ts ! j)" by auto
    then have "Suc j = length ts" by (rule Cons.IH)
    with Suc show ?thesis by simp
  qed
qed

end

definition is_terminal :: "WorkflowRunStatus \<Rightarrow> bool" where
  "is_terminal s = List.member TERMINAL_RUN_STATUSES s"

interpretation run_table: status_table ALLOWED_TRANSITIONS transition_keys is_terminal
proof
  fix s :: WorkflowRunStatus
  show "s \<in> set transition_keys" by (cases s) (simp_all add: transition_keys_def)
  show "is_terminal s \<Longrightarrow> ALLOWED_TRANSITIONS s = []"
    by (cases s) (simp_all add: is_terminal_def TERMINAL_RUN_STATUSES_def)
qed

interpretation session_table: status_table SESSION_ALLOWED_TRANSITIONS SESSION_STATUSES "\<lambda>_. False"
proof
  fix s :: SessionStatus
  show "s \<in> set SESSION_STATUSES" by (cases s) (simp_all add: SESSION_STATUSES_def)
qed simp

lemma is_terminal_iff: "is_terminal s \<longleftrightarrow> s = Canceled \<or> s = Failed \<or> s = Completed"
  by (auto simp: is_terminal_def TERMINAL_RUN_STATUSES_def)

lemma isTransitionAllowed_iff: "isTransitionAllowed s t \<longleftrightarrow> t \<in> set (ALLOWED_TRANSITIONS s)"
  by (simp add: isTransitionAllowed_def)

lemma allowedSourcesFor_iff: "s \<in> set (allowedSourcesFor t) \<longleftrightarrow> isTransitionAllowed s t"
  unfolding allowedSourcesFor_def isTransitionAllowed_iff by (rule run_table.sources_iff)

lemma cancel_allowed_iff: "isTransitionAllowed s Canceled \<longleftrightarrow> \<not> is_terminal s"
  by (cases s) (simp_all add: isTransitionAllowed_iff is_terminal_iff)

lemma assertTransitionAllowedFromAny_iff:
  "assertTransitionAllowedFromAny froms to r = Inr () \<longleftrightarrow>
     (\<forall>f \<in> set froms. f = to \<or> isTransitionAllowed f to)"
  by (induction froms) (auto simp: assertTransitionAllowed_def)

text \<open>Before its first \<open>running\<close>, a run that follows the table is in one of four statuses and
  reaches none of the three that a completion can come from.\<close>

lemma running_before_completion:
  assumes "edges_along ALLOWED_TRANSITIONS s ts" and "s \<in> {Queued, Starting}"
    and "k < length ts" and "ts ! k \<in> {Completed, AwaitingReview, Stuck}"
  shows "\<exists>j < k. ts ! j = Running"
  using assms
proof (induction ts arbitrary: s k)
  case (Cons t ts)
  from Cons.prems(1) have edge: "t \<in> set (ALLOWED_TRANSITIONS s)"
    and rest: "edges_along ALLOWED_TRANSITIONS t ts" by simp_all
  from edge Cons.prems(2) have t: "t \<in> {Starting, Running, Canceled, Failed}" by auto
  from t Cons.prems(4) obtain k' where k: "k = Suc k'" by (cases k) auto
  consider "t = Running" | "t = Starting" | "ts = []"
    using t rest by (cases ts) auto
  then show ?case
  proof cases
    case 1
    then show ?thesis using k by (intro exI [of _ 0]) simp
  next
    case 2
    with Cons.IH [OF rest, of k'] Cons.prems(3,4) k obtain j where "j < k'" "ts ! j = Running"
      by auto
    then show ?thesis using k by (intro exI [of _ "Suc j"]) simp
  next
    case 3
    with Cons.prems(3) k show ?thesis by simp
  qed
qed simp

section \<open>Properties of the tables\<close>

text \<open>on the run table, the backwards reading \<open>allowedSourcesFor\<close> lists exactly the legal
  sources, and its SQL rendering fails exactly for \<open>queued\<close>, the only status no other status may
  move to; so a guard built from it never renders an empty \<open>IN\<close> list for a reachable target.\<close>

theorem allowed_sources_exact:
  "set (allowedSourcesFor t) = {s. isTransitionAllowed s t} \<and>
   (allowedSourcesSqlIn t = Inl (NoLegalEdge t) \<longleftrightarrow> t = Queued)"
proof
  show "set (allowedSourcesFor t) = {s. isTransitionAllowed s t}"
    by (auto simp: allowedSourcesFor_iff)
  show "allowedSourcesSqlIn t = Inl (NoLegalEdge t) \<longleftrightarrow> t = Queued"
    by (cases t) (simp_all add: allowedSourcesSqlIn_def allowedSourcesFor_def transition_keys_def Let_def)
qed

text \<open>a run that follows the table from \<open>queued\<close> can only be \<open>completed\<close> after it was
  \<open>running\<close>, and nothing follows a terminal status.\<close>

theorem completed_only_after_running:
  assumes "edges_along ALLOWED_TRANSITIONS Queued ss" and "i < length ss" and "ss ! i = Completed"
  shows "(\<exists>j < i. ss ! j = Running) \<and> Suc i = length ss"
proof
  have "is_terminal (ss ! i)" using assms(3) by (simp add: is_terminal_iff)
  with assms(1,2) show "Suc i = length ss" by (rule run_table.terminal_last_only)
  show "\<exists>j < i. ss ! j = Running"
    using running_before_completion [OF assms(1) _ assms(2)] assms(3) by simp
qed

theorem completed_only_after_running_witness:
  "(\<exists>j < 3. [Starting, Running, AwaitingReview, Completed] ! j = Running) \<and>
   Suc 3 = length [Starting, Running, AwaitingReview, Completed]"
  by (rule completed_only_after_running) simp_all

text \<open>the multi-source assertion accepts exactly the source lists whose members are the target
  itself or have a legal edge to it.\<close>

theorem assert_from_any_exact:
  "assertTransitionAllowedFromAny froms to r = Inr () \<longleftrightarrow>
     set froms \<subseteq> insert to (set (allowedSourcesFor to))"
  unfolding assertTransitionAllowedFromAny_iff by (auto simp: allowedSourcesFor_iff)

text \<open>the session table is total on the five statuses and rejects every other value at either
  end: it pins the vocabulary of the column, not an order on it.\<close>

theorem session_transition_vocabulary:
  "isSessionTransitionAllowed a b \<longleftrightarrow> isSessionStatus a \<and> isSessionStatus b"
proof (cases "\<exists>x y. a = JsStr x \<and> b = JsStr y")
  case True
  then obtain x y where a: "a = JsStr x" and b: "b = JsStr y" by blast
  show ?thesis unfolding a b by (auto simp: SESSION_STATUSES_def parse_session_status_def)
next
  case False
  then show ?thesis by (cases a; cases b) auto
qed

end
