(* ===== verification/Transitions.thy ===== *)
theory Transitions
  imports RunStatus
begin

text \<open>
  The guarded writers of \<open>workflow_runs.status\<close> in main/src/services/cyboflow/transitions.ts.

  The database is a record of tables keyed by primary key. A guarded \<open>UPDATE ... WHERE id = ? AND
  <guard>\<close> changes one row or none (\<open>guarded_run_update\<close>), and a helper that changed no row throws.
  A helper returns its outcome and the database it leaves, so a partial write is visible in the
  model and \<open>immediate_tx\<close> is what undoes it. Timestamps are integers: \<open>sql_now\<close> is SQLite's
  \<open>CURRENT_TIMESTAMP\<close> in seconds and \<open>wall_ms\<close> is \<open>Date.now()\<close>. The terminal listeners, the
  usage event and the error report are logs of the database record; the error classifier of
  systemicError.ts is a parameter.
\<close>

section \<open>Tables\<close>

datatype ApprovalStatus = APending | AApproved | ARejected | ATimedOut

record run_row =
  r_status :: WorkflowRunStatus
  r_workflow_id :: string
  r_substrate :: "string option"
  r_experiment_id :: "string option"
  r_started_at :: "int option"
  r_ended_at :: "int option"
  r_updated_at :: int
  r_error_message :: "string option"
  r_outcome :: "string option"

record approval_row =
  ap_status :: ApprovalStatus
  ap_decided_at :: "int option"
  ap_decided_by :: "string option"

datatype TerminalOutcome = EndCompleted | EndFailed | EndCanceled

record usage_event =
  ue_outcome :: TerminalOutcome
  ue_flow :: string
  ue_duration_seconds :: "int option"

datatype error_report =
    LocalError string
  | SeamError string WorkflowRunStatus string string "(string \<times> string) list"

record database =
  workflow_runs :: "string \<rightharpoonup> run_row"
  approvals :: "string \<rightharpoonup> approval_row"
  workflows :: "string \<rightharpoonup> string"
  experiments :: "(string \<rightharpoonup> string) option"
  terminal_log :: "(string \<times> TerminalOutcome) list"
  usage_log :: "usage_event list"
  error_log :: "error_report list"

record clock =
  sql_now :: int
  wall_ms :: int

record error_classifier =
  isSystemicStepError :: "string \<Rightarrow> bool"
  classifyErrorPattern :: "string \<Rightarrow> string"
  unclassifiedErrorTags :: "string \<Rightarrow> string \<Rightarrow> (string \<times> string) list"

datatype rejected_entity = EntRun WorkflowRunStatus | EntApproval ApprovalStatus

datatype transition_error =
    TransitionRejected string rejected_entity
  | AssertionFailed IllegalTransitionError

type_synonym 'a outcome = "(transition_error + 'a) \<times> database"

section \<open>Telemetry after a terminal write\<close>

definition CYBOFLOW_WORKFLOW_NAMES :: "string list" where
  "CYBOFLOW_WORKFLOW_NAMES =
     [''planner'', ''sprint'', ''compound'', ''ship'', ''verify-setup'', ''launch'']"

definition workflow_name_of :: "database \<Rightarrow> string \<Rightarrow> string option" where
  "workflow_name_of db runId =
     (case workflow_runs db runId of None \<Rightarrow> None | Some r \<Rightarrow> workflows db (r_workflow_id r))"

definition flow_of :: "database \<Rightarrow> string \<Rightarrow> string" where
  "flow_of db runId =
     (case workflow_name_of db runId of
        Some name \<Rightarrow> if List.member CYBOFLOW_WORKFLOW_NAMES name then name else ''custom''
      | None \<Rightarrow> ''custom'')"

definition notifyRunTerminal :: "string \<Rightarrow> TerminalOutcome \<Rightarrow> database \<Rightarrow> database" where
  "notifyRunTerminal runId out db = db\<lparr>terminal_log := terminal_log db @ [(runId, out)]\<rparr>"

text \<open>\<open>Math.round (d / 1000)\<close> rounds half up: \<open>floor ((d + 500) / 1000)\<close>.\<close>

definition duration_seconds :: "clock \<Rightarrow> int option \<Rightarrow> int option" where
  "duration_seconds ck started =
     map_option (\<lambda>s. max 0 ((wall_ms ck - s * 1000 + 500) div 1000)) started"

definition emitRunCompletedUsage :: "clock \<Rightarrow> string \<Rightarrow> TerminalOutcome \<Rightarrow> database \<Rightarrow> database" where
  "emitRunCompletedUsage ck runId out db0 =
     (let db = notifyRunTerminal runId out db0;
          started = Option.bind (workflow_runs db runId) r_started_at
      in db\<lparr>usage_log := usage_log db @
             [\<lparr>ue_outcome = out, ue_flow = flow_of db runId,
               ue_duration_seconds = duration_seconds ck started\<rparr>]\<rparr>)"

definition reportRunFinalizeFailure ::
  "error_classifier \<Rightarrow> string \<Rightarrow> WorkflowRunStatus \<Rightarrow> string \<Rightarrow> database \<Rightarrow> database" where
  "reportRunFinalizeFailure ec runId fromStatus msg db =
     (if isSystemicStepError ec msg
      then db\<lparr>error_log := error_log db @ [LocalError (classifyErrorPattern ec msg)]\<rparr>
      else (let substrate = (case Option.bind (workflow_runs db runId) r_substrate of
                               Some s \<Rightarrow> s | None \<Rightarrow> ''sdk'');
                cls = classifyErrorPattern ec msg
            in db\<lparr>error_log := error_log db @
                    [SeamError cls fromStatus (flow_of db runId) substrate
                       (unclassifiedErrorTags ec cls msg)]\<rparr>))"

section \<open>Guarded updates\<close>

definition guarded_run_update ::
  "(run_row \<Rightarrow> bool) \<Rightarrow> (run_row \<Rightarrow> run_row) \<Rightarrow> string \<Rightarrow> database \<Rightarrow> nat \<times> database" where
  "guarded_run_update guard upd runId db =
     (case workflow_runs db runId of
        None \<Rightarrow> (0, db)
      | Some r \<Rightarrow> if guard r then (1, db\<lparr>workflow_runs := (workflow_runs db)(runId \<mapsto> upd r)\<rparr>)
                 else (0, db))"

definition run_write ::
  "(run_row \<Rightarrow> bool) \<Rightarrow> (run_row \<Rightarrow> run_row) \<Rightarrow> string \<Rightarrow> WorkflowRunStatus \<Rightarrow> database \<Rightarrow> unit outcome" where
  "run_write guard upd runId expected db =
     (case guarded_run_update guard upd runId db of
        (n, db') \<Rightarrow> if n = 0 then (Inl (TransitionRejected runId (EntRun expected)), db') else (Inr (), db'))"

definition checked ::
  "IllegalTransitionError + unit \<Rightarrow> (database \<Rightarrow> unit outcome) \<Rightarrow> database \<Rightarrow> unit outcome" where
  "checked a f db = (case a of Inl e \<Rightarrow> (Inl (AssertionFailed e), db) | Inr _ \<Rightarrow> f db)"

definition andthen :: "unit outcome \<Rightarrow> (database \<Rightarrow> database) \<Rightarrow> unit outcome" where
  "andthen o1 f = (case o1 of (Inl e, db) \<Rightarrow> (Inl e, db) | (Inr u, db) \<Rightarrow> (Inr u, f db))"

definition immediate_tx :: "(database \<Rightarrow> 'a outcome) \<Rightarrow> database \<Rightarrow> 'a outcome" where
  "immediate_tx body db = (case body db of (Inl e, _) \<Rightarrow> (Inl e, db) | (Inr a, db') \<Rightarrow> (Inr a, db'))"

definition coalesce :: "'a option \<Rightarrow> 'a \<Rightarrow> 'a option" where
  "coalesce a b = (case a of Some x \<Rightarrow> Some x | None \<Rightarrow> Some b)"

definition transitionToRunning :: "clock \<Rightarrow> string \<Rightarrow> database \<Rightarrow> unit outcome" where
  "transitionToRunning ck runId =
     checked (assertTransitionAllowed Starting Running (Some runId))
       (run_write (\<lambda>r. r_status r = Starting)
          (\<lambda>r. r\<lparr>r_status := Running, r_started_at := coalesce (r_started_at r) (sql_now ck),
                  r_updated_at := sql_now ck\<rparr>)
          runId Starting)"

definition transitionToCompleted ::
  "clock \<Rightarrow> string \<Rightarrow> WorkflowRunStatus \<Rightarrow> database \<Rightarrow> unit outcome" where
  "transitionToCompleted ck runId fromStatus db =
     andthen
       (checked (assertTransitionAllowed fromStatus Completed (Some runId))
          (run_write (\<lambda>r. r_status r = fromStatus)
             (\<lambda>r. r\<lparr>r_status := Completed, r_ended_at := Some (sql_now ck),
                     r_updated_at := sql_now ck\<rparr>)
             runId fromStatus) db)
       (emitRunCompletedUsage ck runId EndCompleted)"

definition transitionRunningToAwaitingReview :: "clock \<Rightarrow> string \<Rightarrow> database \<Rightarrow> unit outcome" where
  "transitionRunningToAwaitingReview ck runId =
     checked (assertTransitionAllowed Running AwaitingReview (Some runId))
       (run_write (\<lambda>r. r_status r = Running)
          (\<lambda>r. r\<lparr>r_status := AwaitingReview, r_updated_at := sql_now ck\<rparr>)
          runId Running)"

definition transitionToFailed ::
  "error_classifier \<Rightarrow> clock \<Rightarrow> string \<Rightarrow> WorkflowRunStatus \<Rightarrow> string \<Rightarrow> database \<Rightarrow> unit outcome" where
  "transitionToFailed ec ck runId fromStatus errorMessage db =
     andthen
       (checked (assertTransitionAllowed fromStatus Failed (Some runId))
          (run_write (\<lambda>r. r_status r = fromStatus)
             (\<lambda>r. r\<lparr>r_status := Failed, r_error_message := Some errorMessage,
                     r_ended_at := Some (sql_now ck), r_updated_at := sql_now ck\<rparr>)
             runId fromStatus) db)
       (\<lambda>db'. reportRunFinalizeFailure ec runId fromStatus errorMessage
                (emitRunCompletedUsage ck runId EndFailed db'))"

definition transitionToCanceled :: "clock \<Rightarrow> string \<Rightarrow> database \<Rightarrow> unit outcome" where
  "transitionToCanceled ck runId db =
     andthen
       (run_write (\<lambda>r. \<not> List.member TERMINAL_RUN_STATUSES (r_status r))
          (\<lambda>r. r\<lparr>r_status := Canceled, r_ended_at := Some (sql_now ck), r_updated_at := sql_now ck\<rparr>)
          runId Canceled db)
       (emitRunCompletedUsage ck runId EndCanceled)"

definition transitionToPaused :: "clock \<Rightarrow> string \<Rightarrow> database \<Rightarrow> unit outcome" where
  "transitionToPaused ck runId =
     run_write (\<lambda>r. List.member [Running, AwaitingReview] (r_status r))
       (\<lambda>r. r\<lparr>r_status := Paused, r_updated_at := sql_now ck\<rparr>)
       runId Running"

definition transitionPausedToRunning :: "clock \<Rightarrow> string \<Rightarrow> database \<Rightarrow> unit outcome" where
  "transitionPausedToRunning ck runId =
     checked (assertTransitionAllowed Paused Running (Some runId))
       (run_write (\<lambda>r. r_status r = Paused)
          (\<lambda>r. r\<lparr>r_status := Running, r_updated_at := sql_now ck\<rparr>)
          runId Paused)"

definition update_approval ::
  "clock \<Rightarrow> string \<Rightarrow> string \<Rightarrow> ApprovalStatus \<Rightarrow> string \<Rightarrow> database \<Rightarrow> unit outcome" where
  "update_approval ck runId approvalId decision decidedBy db =
     (case approvals db approvalId of
        None \<Rightarrow> (Inl (TransitionRejected runId (EntApproval APending)), db)
      | Some a \<Rightarrow>
          if ap_status a = APending
          then (Inr (), db\<lparr>approvals := (approvals db)(approvalId \<mapsto>
                   a\<lparr>ap_status := decision, ap_decided_at := Some (sql_now ck),
                     ap_decided_by := Some decidedBy\<rparr>)\<rparr>)
          else (Inl (TransitionRejected runId (EntApproval APending)), db))"

definition from_awaiting_review_body ::
  "clock \<Rightarrow> string \<Rightarrow> string \<Rightarrow> ApprovalStatus \<Rightarrow> string \<Rightarrow> database \<Rightarrow> unit outcome" where
  "from_awaiting_review_body ck runId approvalId decision decidedBy db =
     (case checked (assertTransitionAllowed AwaitingReview Running (Some runId))
             (run_write (\<lambda>r. r_status r = AwaitingReview)
                (\<lambda>r. r\<lparr>r_status := Running, r_updated_at := sql_now ck\<rparr>)
                runId AwaitingReview) db of
        (Inl e, db') \<Rightarrow> (Inl e, db')
      | (Inr _, db') \<Rightarrow> update_approval ck runId approvalId decision decidedBy db')"

definition transitionFromAwaitingReview ::
  "clock \<Rightarrow> string \<Rightarrow> string \<Rightarrow> ApprovalStatus \<Rightarrow> string \<Rightarrow> database \<Rightarrow> unit outcome" where
  "transitionFromAwaitingReview ck runId approvalId decision decidedBy =
     immediate_tx (from_awaiting_review_body ck runId approvalId decision decidedBy)"

section \<open>Reviving a quick-session sentinel\<close>

record ReviveQuickRunResult =
  revived :: bool
  fromStatus :: "WorkflowRunStatus option"

text \<open>The joined row: \<open>None\<close> unless the run exists and its workflow is the \<open>__quick__\<close> sentinel.
  A database without the experiments table (\<open>experiments db = None\<close>) takes the legacy query.\<close>

definition quick_sentinel_row :: "database \<Rightarrow> string \<Rightarrow> (WorkflowRunStatus \<times> string option) option" where
  "quick_sentinel_row db runId =
     (case workflow_runs db runId of
        None \<Rightarrow> None
      | Some r \<Rightarrow>
          if workflows db (r_workflow_id r) \<noteq> Some ''__quick__'' then None
          else Some (r_status r,
                     (case experiments db of
                        None \<Rightarrow> None
                      | Some es \<Rightarrow> Option.bind (r_experiment_id r) es)))"

definition reviveQuickRunToRunning ::
  "clock \<Rightarrow> string \<Rightarrow> database \<Rightarrow> ReviveQuickRunResult \<times> database" where
  "reviveQuickRunToRunning ck runId db =
     (case quick_sentinel_row db runId of
        None \<Rightarrow> (\<lparr>revived = False, fromStatus = None\<rparr>, db)
      | Some (st, expStatus) \<Rightarrow>
          if st = Running then (\<lparr>revived = False, fromStatus = Some Running\<rparr>, db)
          else if expStatus \<noteq> None \<and> expStatus \<noteq> Some ''running''
          then (\<lparr>revived = False, fromStatus = Some st\<rparr>, db)
          else (case guarded_run_update (\<lambda>r. r_status r \<noteq> Running)
                       (\<lambda>r. r\<lparr>r_status := Running, r_error_message := None, r_ended_at := None,
                               r_outcome := (if r_outcome r \<in> {Some ''failed'', Some ''interrupted''}
                                             then None else r_outcome r),
                               r_started_at := coalesce (r_started_at r) (sql_now ck),
                               r_updated_at := sql_now ck\<rparr>)
                       runId db of
                  (n, db') \<Rightarrow> (\<lparr>revived = (n > 0), fromStatus = Some st\<rparr>, db')))"

section \<open>The contract of a guarded writer\<close>

named_theorems transition_defs \<open>definitions of the guarded writers and their telemetry\<close>

lemmas [transition_defs] =
  guarded_run_update_def run_write_def checked_def andthen_def immediate_tx_def
  assertTransitionAllowed_def

lemmas [transition_defs] =
  transitionToRunning_def transitionToCompleted_def transitionRunningToAwaitingReview_def
  transitionToFailed_def transitionToCanceled_def transitionToPaused_def
  transitionPausedToRunning_def

text \<open>The telemetry of a terminal write changes no table and logs the run once.\<close>

lemma telemetry_tables [simp]:
  "workflow_runs (notifyRunTerminal i out db) = workflow_runs db"
  "workflow_runs (emitRunCompletedUsage ck i out db) = workflow_runs db"
  "workflow_runs (reportRunFinalizeFailure ec i s m db) = workflow_runs db"
  "approvals (emitRunCompletedUsage ck i out db) = approvals db"
  "approvals (reportRunFinalizeFailure ec i s m db) = approvals db"
  by (simp_all add: notifyRunTerminal_def emitRunCompletedUsage_def reportRunFinalizeFailure_def Let_def)

lemma telemetry_log [simp]:
  "terminal_log (emitRunCompletedUsage ck i out db) = terminal_log db @ [(i, out)]"
  "terminal_log (reportRunFinalizeFailure ec i s m db) = terminal_log db"
  by (simp_all add: notifyRunTerminal_def emitRunCompletedUsage_def reportRunFinalizeFailure_def Let_def)

definition status_of :: "database \<Rightarrow> string \<Rightarrow> WorkflowRunStatus option" where
  "status_of db runId = map_option r_status (workflow_runs db runId)"

text \<open>
  A guarded writer of one run: when it succeeds it replaces that run's row only, moving its status
  from one of its sources to its target, and notifies the terminal listeners exactly when the
  target is terminal; when it throws it leaves the database as it was; each of its moves is an edge
  of the table.
\<close>

locale guarded_writer =
  fixes op_w :: "database \<Rightarrow> unit outcome"
    and run_id :: string
    and sources :: "WorkflowRunStatus set"
    and target :: WorkflowRunStatus
  assumes writes: "op_w db = (Inr u, db') \<Longrightarrow>
      \<exists>r r'. workflow_runs db run_id = Some r \<and> r_status r \<in> sources \<and> r_status r' = target \<and>
             workflow_runs db' = (workflow_runs db)(run_id \<mapsto> r')"
    and rejects: "op_w db = (Inl e, db') \<Longrightarrow> db' = db"
    and legal: "s \<in> sources \<Longrightarrow> isTransitionAllowed s target"
    and notifies: "op_w db = (Inr u, db') \<Longrightarrow>
      map fst (terminal_log db') = map fst (terminal_log db) @ (if is_terminal target then [run_id] else [])"
begin

lemma moves_along_edge:
  assumes "op_w db = (Inr u, db')"
  shows "\<exists>s. status_of db run_id = Some s \<and> isTransitionAllowed s target \<and>
             status_of db' run_id = Some target"
  using writes [OF assms] legal by (auto simp: status_of_def)

lemma other_rows: "op_w db = (x, db') \<Longrightarrow> i \<noteq> run_id \<Longrightarrow> workflow_runs db' i = workflow_runs db i"
  by (cases x) (auto dest: writes rejects)

lemma terminal_row_locked:
  assumes "op_w db = (x, db')" and "workflow_runs db i = Some r" and "is_terminal (r_status r)"
  shows "workflow_runs db' i = Some r"
proof (cases "i = run_id \<and> (\<exists>u. x = Inr u)")
  case True
  then obtain u where u: "op_w db = (Inr u, db')" "i = run_id" using assms(1) by auto
  from moves_along_edge [OF u(1)] assms(2,3) u(2) have False
    by (auto simp: status_of_def is_terminal_iff isTransitionAllowed_iff)
  then show ?thesis ..
next
  case False
  then show ?thesis
    using assms other_rows [OF assms(1)] by (cases x) (auto dest: rejects)
qed

end

lemma row_written: "r_status r = t \<Longrightarrow> \<exists>r'. r_status r' = t \<and> m(i \<mapsto> r) = m(i \<mapsto> r')"
  by blast

interpretation toRunning: guarded_writer "transitionToRunning ck i" i "{Starting}" Running for ck i
  by unfold_locales
    (auto simp: transition_defs is_terminal_iff isTransitionAllowed_iff intro!: row_written split: option.splits if_splits)

interpretation toCompleted: guarded_writer "transitionToCompleted ck i s" i
    "{s} \<inter> {s. isTransitionAllowed s Completed}" Completed for ck i s
  by unfold_locales (auto simp: transition_defs is_terminal_iff intro!: row_written split: option.splits if_splits)

interpretation toReview: guarded_writer "transitionRunningToAwaitingReview ck i" i "{Running}"
    AwaitingReview for ck i
  by unfold_locales
    (auto simp: transition_defs is_terminal_iff isTransitionAllowed_iff intro!: row_written split: option.splits if_splits)

interpretation toFailed: guarded_writer "transitionToFailed ec ck i s m" i
    "{s} \<inter> {s. isTransitionAllowed s Failed}" Failed for ec ck i s m
  by unfold_locales (auto simp: transition_defs is_terminal_iff intro!: row_written split: option.splits if_splits)

interpretation toCanceled: guarded_writer "transitionToCanceled ck i" i "{s. \<not> is_terminal s}" Canceled
  for ck i
  by unfold_locales
    (auto simp: transition_defs cancel_allowed_iff is_terminal_def TERMINAL_RUN_STATUSES_def
          intro!: row_written split: option.splits if_splits)

interpretation toPaused: guarded_writer "transitionToPaused ck i" i "{Running, AwaitingReview}" Paused
  for ck i
  by unfold_locales
    (auto simp: transition_defs is_terminal_iff isTransitionAllowed_iff intro!: row_written split: option.splits if_splits)

interpretation resume: guarded_writer "transitionPausedToRunning ck i" i "{Paused}" Running for ck i
  by unfold_locales
    (auto simp: transition_defs is_terminal_iff isTransitionAllowed_iff intro!: row_written split: option.splits if_splits)

lemma decide_success:
  assumes "transitionFromAwaitingReview ck i a d w db = (Inr u, db')"
  shows "\<exists>r ar. workflow_runs db i = Some r \<and> r_status r = AwaitingReview \<and>
     approvals db a = Some ar \<and> ap_status ar = APending \<and>
     db' = db\<lparr>workflow_runs := (workflow_runs db)(i \<mapsto> r\<lparr>r_status := Running, r_updated_at := sql_now ck\<rparr>),
              approvals := (approvals db)(a \<mapsto> ar\<lparr>ap_status := d, ap_decided_at := Some (sql_now ck),
                              ap_decided_by := Some w\<rparr>)\<rparr>"
  using assms
  by (auto simp: transitionFromAwaitingReview_def from_awaiting_review_body_def update_approval_def
        transition_defs isTransitionAllowed_iff split: option.splits if_splits)

lemma decide_rejects: "transitionFromAwaitingReview ck i a d w db = (Inl e, db') \<Longrightarrow> db' = db"
  by (auto simp: transitionFromAwaitingReview_def immediate_tx_def split: prod.splits sum.splits)

interpretation decide: guarded_writer "transitionFromAwaitingReview ck i a d w" i "{AwaitingReview}"
    Running for ck i a d w
proof
  fix db u db'
  assume "transitionFromAwaitingReview ck i a d w db = (Inr u, db')"
  from decide_success [OF this] show
    "\<exists>r r'. workflow_runs db i = Some r \<and> r_status r \<in> {AwaitingReview} \<and> r_status r' = Running \<and>
            workflow_runs db' = (workflow_runs db)(i \<mapsto> r')"
    by (auto intro!: row_written)
  from \<open>transitionFromAwaitingReview ck i a d w db = (Inr u, db')\<close> show
    "map fst (terminal_log db') = map fst (terminal_log db) @ (if is_terminal Running then [i] else [])"
    by (auto dest: decide_success simp: is_terminal_iff)
qed (auto dest: decide_rejects simp: isTransitionAllowed_iff)

section \<open>Sequences of guarded writes\<close>

datatype transition_call =
    ToRunning string
  | ToCompleted string WorkflowRunStatus
  | ToReview string
  | ToFailed string WorkflowRunStatus string
  | ToCanceled string
  | ToPaused string
  | ResumePaused string
  | DecideApproval string string ApprovalStatus string

fun call_run :: "transition_call \<Rightarrow> string" where
  "call_run (ToRunning i) = i"
| "call_run (ToCompleted i s) = i"
| "call_run (ToReview i) = i"
| "call_run (ToFailed i s m) = i"
| "call_run (ToCanceled i) = i"
| "call_run (ToPaused i) = i"
| "call_run (ResumePaused i) = i"
| "call_run (DecideApproval i a d w) = i"

fun call_target :: "transition_call \<Rightarrow> WorkflowRunStatus" where
  "call_target (ToRunning i) = Running"
| "call_target (ToCompleted i s) = Completed"
| "call_target (ToReview i) = AwaitingReview"
| "call_target (ToFailed i s m) = Failed"
| "call_target (ToCanceled i) = Canceled"
| "call_target (ToPaused i) = Paused"
| "call_target (ResumePaused i) = Running"
| "call_target (DecideApproval i a d w) = Running"

fun apply_call :: "error_classifier \<Rightarrow> clock \<Rightarrow> transition_call \<Rightarrow> database \<Rightarrow> unit outcome" where
  "apply_call ec ck (ToRunning i) = transitionToRunning ck i"
| "apply_call ec ck (ToCompleted i s) = transitionToCompleted ck i s"
| "apply_call ec ck (ToReview i) = transitionRunningToAwaitingReview ck i"
| "apply_call ec ck (ToFailed i s m) = transitionToFailed ec ck i s m"
| "apply_call ec ck (ToCanceled i) = transitionToCanceled ck i"
| "apply_call ec ck (ToPaused i) = transitionToPaused ck i"
| "apply_call ec ck (ResumePaused i) = transitionPausedToRunning ck i"
| "apply_call ec ck (DecideApproval i a d w) = transitionFromAwaitingReview ck i a d w"

text \<open>Callers catch a rejected write and carry on, so a sequence goes on after an error.\<close>

fun run_calls :: "error_classifier \<Rightarrow> (clock \<times> transition_call) list \<Rightarrow> database \<Rightarrow> database" where
  "run_calls ec [] db = db"
| "run_calls ec ((ck, c) # cs) db = run_calls ec cs (snd (apply_call ec ck c db))"

lemma apply_call_writer:
  "\<exists>srcs. guarded_writer (apply_call ec ck c) (call_run c) srcs (call_target c)"
proof (cases c)
  case (ToRunning i)
  then show ?thesis by (auto intro!: exI toRunning.guarded_writer_axioms)
next
  case (ToCompleted i s)
  then show ?thesis by (auto intro!: exI toCompleted.guarded_writer_axioms)
next
  case (ToReview i)
  then show ?thesis by (auto intro!: exI toReview.guarded_writer_axioms)
next
  case (ToFailed i s m)
  then show ?thesis by (auto intro!: exI toFailed.guarded_writer_axioms)
next
  case (ToCanceled i)
  then show ?thesis by (auto intro!: exI toCanceled.guarded_writer_axioms)
next
  case (ToPaused i)
  then show ?thesis by (auto intro!: exI toPaused.guarded_writer_axioms)
next
  case (ResumePaused i)
  then show ?thesis by (auto intro!: exI resume.guarded_writer_axioms)
next
  case (DecideApproval i a d w)
  then show ?thesis by (auto intro!: exI decide.guarded_writer_axioms)
qed


lemma run_calls_induct_row:
  assumes "workflow_runs db i = Some r" and "is_terminal (r_status r)"
  shows "workflow_runs (run_calls ec cs db) i = Some r"
  using assms(1)
proof (induction cs arbitrary: db)
  case (Cons cc cs)
  obtain ck c where cc: "cc = (ck, c)" by fastforce
  obtain srcs where "guarded_writer (apply_call ec ck c) (call_run c) srcs (call_target c)"
    using apply_call_writer by blast
  then have "workflow_runs (snd (apply_call ec ck c db)) i = Some r"
    using Cons.prems assms(2) by (metis guarded_writer.terminal_row_locked prod.collapse)
  then show ?case unfolding cc by (simp add: Cons.IH)
qed simp

definition notified_once :: "database \<Rightarrow> bool" where
  "notified_once db \<longleftrightarrow> distinct (map fst (terminal_log db)) \<and>
     (\<forall>i \<in> fst ` set (terminal_log db). \<exists>s. status_of db i = Some s \<and> is_terminal s)"

lemma apply_call_notified_once:
  assumes "notified_once db"
  shows "notified_once (snd (apply_call ec ck c db))"
proof -
  obtain srcs where w: "guarded_writer (apply_call ec ck c) (call_run c) srcs (call_target c)"
    using apply_call_writer by blast
  obtain x db' where x: "apply_call ec ck c db = (x, db')" by fastforce
  show ?thesis
  proof (cases x)
    case (Inl e)
    then show ?thesis using assms guarded_writer.rejects [OF w] x by fastforce
  next
    case (Inr u)
    note ok = x [unfolded Inr]
    obtain s where s: "status_of db (call_run c) = Some s" "isTransitionAllowed s (call_target c)"
      and t: "status_of db' (call_run c) = Some (call_target c)"
      using guarded_writer.moves_along_edge [OF w ok] by blast
    have fresh: "call_run c \<notin> fst ` set (terminal_log db)"
      using assms s by (auto simp: notified_once_def isTransitionAllowed_iff is_terminal_iff)
    have others: "status_of db' i = status_of db i" if "i \<noteq> call_run c" for i
      using guarded_writer.other_rows [OF w ok that] by (simp add: status_of_def)
    have log: "map fst (terminal_log db') =
        map fst (terminal_log db) @ (if is_terminal (call_target c) then [call_run c] else [])"
      by (rule guarded_writer.notifies [OF w ok])
    from arg_cong [OF log, of set] have keys: "fst ` set (terminal_log db') =
        fst ` set (terminal_log db) \<union> (if is_terminal (call_target c) then {call_run c} else {})"
      by (simp split: if_splits)
    have "distinct (map fst (terminal_log db'))"
      using assms fresh log by (simp add: notified_once_def)
    moreover have "\<exists>s. status_of db' i = Some s \<and> is_terminal s"
      if i: "i \<in> fst ` set (terminal_log db')" for i
    proof (cases "i = call_run c")
      case True
      with i keys fresh t show ?thesis by (auto split: if_splits)
    next
      case False
      with i keys have "i \<in> fst ` set (terminal_log db)" by (auto split: if_splits)
      with assms others [OF False] show ?thesis by (auto simp: notified_once_def)
    qed
    ultimately show ?thesis using x by (simp add: notified_once_def)
  qed
qed

lemma run_calls_notified_once: "notified_once db \<Longrightarrow> notified_once (run_calls ec cs db)"
proof (induction cs arbitrary: db)
  case (Cons cc cs)
  then show ?case by (cases cc) (simp add: apply_call_notified_once)
qed simp

section \<open>A sample database\<close>

text \<open>A running planner run and a quick-session sentinel that boot recovery force-failed.\<close>

definition sample_ec :: error_classifier where
  "sample_ec = \<lparr>isSystemicStepError = (\<lambda>m. m = ''usage limit reached''),
     classifyErrorPattern = (\<lambda>m. if m = ''usage limit reached'' then ''usage-limit-reached'' else ''other''),
     unclassifiedErrorTags = (\<lambda>_ _. [])\<rparr>"

definition sample_clock :: clock where
  "sample_clock = \<lparr>sql_now = 1000, wall_ms = 1000400\<rparr>"

definition sample_row :: "WorkflowRunStatus \<Rightarrow> string \<Rightarrow> run_row" where
  "sample_row st w = \<lparr>r_status = st, r_workflow_id = w, r_substrate = None, r_experiment_id = None,
     r_started_at = Some 900, r_ended_at = None, r_updated_at = 900, r_error_message = None,
     r_outcome = None\<rparr>"

definition sample_db :: database where
  "sample_db = \<lparr>workflow_runs = [''r1'' \<mapsto> sample_row Running ''w1'', ''q1'' \<mapsto> sample_row Failed ''wq''],
     approvals = Map.empty, workflows = [''w1'' \<mapsto> ''planner'', ''wq'' \<mapsto> ''__quick__''],
     experiments = Some Map.empty, terminal_log = [], usage_log = [], error_log = []\<rparr>"

lemmas sample_defs = sample_ec_def sample_clock_def sample_row_def sample_db_def

section \<open>Properties of the guarded writers\<close>

text \<open>C6: a guarded writer that succeeds moves its own run along a legal edge of the table and
  changes no other run; one that throws leaves the whole database as it was.\<close>

theorem guarded_writes_follow_table:
  assumes "apply_call ec ck c db = (x, db')"
  shows "(\<forall>u. x = Inr u \<longrightarrow> (\<exists>s. status_of db (call_run c) = Some s \<and>
                 isTransitionAllowed s (call_target c) \<and>
                 status_of db' (call_run c) = Some (call_target c) \<and>
                 (\<forall>i. i \<noteq> call_run c \<longrightarrow> workflow_runs db' i = workflow_runs db i))) \<and>
         (\<forall>e. x = Inl e \<longrightarrow> db' = db)"
proof -
  obtain srcs where w: "guarded_writer (apply_call ec ck c) (call_run c) srcs (call_target c)"
    using apply_call_writer by blast
  show ?thesis
    using guarded_writer.moves_along_edge [OF w] guarded_writer.rejects [OF w]
      guarded_writer.other_rows [OF w assms] assms by blast
qed

theorem guarded_writes_follow_table_witness:
  "fst (apply_call sample_ec sample_clock (ToCanceled ''r1'') sample_db) = Inr () \<and>
   status_of (snd (apply_call sample_ec sample_clock (ToCanceled ''r1'') sample_db)) ''r1'' = Some Canceled"
proof -
  have ok: "apply_call sample_ec sample_clock (ToCanceled ''r1'') sample_db =
      (Inr (), snd (apply_call sample_ec sample_clock (ToCanceled ''r1'') sample_db))"
    by (simp add: transition_defs sample_defs TERMINAL_RUN_STATUSES_def)
  from guarded_writes_follow_table [OF ok] show ?thesis
    by (subst ok) auto
qed

text \<open>C7: terminal lockdown. Whatever sequence of guarded writes runs, with whatever failures in
  between, the row of a run that is completed, failed or canceled is never changed again.\<close>

theorem terminal_run_locked:
  assumes "workflow_runs db i = Some r" and "is_terminal (r_status r)"
  shows "workflow_runs (run_calls ec cs db) i = Some r"
  using assms by (rule run_calls_induct_row)

theorem terminal_run_locked_witness:
  "workflow_runs (run_calls sample_ec
      [(sample_clock, ToRunning ''q1''), (sample_clock, ToCanceled ''q1''), (sample_clock, ToCanceled ''r1'')]
      sample_db) ''q1'' = Some (sample_row Failed ''wq'')"
  by (rule terminal_run_locked) (simp_all add: sample_defs is_terminal_iff)

text \<open>C8: the terminal listeners hear of a run at most once: in every sequence of guarded writes
  from a database whose log is empty the notified runs are distinct, and each is terminal.\<close>

theorem terminal_notified_at_most_once:
  assumes "terminal_log db = []"
  shows "notified_once (run_calls ec cs db)"
  by (rule run_calls_notified_once) (simp add: notified_once_def assms)

theorem terminal_notified_at_most_once_witness:
  "notified_once (run_calls sample_ec
      [(sample_clock, ToCanceled ''r1''), (sample_clock, ToCanceled ''r1'')] sample_db) \<and>
   map fst (terminal_log (run_calls sample_ec
      [(sample_clock, ToCanceled ''r1''), (sample_clock, ToCanceled ''r1'')] sample_db)) = [''r1'']"
proof
  show "notified_once (run_calls sample_ec
      [(sample_clock, ToCanceled ''r1''), (sample_clock, ToCanceled ''r1'')] sample_db)"
    by (rule terminal_notified_at_most_once) (simp add: sample_db_def)
qed (simp add: transition_defs sample_defs TERMINAL_RUN_STATUSES_def)

text \<open>deciding an approval is atomic: either both rows are written, from \<open>awaiting_review\<close> and
  \<open>pending\<close>, or the transaction rolls back and the database is unchanged, although the run row
  is written first.\<close>

theorem decide_approval_atomic:
  "(case transitionFromAwaitingReview ck i a d w db of
      (Inl e, db') \<Rightarrow> db' = db
    | (Inr u, db') \<Rightarrow>
        status_of db i = Some AwaitingReview \<and> status_of db' i = Some Running \<and>
        map_option ap_status (approvals db a) = Some APending \<and>
        map_option ap_status (approvals db' a) = Some d)"
  by (auto split: prod.splits sum.splits dest!: decide_success decide_rejects simp: status_of_def)

text \<open>the hand-written cancel guard \<open>status NOT IN (terminal)\<close> agrees with the table: a cancel
  succeeds exactly when the run exists and the table has an edge from its status to \<open>canceled\<close>.\<close>

theorem cancel_guard_agrees_with_table:
  "fst (transitionToCanceled ck i db) = Inr () \<longleftrightarrow>
     (\<exists>s. status_of db i = Some s \<and> s \<in> set (allowedSourcesFor Canceled))"
  by (auto simp: transition_defs status_of_def allowedSourcesFor_iff cancel_allowed_iff is_terminal_def
        split: option.splits)

text \<open>reviving a quick-session sentinel never touches any other run, never touches a run whose
  workflow is not the sentinel or whose experiment has left \<open>running\<close>, and otherwise leaves the run
  \<open>running\<close> with its error and end stamps cleared.\<close>

theorem revive_quick_run_scope:
  assumes "reviveQuickRunToRunning ck i db = (res, db')"
  shows "(\<forall>j. j \<noteq> i \<longrightarrow> workflow_runs db' j = workflow_runs db j) \<and>
         (\<not> revived res \<longrightarrow> db' = db) \<and>
         (revived res \<longrightarrow>
            (\<exists>r r' e. workflow_runs db i = Some r \<and> workflows db (r_workflow_id r) = Some ''__quick__'' \<and>
                 quick_sentinel_row db i = Some (r_status r, e) \<and> (e = None \<or> e = Some ''running'') \<and>
                 workflow_runs db' i = Some r' \<and> r_status r' = Running \<and> r_error_message r' = None \<and>
                 r_ended_at r' = None))"
  using assms
  by (auto simp: reviveQuickRunToRunning_def quick_sentinel_row_def guarded_run_update_def
        split: option.splits if_splits prod.splits)

theorem revive_quick_run_scope_witness:
  "revived (fst (reviveQuickRunToRunning sample_clock ''q1'' sample_db)) \<and>
   workflow_runs (snd (reviveQuickRunToRunning sample_clock ''q1'' sample_db)) ''r1'' =
     workflow_runs sample_db ''r1''"
proof
  show "revived (fst (reviveQuickRunToRunning sample_clock ''q1'' sample_db))"
    by (simp add: reviveQuickRunToRunning_def quick_sentinel_row_def guarded_run_update_def sample_defs)
  show "workflow_runs (snd (reviveQuickRunToRunning sample_clock ''q1'' sample_db)) ''r1'' =
     workflow_runs sample_db ''r1''"
    using revive_quick_run_scope [of sample_clock "''q1''" sample_db, OF prod.collapse [symmetric]]
    by simp
qed

end
