(* ===== verification/JsString.thy ===== *)
theory JsString
  imports Prelude
begin

text \<open>
  The JavaScript string operations and regular-expression fragments that the review parsers use,
  on UTF-8 text. \<open>\<^verbatim>\<open>\s\<close>\<close> and \<open>trim\<close> know the six ASCII white-space characters and case folding the
  ASCII letters, so a text with an exotic white space (such as U+00A0 or U+2028) or a letter that
  lower-cases into ASCII (U+212A) is outside the model; \<open>\<^verbatim>\<open>\b\<close>\<close> is decided by the word characters, which
  are ASCII in JavaScript too.
\<close>

definition code :: "char \<Rightarrow> nat" where
  "code c = of_char c"

definition js_space :: "char \<Rightarrow> bool" where
  "js_space c \<longleftrightarrow> code c \<in> {9, 10, 11, 12, 13, 32}"

definition js_blank :: "char \<Rightarrow> bool" where
  "js_blank c \<longleftrightarrow> c = CHR '' '' \<or> c = CHR 0x09"

definition js_digit :: "char \<Rightarrow> bool" where
  "js_digit c \<longleftrightarrow> 48 \<le> code c \<and> code c \<le> 57"

definition js_word :: "char \<Rightarrow> bool" where
  "js_word c \<longleftrightarrow> js_digit c \<or> (65 \<le> code c \<and> code c \<le> 90) \<or> (97 \<le> code c \<and> code c \<le> 122) \<or> c = CHR ''_''"

definition lower_char :: "char \<Rightarrow> char" where
  "lower_char c =
     (if 65 \<le> code c \<and> code c \<le> 90 then char_of (code c + 32) else c)"

definition upper_char :: "char \<Rightarrow> char" where
  "upper_char c = (if 97 \<le> code c \<and> code c \<le> 122 then char_of (code c - 32) else c)"

definition toLower :: "string \<Rightarrow> string" where
  "toLower = map lower_char"

definition toUpper :: "string \<Rightarrow> string" where
  "toUpper = map upper_char"

definition rstrip :: "(char \<Rightarrow> bool) \<Rightarrow> string \<Rightarrow> string" where
  "rstrip P s = rev (dropWhile P (rev s))"

definition trim :: "string \<Rightarrow> string" where
  "trim s = rstrip js_space (dropWhile js_space s)"

text \<open>\<open>s.startsWith(p)\<close>, returning the remainder, and its case-folding version.\<close>

fun strip_prefix :: "string \<Rightarrow> string \<Rightarrow> string option" where
  "strip_prefix [] s = Some s"
| "strip_prefix (p # ps) [] = None"
| "strip_prefix (p # ps) (c # cs) = (if p = c then strip_prefix ps cs else None)"

definition startsWith :: "string \<Rightarrow> string \<Rightarrow> bool" where
  "startsWith s p \<longleftrightarrow> strip_prefix p s \<noteq> None"

definition strip_prefix_ci :: "string \<Rightarrow> string \<Rightarrow> string option" where
  "strip_prefix_ci p s =
     (if strip_prefix (toLower p) (toLower (take (length p) s)) = Some [] then Some (drop (length p) s)
      else None)"

text \<open>The dashes U+2014 and U+2013, and the character class of the three dashes at the head of a
  string.\<close>

definition em_dash :: string where
  "em_dash = [CHR 0xE2, CHR 0x80, CHR 0x94]"

definition en_dash :: string where
  "en_dash = [CHR 0xE2, CHR 0x80, CHR 0x93]"

definition strip_dash :: "string \<Rightarrow> string option" where
  "strip_dash s =
     (case strip_prefix em_dash s of
        Some r \<Rightarrow> Some r
      | None \<Rightarrow> (case strip_prefix en_dash s of Some r \<Rightarrow> Some r | None \<Rightarrow> strip_prefix ''-'' s))"

text \<open>\<open>\<^verbatim>\<open>\b\<close>\<close> right after a word character: the end of the string or a non-word character.\<close>

definition word_end :: "string \<Rightarrow> bool" where
  "word_end s = (case s of [] \<Rightarrow> True | c # _ \<Rightarrow> \<not> js_word c)"

text \<open>\<open>s.split(/\r?\n/)\<close>.\<close>

fun split_nl :: "string \<Rightarrow> string list" where
  "split_nl [] = [[]]"
| "split_nl (c # cs) =
     (if c = CHR 0x0A then [] # split_nl cs
      else (case split_nl cs of [] \<Rightarrow> [[c]] | l # ls \<Rightarrow> (c # l) # ls))"

definition chomp_cr :: "string \<Rightarrow> string" where
  "chomp_cr l = (if l \<noteq> [] \<and> last l = CHR 0x0D then butlast l else l)"

definition lines_of :: "string \<Rightarrow> string list" where
  "lines_of s = (let ls = split_nl s in map chomp_cr (butlast ls) @ [last ls])"

fun join_nl :: "string list \<Rightarrow> string" where
  "join_nl [] = []"
| "join_nl [l] = l"
| "join_nl (l # ls) = l @ CHR 0x0A # join_nl ls"

text \<open>\<open>s.replace(/\s+/g, ' ')\<close>.\<close>

fun collapse_ws :: "string \<Rightarrow> string" where
  "collapse_ws [] = []"
| "collapse_ws (c # cs) =
     (if js_space c then (case cs of
          [] \<Rightarrow> [CHR '' '']
        | d # _ \<Rightarrow> if js_space d then collapse_ws cs else CHR '' '' # collapse_ws cs)
      else c # collapse_ws cs)"

text \<open>\<open>AR[-\s]?\d+\<close> at the head of a string (case-folded): the matched label and the remainder.\<close>

definition match_ar :: "string \<Rightarrow> (string \<times> string) option" where
  "match_ar s =
     (case strip_prefix_ci ''AR'' s of
        None \<Rightarrow> None
      | Some r \<Rightarrow>
          let (sep, r1) = (case r of
                             c # cs \<Rightarrow> if c = CHR ''-'' \<or> js_space c then ([c], cs) else ([], r)
                           | [] \<Rightarrow> ([], r));
              ds = takeWhile js_digit r1
          in if ds = [] then None else Some (take 2 s @ sep @ ds, dropWhile js_digit r1))"

text \<open>\<open>s.includes(p)\<close>.\<close>

fun contains :: "string \<Rightarrow> string \<Rightarrow> bool" where
  "contains p [] = (p = [])"
| "contains p (c # cs) = (strip_prefix p (c # cs) \<noteq> None \<or> contains p cs)"

text \<open>The \<open>m\<close> flag: \<open>^\<close> also holds right after a line break.\<close>

fun any_line_start :: "(string \<Rightarrow> bool) \<Rightarrow> string \<Rightarrow> bool" where
  "any_line_start P [] = False"
| "any_line_start P (c # cs) =
     ((c = CHR 0x0A \<or> c = CHR 0x0D) \<and> P cs \<or> any_line_start P cs)"

text \<open>\<open>String(n)\<close> of an integer.\<close>

function nat_text :: "nat \<Rightarrow> string" where
  "nat_text n = (if n < 10 then [''0123456789'' ! n] else nat_text (n div 10) @ [''0123456789'' ! (n mod 10)])"
  by auto
termination by (relation "measure id") auto

definition int_text :: "int \<Rightarrow> string" where
  "int_text i = (if i < 0 then ''-'' @ nat_text (nat (- i)) else nat_text (nat i))"

section \<open>Lemmas\<close>

lemma split_nl_nonempty [simp]: "split_nl s \<noteq> []"
  by (induction s) (auto split: list.splits)

lemma lines_of_nonempty [simp]: "lines_of s \<noteq> []"
  by (simp add: lines_of_def Let_def)

lemma strip_prefix_append [simp]: "strip_prefix p (p @ s) = Some s"
  by (induction p) simp_all

lemma strip_prefix_Some: "strip_prefix p s = Some r \<longleftrightarrow> s = p @ r"
  by (induction p s rule: strip_prefix.induct) auto

lemma strip_prefix_shrinks: "strip_prefix p s = Some r \<Longrightarrow> p \<noteq> [] \<Longrightarrow> length r < length s"
  by (cases p) (auto simp: strip_prefix_Some)

lemma startsWith_iff: "startsWith s p \<longleftrightarrow> (\<exists>r. s = p @ r)"
  by (auto simp: startsWith_def) (metis not_Some_eq strip_prefix_Some)

text \<open>Appending a line: the text after the last line break is the last line.\<close>

lemma split_nl_append: "split_nl (s @ CHR 0x0A # t) = split_nl s @ split_nl t"
proof (induction s)
  case (Cons c cs)
  then show ?case by (cases "split_nl cs") (auto simp: Cons split: list.splits)
qed simp

lemma split_nl_single: "CHR 0x0A \<notin> set s \<Longrightarrow> split_nl s = [s]"
  by (induction s) auto

lemma lines_of_snoc:
  assumes "CHR 0x0A \<notin> set l"
  shows "lines_of (s @ CHR 0x0A # l) = map chomp_cr (split_nl s) @ [l]"
  using assms by (simp add: lines_of_def Let_def split_nl_append split_nl_single)

end
