(* ===== verification/AgentDraft.thy ===== *)
theory AgentDraft
  imports JsString
begin

text \<open>
  The agent-draft chokepoint: main/src/orchestrator/agents/agentValidation.ts with the vocabularies of
  shared/types/cliTools.ts, shared/types/agents.ts and shared/types/agentRuntime.ts. The single-writer
  rule is that no agent may be granted, or told to call, a \<open>cyboflow_*\<close> entity-write tool.
\<close>

section \<open>Vocabularies\<close>

definition CLI_TOOLS :: "string list" where
  "CLI_TOOLS = [''Read'', ''Edit'', ''Write'', ''Bash'', ''Grep'', ''Glob'', ''WebSearch'', ''WebFetch'']"

definition isCliTool :: "string \<Rightarrow> bool" where
  "isCliTool s = List.member CLI_TOOLS s"

definition AGENT_MODEL_ALIASES :: "string list" where
  "AGENT_MODEL_ALIASES = [''fable'', ''opus'', ''sonnet'', ''haiku'']"

definition isAgentModelAlias :: "string \<Rightarrow> bool" where
  "isAgentModelAlias value = List.member AGENT_MODEL_ALIASES value"

definition WORKFLOW_LAUNCHABLE_RUNTIMES :: "string list" where
  "WORKFLOW_LAUNCHABLE_RUNTIMES = [''claude-sdk'', ''claude-interactive'', ''codex-sdk'', ''omp-sdk'', ''pi-sdk'']"

definition isWorkflowLaunchableRuntime :: "string \<Rightarrow> bool" where
  "isWorkflowLaunchableRuntime value = List.member WORKFLOW_LAUNCHABLE_RUNTIMES value"

definition ALL_EFFORT_LEVELS :: "string list" where
  "ALL_EFFORT_LEVELS = [''none'', ''off'', ''minimal'', ''low'', ''medium'', ''high'', ''xhigh'', ''max'']"

section \<open>Kebab-case keys\<close>

definition lower_letter :: "char \<Rightarrow> bool" where
  "lower_letter c \<longleftrightarrow> 97 \<le> code c \<and> code c \<le> 122"

definition alnum_lower :: "char \<Rightarrow> bool" where
  "alnum_lower c \<longleftrightarrow> js_digit c \<or> lower_letter c"

fun split_dash :: "string \<Rightarrow> string list" where
  "split_dash [] = [[]]"
| "split_dash (c # cs) =
     (if c = CHR ''-'' then [] # split_dash cs
      else (case split_dash cs of [] \<Rightarrow> [[c]] | l # ls \<Rightarrow> (c # l) # ls))"

text \<open>\<open>^[a-z0-9]+(?:-[a-z0-9]+)*$\<close>, and \<open>KEBAB_RE\<close>, which asks for a letter first.\<close>

definition kebabCaseId :: "string \<Rightarrow> bool" where
  "kebabCaseId s = list_all (\<lambda>seg. seg \<noteq> [] \<and> list_all alnum_lower seg) (split_dash s)"

definition KEBAB_RE :: "string \<Rightarrow> bool" where
  "KEBAB_RE s \<longleftrightarrow> s \<noteq> [] \<and> lower_letter (hd s) \<and> kebabCaseId s"

text \<open>\<open>replace(/[^a-z0-9]+/g, '-')\<close>: a maximal run of other characters becomes one dash; \<open>open\<close> says
  that the run has already been written.\<close>

fun dash_runs :: "bool \<Rightarrow> string \<Rightarrow> string" where
  "dash_runs opened [] = []"
| "dash_runs opened (c # cs) =
     (if alnum_lower c then c # dash_runs False cs
      else if opened then dash_runs True cs else CHR ''-'' # dash_runs True cs)"

definition deriveAgentKey :: "string \<Rightarrow> string" where
  "deriveAgentKey name =
     rstrip (\<lambda>c. c = CHR ''-'') (dropWhile (\<lambda>c. c = CHR ''-'') (dash_runs False (toLower (trim name))))"

section \<open>The single-writer checks\<close>

text \<open>\<open>text.split(p).join('')\<close> for a non-empty \<open>p\<close>: the occurrences found from left to right go.\<close>

function remove_all :: "string \<Rightarrow> string \<Rightarrow> string" where
  "remove_all p [] = []"
| "remove_all p (c # cs) =
     (case strip_prefix p (c # cs) of
        Some r \<Rightarrow> if p = [] then c # cs else remove_all p r
      | None \<Rightarrow> c # remove_all p cs)"
  by pat_completeness auto
termination
  by (relation "measure (length \<circ> snd)") (auto simp del: strip_prefix.simps dest: strip_prefix_shrinks)

definition SANCTIONED_SUBAGENT_TOOL :: string where
  "SANCTIONED_SUBAGENT_TOOL = ''mcp__cyboflow__cyboflow_request_verification''"

definition SANCTIONED_SUBAGENT_TOOL_BARE :: string where
  "SANCTIONED_SUBAGENT_TOOL_BARE = ''cyboflow_request_verification''"

definition referencesForbiddenWriterTool :: "string \<Rightarrow> bool" where
  "referencesForbiddenWriterTool s =
     contains ''cyboflow_'' (remove_all SANCTIONED_SUBAGENT_TOOL_BARE (remove_all SANCTIONED_SUBAGENT_TOOL s))"

definition MCP_SERVER_RE :: "string \<Rightarrow> bool" where
  "MCP_SERVER_RE s \<longleftrightarrow> s \<noteq> [] \<and> list_all (\<lambda>c. js_word c \<or> c = CHR ''-'') s"

definition isGrantableMcpServer :: "string \<Rightarrow> bool" where
  "isGrantableMcpServer server \<longleftrightarrow>
     MCP_SERVER_RE server \<and> server \<noteq> ''cyboflow'' \<and> \<not> contains ''cyboflow_'' server"

section \<open>Validating a draft\<close>

datatype AgentOverrideErrorCode =
  ForbiddenWriterCall | ForbiddenTool | InvalidMcp | EmptyTools | EmptyDescription | InvalidKey
| InvalidModel | InvalidRuntime | ReservedKey | DuplicateKey | FrontmatterInBody | VersionConflict

record AgentDraft =
  ad_agentKey :: string
  ad_name :: string
  ad_role :: "string option"
  ad_description :: string
  ad_systemPrompt :: string
  ad_tools :: "string list"
  ad_model :: "string option"
  ad_runtime :: "string option"
  ad_enabledMcps :: "string list"
  ad_isCustom :: bool

definition opt_all :: "('a \<Rightarrow> bool) \<Rightarrow> 'a option \<Rightarrow> bool" where
  "opt_all P x = (case x of None \<Rightarrow> True | Some a \<Rightarrow> P a)"

text \<open>The first failing check, in the order of the source; \<open>None\<close> is a draft that passes.\<close>

definition validateAgentDraft :: "AgentDraft \<Rightarrow> AgentOverrideErrorCode option" where
  "validateAgentDraft draft =
     (if \<not> KEBAB_RE (ad_agentKey draft) then Some InvalidKey
      else if trim (ad_description draft) = [] then Some EmptyDescription
      else if referencesForbiddenWriterTool (ad_description draft) \<or>
              referencesForbiddenWriterTool (ad_systemPrompt draft) then Some ForbiddenWriterCall
      else if startsWith (ad_systemPrompt draft) ''---'' then Some FrontmatterInBody
      else if ad_tools draft = [] then Some EmptyTools
      else if \<not> list_all isCliTool (ad_tools draft) then Some ForbiddenTool
      else if \<not> opt_all isAgentModelAlias (ad_model draft) then Some InvalidModel
      else if \<not> opt_all isWorkflowLaunchableRuntime (ad_runtime draft) then Some InvalidRuntime
      else if \<not> list_all (\<lambda>server. MCP_SERVER_RE server \<and>
                 \<not> (server = ''cyboflow'' \<or> contains ''cyboflow_'' server)) (ad_enabledMcps draft)
      then Some InvalidMcp
      else None)"

section \<open>The result section\<close>

text \<open>\<open>/^##\s+Result\b/m\<close>: the multiline anchor holds at the start and after a line break.\<close>

definition result_heading_at :: "string \<Rightarrow> bool" where
  "result_heading_at s =
     (case strip_prefix ''##'' s of
        None \<Rightarrow> False
      | Some r \<Rightarrow> r \<noteq> [] \<and> js_space (hd r) \<and>
          (case strip_prefix ''Result'' (dropWhile js_space r) of None \<Rightarrow> False | Some t \<Rightarrow> word_end t))"

definition RESULT_HEADING_RE :: "string \<Rightarrow> bool" where
  "RESULT_HEADING_RE s \<longleftrightarrow> result_heading_at s \<or> any_line_start result_heading_at s"

definition RESULT_STUB :: string where
  "RESULT_STUB = [CHR 0x0A, CHR 0x0A] @ ''## Result'' @ [CHR 0x0A] @
     ''<!-- Return a concise summary of what you did/found; the orchestrator records this. -->''"

definition ensureResultSection :: "string \<Rightarrow> string" where
  "ensureResultSection systemPrompt =
     (if RESULT_HEADING_RE systemPrompt then systemPrompt else systemPrompt @ RESULT_STUB)"

section \<open>Keys derived from names\<close>

text \<open>Kebab case read from left to right: \<open>prev\<close> says that a letter or digit precedes.\<close>

fun kebab_from :: "bool \<Rightarrow> string \<Rightarrow> bool" where
  "kebab_from prev [] = prev"
| "kebab_from prev (c # cs) =
     (if alnum_lower c then kebab_from True cs else c = CHR ''-'' \<and> prev \<and> kebab_from False cs)"

fun kebab_prefix :: "bool \<Rightarrow> string \<Rightarrow> bool" where
  "kebab_prefix prev [] = True"
| "kebab_prefix prev (c # cs) =
     (if alnum_lower c then kebab_prefix True cs else c = CHR ''-'' \<and> prev \<and> kebab_prefix False cs)"

lemma alnum_not_dash [simp]: "\<not> alnum_lower (CHR ''-'')"
  by code_simp

lemma split_dash_nonempty [simp]: "split_dash s \<noteq> []"
  by (induction s) (auto split: list.splits)

lemma kebab_from_split:
  "kebab_from True s \<longleftrightarrow> list_all alnum_lower (hd (split_dash s)) \<and>
     list_all (\<lambda>seg. seg \<noteq> [] \<and> list_all alnum_lower seg) (tl (split_dash s))"
  "kebab_from False s \<longleftrightarrow> kebabCaseId s"
proof (induction s)
  case Nil
  {
    case 1 then show ?case by simp
  next
    case 2 then show ?case by (simp add: kebabCaseId_def)
  }
next
  case (Cons c cs)
  obtain l ls where split: "split_dash cs = l # ls" by (cases "split_dash cs") auto
  {
    case 1 then show ?case using Cons.IH split by (auto simp: kebabCaseId_def)
  next
    case 2 then show ?case using Cons.IH split by (auto simp: kebabCaseId_def)
  }
qed

lemma rstrip_Cons: "rstrip P (c # cs) = (if rstrip P cs = [] \<and> P c then [] else c # rstrip P cs)"
  by (auto simp: rstrip_def dropWhile_append)

lemma kebab_rstrip:
  "kebab_prefix True s \<Longrightarrow> kebab_from True (rstrip (\<lambda>c. c = CHR ''-'') s)"
  "kebab_prefix False s \<Longrightarrow> rstrip (\<lambda>c. c = CHR ''-'') s \<noteq> [] \<Longrightarrow> kebab_from False (rstrip (\<lambda>c. c = CHR ''-'') s)"
proof (induction s)
  case Nil
  {
    case 1 then show ?case by (simp add: rstrip_def)
  next
    case 2 then show ?case by (simp add: rstrip_def)
  }
next
  case (Cons c cs)
  {
    case 1 then show ?case using Cons.IH by (auto simp: rstrip_Cons split: if_splits)
  next
    case 2 then show ?case using Cons.IH by (auto simp: rstrip_Cons split: if_splits)
  }
qed

lemma dash_runs_kebab:
  "kebab_prefix True (dash_runs False s)" "kebab_prefix False (dash_runs True s)"
  by (induction s) auto

lemma kebab_prefix_head: "kebab_prefix False t \<Longrightarrow> dropWhile (\<lambda>c. c = CHR ''-'') t = t"
  by (cases t) (simp, auto simp: dropWhile_eq_self_iff simp del: dropWhile.simps split: if_splits)

lemma dash_runs_dropWhile: "kebab_prefix False (dropWhile (\<lambda>c. c = CHR ''-'') (dash_runs False s))"
proof (cases s)
  case (Cons c cs)
  show ?thesis
  proof (cases "alnum_lower c")
    case True
    then have "c \<noteq> CHR ''-''" by auto
    with Cons True dash_runs_kebab(1) show ?thesis by simp
  next
    case False
    with Cons show ?thesis by (simp add: kebab_prefix_head dash_runs_kebab(2))
  qed
qed simp

lemma deriveAgentKey_kebab: "deriveAgentKey name = [] \<or> kebabCaseId (deriveAgentKey name)"
  using kebab_rstrip(2) [OF dash_runs_dropWhile]
  by (auto simp: deriveAgentKey_def kebab_from_split(2))

text \<open>A key in kebab case is left alone.\<close>

lemma dash_runs_id:
  "kebab_from True s \<Longrightarrow> dash_runs False s = s" "kebab_from False s \<Longrightarrow> dash_runs b s = s"
  by (induction s arbitrary: b) (auto split: if_splits)

lemma kebab_from_chars: "kebab_from b s \<Longrightarrow> c \<in> set s \<Longrightarrow> alnum_lower c \<or> c = CHR ''-''"
  by (induction s arbitrary: b) (auto split: if_splits)

lemma alnum_char_facts: "alnum_lower c \<or> c = CHR ''-'' \<Longrightarrow> lower_char c = c \<and> \<not> js_space c"
  by (auto simp: alnum_lower_def lower_letter_def js_digit_def lower_char_def js_space_def code_def)

lemma kebab_from_last: "kebab_from b s \<Longrightarrow> s \<noteq> [] \<Longrightarrow> alnum_lower (last s)"
  by (induction s arbitrary: b) (auto split: if_splits)

lemma rstrip_id: "s \<noteq> [] \<Longrightarrow> \<not> P (last s) \<Longrightarrow> rstrip P s = s"
  by (cases s rule: rev_cases) (auto simp: rstrip_def)

lemma trim_id:
  assumes "\<And>c. c \<in> set s \<Longrightarrow> \<not> js_space c"
  shows "trim s = s"
proof (cases "s = []")
  case False
  then have "last s \<in> set s" "hd s \<in> set s" by simp_all
  with assms have "dropWhile js_space s = s" "\<not> js_space (last s)"
    by (simp_all add: dropWhile_eq_self_iff)
  with False show ?thesis by (simp add: trim_def rstrip_id)
qed (simp add: trim_def rstrip_def)

lemma deriveAgentKey_id:
  assumes "kebabCaseId k"
  shows "deriveAgentKey k = k"
proof -
  from assms have k: "kebab_from False k" by (simp add: kebab_from_split(2))
  then have ne: "k \<noteq> []" by auto
  have chars: "lower_char c = c \<and> \<not> js_space c" if "c \<in> set k" for c
    using alnum_char_facts kebab_from_chars [OF k that] by blast
  then have "toLower (trim k) = k" by (simp add: trim_id toLower_def map_idI)
  moreover have "dropWhile (\<lambda>c. c = CHR ''-'') k = k"
    using k by (cases k) (simp, auto simp: dropWhile_eq_self_iff simp del: dropWhile.simps split: if_splits)
  moreover have "rstrip (\<lambda>c. c = CHR ''-'') k = k"
    using kebab_from_last [OF k ne] ne by (intro rstrip_id) auto
  ultimately show ?thesis by (simp add: deriveAgentKey_def dash_runs_id(2) [OF k])
qed

lemma draft_facts:
  "validateAgentDraft d = None \<Longrightarrow>
     ad_tools d \<noteq> [] \<and> set (ad_tools d) \<subseteq> set CLI_TOOLS \<and>
     list_all isGrantableMcpServer (ad_enabledMcps d) \<and> kebabCaseId (ad_agentKey d) \<and>
     \<not> referencesForbiddenWriterTool (ad_description d) \<and> \<not> referencesForbiddenWriterTool (ad_systemPrompt d)"
  by (auto simp: validateAgentDraft_def isCliTool_def list_all_iff isGrantableMcpServer_def KEBAB_RE_def
        split: if_splits)

section \<open>Properties\<close>

text \<open>the key derived from any display name is empty or in kebab case, and deriving a key from a
  key gives it back, so the key a proposal checks is the key the confirmation mints.\<close>

theorem derived_key_stable:
  "(deriveAgentKey name = [] \<or> kebabCaseId (deriveAgentKey name)) \<and>
   deriveAgentKey (deriveAgentKey name) = deriveAgentKey name"
proof -
  have "deriveAgentKey [] = []" by code_simp
  then show ?thesis using deriveAgentKey_kebab [of name] deriveAgentKey_id by metis
qed

text \<open>the single-writer rule at the draft chokepoint: an accepted draft enables known tools only,
  at least one, grants no MCP server that the grant filter refuses, and its key survives the
  derivation.\<close>

theorem accepted_draft_single_writer:
  assumes "validateAgentDraft d = None"
  shows "ad_tools d \<noteq> [] \<and> set (ad_tools d) \<subseteq> set CLI_TOOLS \<and>
         filter isGrantableMcpServer (ad_enabledMcps d) = ad_enabledMcps d \<and>
         deriveAgentKey (ad_agentKey d) = ad_agentKey d \<and>
         \<not> referencesForbiddenWriterTool (ad_description d) \<and> \<not> referencesForbiddenWriterTool (ad_systemPrompt d)"
  using draft_facts [OF assms] by (simp add: deriveAgentKey_id filter_id_conv list_all_iff)

definition sample_draft :: AgentDraft where
  "sample_draft = \<lparr>ad_agentKey = ''code-review'', ad_name = ''cyboflow-code-review'', ad_role = None,
     ad_description = ''Reviews the diff'', ad_systemPrompt = ''Call cyboflow_request_verification once.'',
     ad_tools = [''Read'', ''Grep''], ad_model = Some ''opus'', ad_runtime = None,
     ad_enabledMcps = [''github''], ad_isCustom = False\<rparr>"

theorem accepted_draft_single_writer_witness:
  "filter isGrantableMcpServer (ad_enabledMcps sample_draft) = ad_enabledMcps sample_draft \<and>
   \<not> referencesForbiddenWriterTool (ad_systemPrompt sample_draft)"
proof -
  have "validateAgentDraft sample_draft = None" by code_simp
  from accepted_draft_single_writer [OF this] show ?thesis by blast
qed

lemma any_line_start_append: "any_line_start P t \<Longrightarrow> any_line_start P (s @ t)"
  by (induction s) auto

text \<open>after \<open>ensureResultSection\<close> every prompt has a result section, the author's text is kept as a
  prefix, and a second pass changes nothing.\<close>

theorem ensure_result_section_stable:
  "RESULT_HEADING_RE (ensureResultSection p) \<and> startsWith (ensureResultSection p) p \<and>
   ensureResultSection (ensureResultSection p) = ensureResultSection p"
proof -
  have "any_line_start result_heading_at RESULT_STUB" by code_simp
  from any_line_start_append [OF this, of p] have "RESULT_HEADING_RE (ensureResultSection p)"
    by (simp add: ensureResultSection_def RESULT_HEADING_RE_def)
  moreover have "startsWith (ensureResultSection p) p"
    by (auto simp: ensureResultSection_def startsWith_iff)
  ultimately show ?thesis by (simp add: ensureResultSection_def [of "ensureResultSection p"])
qed

end
