(* ===== verification/WorkflowDef.thy ===== *)
theory WorkflowDef
  imports AgentDraft
begin

text \<open>
  Workflow definitions (shared/types/workflows.ts) and the write-path validator
  (main/src/orchestrator/workflowDefinitionSchema.ts).

  The validator's input is a value of the declared TypeScript shape, so zod's type checks hold and
  its value checks remain: what \<open>workflowDefinitionSchema.parse\<close> accepts, and the value it returns,
  which keeps the declared keys only (a zod object drops keys its schema does not list). The enum
  checks of the declared literal types (artifact types, tools, models, runtimes, efforts) are part of
  the type and are not repeated; the agent-draft check is the one of AgentDraft.
\<close>

section \<open>Definitions\<close>

record FanOutInnerStep =
  fi_id :: string
  fi_agent :: string
  fi_optional :: "bool option"
  fi_loopback :: "string option"
  fi_name :: "string option"
  fi_firmGate :: "bool option"

record FanOutSpec =
  fo_over :: string
  fo_inner :: "FanOutInnerStep list"
  fo_maxConcurrency :: "int option"

record WorkflowStep =
  st_id :: string
  st_name :: string
  st_agent :: string
  st_mcps :: "string list"
  st_retries :: int
  st_optional :: "bool option"
  st_human :: "bool option"
  st_gateHeader :: "string option"
  st_loopback :: "string option"
  st_desc :: "string option"
  st_fanOut :: "FanOutSpec option"
  st_outputArtifact :: "(string \<times> string) option"
  st_consumesPriorStepOutput :: "bool option"
  st_consumesBlockingReviewItems :: "bool option"

record WorkflowPhase =
  ph_id :: string
  ph_label :: string
  ph_color :: string
  ph_steps :: "WorkflowStep list"

record WorkflowAgentCustomCopy =
  cc_description :: string
  cc_systemPrompt :: string
  cc_tools :: "string list"
  cc_enabledMcps :: "string list"

record WorkflowAgentConfig =
  ac_model :: "string option"
  ac_custom :: "WorkflowAgentCustomCopy option"
  ac_runtime :: "string option"
  ac_providerModel :: "string option"
  ac_codexModel :: "string option"
  ac_effort :: "string option"
  ac_promptAddendum :: "string option"

record WorkflowDefinition =
  wd_id :: string
  wd_phases :: "WorkflowPhase list"
  wd_agentConfigs :: "(string \<times> WorkflowAgentConfig) list option"

definition HUMAN_GATE_AGENT :: string where
  "HUMAN_GATE_AGENT = ''human''"

definition SPRINT_BATCH_CAP :: int where
  "SPRINT_BATCH_CAP = 5"

definition effectiveMaxConcurrency :: "FanOutSpec \<Rightarrow> int" where
  "effectiveMaxConcurrency fo =
     (case fo_maxConcurrency fo of None \<Rightarrow> SPRINT_BATCH_CAP | Some raw \<Rightarrow> max 1 raw)"

section \<open>Value checks\<close>

definition hex_digit :: "char \<Rightarrow> bool" where
  "hex_digit c \<longleftrightarrow> js_digit c \<or> (97 \<le> code c \<and> code c \<le> 102) \<or> (65 \<le> code c \<and> code c \<le> 70)"

definition hexColor :: "string \<Rightarrow> bool" where
  "hexColor s = (case s of c # cs \<Rightarrow> c = CHR ''#'' \<and> length cs = 6 \<and> list_all hex_digit cs | [] \<Rightarrow> False)"

definition nonempty :: "'a list \<Rightarrow> bool" where
  "nonempty xs \<longleftrightarrow> xs \<noteq> []"

definition fanOutInnerStepSchema :: "FanOutInnerStep \<Rightarrow> bool" where
  "fanOutInnerStepSchema s \<longleftrightarrow> kebabCaseId (fi_id s) \<and> nonempty (fi_agent s)"

definition fanOutSchema :: "FanOutSpec \<Rightarrow> bool" where
  "fanOutSchema f \<longleftrightarrow> nonempty (fo_over f) \<and> nonempty (fo_inner f) \<and>
     list_all fanOutInnerStepSchema (fo_inner f) \<and> opt_all (\<lambda>n. n \<ge> 1) (fo_maxConcurrency f)"

definition workflowStepSchema :: "WorkflowStep \<Rightarrow> bool" where
  "workflowStepSchema s \<longleftrightarrow> kebabCaseId (st_id s) \<and> nonempty (st_name s) \<and> nonempty (st_agent s) \<and>
     st_retries s \<ge> 0 \<and> opt_all nonempty (st_gateHeader s) \<and> opt_all fanOutSchema (st_fanOut s) \<and>
     opt_all (\<lambda>(atype, label). nonempty label) (st_outputArtifact s)"

definition workflowPhaseSchema :: "WorkflowPhase \<Rightarrow> bool" where
  "workflowPhaseSchema p \<longleftrightarrow> kebabCaseId (ph_id p) \<and> nonempty (ph_label p) \<and> hexColor (ph_color p) \<and>
     nonempty (ph_steps p) \<and> list_all workflowStepSchema (ph_steps p)"

definition workflowAgentConfigSchema :: "WorkflowAgentConfig \<Rightarrow> bool" where
  "workflowAgentConfigSchema c \<longleftrightarrow>
     opt_all (\<lambda>copy. nonempty (cc_systemPrompt copy)) (ac_custom c) \<and> opt_all nonempty (ac_providerModel c) \<and>
     opt_all nonempty (ac_codexModel c) \<and> opt_all nonempty (ac_promptAddendum c) \<and>
     \<not> (ac_model c = None \<and> ac_custom c = None \<and> ac_runtime c = None \<and>
        ac_providerModel c = None \<and> ac_codexModel c = None \<and> ac_effort c = None \<and>
        ac_promptAddendum c = None)"

section \<open>Cross-cutting invariants (\<open>superRefine\<close>)\<close>

text \<open>The loops of \<open>superRefine\<close>: a \<open>Set\<close> of the ids seen so far, and an issue per repeated one.\<close>

fun no_repeat :: "string set \<Rightarrow> string list \<Rightarrow> bool" where
  "no_repeat seen [] = True"
| "no_repeat seen (x # xs) = (x \<notin> seen \<and> no_repeat (insert x seen) xs)"

definition inner_refine :: "FanOutSpec \<Rightarrow> bool" where
  "inner_refine f \<longleftrightarrow> no_repeat {} (map fi_id (fo_inner f)) \<and>
     list_all (\<lambda>inner. opt_all (\<lambda>l. List.member (map fi_id (fo_inner f)) l) (fi_loopback inner)) (fo_inner f)"

definition phase_refine :: "WorkflowPhase \<Rightarrow> bool" where
  "phase_refine p \<longleftrightarrow> no_repeat {} (map st_id (ph_steps p)) \<and>
     list_all (\<lambda>s. opt_all inner_refine (st_fanOut s)) (ph_steps p) \<and>
     list_all (\<lambda>s. opt_all (\<lambda>l. List.member (map st_id (ph_steps p)) l) (st_loopback s)) (ph_steps p)"

definition custom_draft :: "string \<Rightarrow> WorkflowAgentConfig \<Rightarrow> WorkflowAgentCustomCopy \<Rightarrow> AgentDraft" where
  "custom_draft agentKey config copy =
     \<lparr>ad_agentKey = agentKey, ad_name = ''cyboflow-'' @ agentKey, ad_role = None,
      ad_description = cc_description copy, ad_systemPrompt = cc_systemPrompt copy,
      ad_tools = cc_tools copy, ad_model = ac_model config, ad_runtime = None,
      ad_enabledMcps = cc_enabledMcps copy, ad_isCustom = False\<rparr>"

definition config_refine :: "string \<times> WorkflowAgentConfig \<Rightarrow> bool" where
  "config_refine entry =
     (case entry of (agentKey, config) \<Rightarrow>
        opt_all (\<lambda>copy. validateAgentDraft (custom_draft agentKey config copy) = None) (ac_custom config))"

definition definition_refine :: "WorkflowDefinition \<Rightarrow> bool" where
  "definition_refine d \<longleftrightarrow> no_repeat {} (map ph_id (wd_phases d)) \<and>
     list_all phase_refine (wd_phases d) \<and>
     opt_all (list_all config_refine) (wd_agentConfigs d)"

section \<open>Parsing\<close>

text \<open>The value \<open>parse\<close> returns: \<open>workflowStepSchema\<close> does not list \<open>consumesPriorStepOutput\<close>.\<close>

definition strip_step :: "WorkflowStep \<Rightarrow> WorkflowStep" where
  "strip_step s = s\<lparr>st_consumesPriorStepOutput := None\<rparr>"

definition strip_phase :: "WorkflowPhase \<Rightarrow> WorkflowPhase" where
  "strip_phase p = p\<lparr>ph_steps := map strip_step (ph_steps p)\<rparr>"

definition strip_definition :: "WorkflowDefinition \<Rightarrow> WorkflowDefinition" where
  "strip_definition d = d\<lparr>wd_phases := map strip_phase (wd_phases d)\<rparr>"

datatype zod_error = ZodError

definition definition_shape_ok :: "WorkflowDefinition \<Rightarrow> bool" where
  "definition_shape_ok d \<longleftrightarrow> nonempty (wd_id d) \<and> nonempty (wd_phases d) \<and>
     list_all workflowPhaseSchema (wd_phases d) \<and>
     opt_all (list_all (\<lambda>(key, c). nonempty key \<and> workflowAgentConfigSchema c)) (wd_agentConfigs d)"

definition validateWorkflowDefinition :: "WorkflowDefinition \<Rightarrow> zod_error + WorkflowDefinition" where
  "validateWorkflowDefinition d =
     (if definition_shape_ok d \<and> definition_refine d then Inr (strip_definition d) else Inl ZodError)"

section \<open>What an accepted definition satisfies\<close>

text \<open>The facts the runner relies on about a phase: distinct step ids, loopbacks that resolve inside
  the phase, and non-negative retry counts.\<close>

definition wf_phase :: "WorkflowPhase \<Rightarrow> bool" where
  "wf_phase p \<longleftrightarrow> ph_steps p \<noteq> [] \<and> distinct (map st_id (ph_steps p)) \<and>
     (\<forall>s \<in> set (ph_steps p). 0 \<le> st_retries s \<and>
        (\<forall>l. st_loopback s = Some l \<longrightarrow> (\<exists>t \<in> set (ph_steps p). st_id t = l)))"

lemma no_repeat_iff: "no_repeat seen xs \<longleftrightarrow> distinct xs \<and> set xs \<inter> seen = {}"
  by (induction xs arbitrary: seen) auto

lemma strip_step_simps [simp]:
  "st_id (strip_step s) = st_id s" "st_retries (strip_step s) = st_retries s"
  "st_loopback (strip_step s) = st_loopback s" "st_name (strip_step s) = st_name s"
  "st_agent (strip_step s) = st_agent s" "st_gateHeader (strip_step s) = st_gateHeader s"
  "st_fanOut (strip_step s) = st_fanOut s" "st_outputArtifact (strip_step s) = st_outputArtifact s"
  by (simp_all add: strip_step_def)

lemma strip_step_idem: "strip_step \<circ> strip_step = strip_step"
  by (rule ext) (simp add: strip_step_def)

lemma strip_definition_idem [simp]: "strip_definition (strip_definition d) = strip_definition d"
proof -
  have "strip_phase \<circ> strip_phase = strip_phase"
    by (rule ext) (simp add: strip_phase_def strip_step_idem)
  then show ?thesis by (simp add: strip_definition_def)
qed

lemma schema_strip [simp]:
  "workflowStepSchema (strip_step s) = workflowStepSchema s"
  "workflowPhaseSchema (strip_phase p) = workflowPhaseSchema p"
  by (simp_all add: workflowStepSchema_def workflowPhaseSchema_def strip_phase_def nonempty_def
        list_all_length)

lemma refine_strip [simp]: "phase_refine (strip_phase p) = phase_refine p"
  by (simp add: phase_refine_def strip_phase_def list_all_length comp_def)

lemma validate_strip:
  "definition_shape_ok (strip_definition d) = definition_shape_ok d"
  "definition_refine (strip_definition d) = definition_refine d"
  by (simp_all add: definition_shape_ok_def definition_refine_def strip_definition_def nonempty_def
        list_all_length comp_def strip_phase_def [THEN arg_cong [where f = ph_id]])

lemma opt_all_Some: "opt_all P x \<Longrightarrow> x = Some a \<Longrightarrow> P a"
  by (simp add: opt_all_def)

lemma phase_refine_wf:
  assumes "workflowPhaseSchema p" and "phase_refine p"
  shows "wf_phase p"
  unfolding wf_phase_def
proof (intro conjI ballI allI impI)
  show "ph_steps p \<noteq> []" using assms(1) by (simp add: workflowPhaseSchema_def nonempty_def)
  show "distinct (map st_id (ph_steps p))" using assms(2) by (simp add: phase_refine_def no_repeat_iff)
  fix s assume s: "s \<in> set (ph_steps p)"
  show "0 \<le> st_retries s"
    using s assms(1) by (simp add: workflowPhaseSchema_def workflowStepSchema_def list_all_iff)
  fix l assume "st_loopback s = Some l"
  with s assms(2) have "l \<in> st_id ` set (ph_steps p)"
    by (auto simp: phase_refine_def list_all_iff dest!: opt_all_Some)
  then show "\<exists>t \<in> set (ph_steps p). st_id t = l" by auto
qed

section \<open>A sample definition\<close>

definition sample_step :: "string \<Rightarrow> WorkflowStep" where
  "sample_step i = \<lparr>st_id = i, st_name = ''Step'', st_agent = ''executor'', st_mcps = [], st_retries = 1,
     st_optional = None, st_human = None, st_gateHeader = None, st_loopback = None, st_desc = None,
     st_fanOut = None, st_outputArtifact = None, st_consumesPriorStepOutput = None,
     st_consumesBlockingReviewItems = None\<rparr>"

definition sample_compound :: WorkflowDefinition where
  "sample_compound = \<lparr>wd_id = ''compound'',
     wd_phases = [\<lparr>ph_id = ''compound'', ph_label = ''Compound'', ph_color = ''#0ea5e9'',
       ph_steps = [sample_step ''load-findings'',
         (sample_step ''write-docs'')\<lparr>st_loopback := Some ''load-findings'',
            st_consumesPriorStepOutput := Some True\<rparr>]\<rparr>],
     wd_agentConfigs = None\<rparr>"

lemma sample_compound_valid:
  "validateWorkflowDefinition sample_compound = Inr (strip_definition sample_compound)"
  by code_simp

section \<open>Properties of the validator\<close>

text \<open>C40: every phase of a definition the validator returns has distinct step ids, resolvable
  intra-phase loopbacks and non-negative retries, which is what the runner relies on.\<close>

theorem validated_phases_wf:
  assumes "validateWorkflowDefinition d = Inr d'"
  shows "\<forall>p \<in> set (wd_phases d'). wf_phase p"
proof -
  from assms have d': "d' = strip_definition d" and ok: "definition_shape_ok d" "definition_refine d"
    by (auto simp: validateWorkflowDefinition_def split: if_splits)
  have "wf_phase (strip_phase p)" if "p \<in> set (wd_phases d)" for p
    using that ok
    by (intro phase_refine_wf) (auto simp: definition_shape_ok_def definition_refine_def list_all_iff)
  then show ?thesis by (auto simp: d' strip_definition_def)
qed

theorem validated_phases_wf_witness:
  "wd_phases (strip_definition sample_compound) \<noteq> [] \<and>
   list_all wf_phase (wd_phases (strip_definition sample_compound))"
  using validated_phases_wf [OF sample_compound_valid]
  by (auto simp: list_all_iff sample_compound_def strip_definition_def)

text \<open>re-validating a returned definition accepts it and returns it unchanged, so a definition
  that went through the write path once is stable under every later save.\<close>

theorem validate_idempotent:
  assumes "validateWorkflowDefinition d = Inr d'"
  shows "validateWorkflowDefinition d' = Inr d'"
  using assms by (auto simp: validateWorkflowDefinition_def validate_strip split: if_splits)

theorem validate_idempotent_witness:
  "validateWorkflowDefinition (strip_definition sample_compound) = Inr (strip_definition sample_compound)"
  by (rule validate_idempotent [OF sample_compound_valid])

text \<open>the write path loses \<open>consumesPriorStepOutput\<close>: whatever the input declares, no step of
  the returned definition declares it, while every other field of the definition is kept.\<close>

theorem validate_drops_prior_output_flag:
  assumes "validateWorkflowDefinition d = Inr d'"
  shows "(\<forall>p \<in> set (wd_phases d'). \<forall>s \<in> set (ph_steps p). st_consumesPriorStepOutput s = None) \<and>
         (validateWorkflowDefinition d = Inr d \<longleftrightarrow>
            (\<forall>p \<in> set (wd_phases d). \<forall>s \<in> set (ph_steps p). st_consumesPriorStepOutput s = None))"
proof
  from assms have d': "d' = strip_definition d"
    by (auto simp: validateWorkflowDefinition_def split: if_splits)
  show flags: "\<forall>p \<in> set (wd_phases d'). \<forall>s \<in> set (ph_steps p). st_consumesPriorStepOutput s = None"
    by (auto simp: d' strip_definition_def strip_phase_def strip_step_def)
  have "strip_definition d = d"
    if "\<forall>p \<in> set (wd_phases d). \<forall>s \<in> set (ph_steps p). st_consumesPriorStepOutput s = None"
  proof -
    have "map strip_step (ph_steps p) = ph_steps p" if "p \<in> set (wd_phases d)" for p
      using \<open>\<forall>p \<in> set (wd_phases d). _ p\<close> that by (intro map_idI) (simp add: strip_step_def)
    then have "map strip_phase (wd_phases d) = wd_phases d"
      by (intro map_idI) (simp add: strip_phase_def)
    then show ?thesis by (simp add: strip_definition_def)
  qed
  with assms d' flags show "validateWorkflowDefinition d = Inr d \<longleftrightarrow>
      (\<forall>p \<in> set (wd_phases d). \<forall>s \<in> set (ph_steps p). st_consumesPriorStepOutput s = None)"
    by auto
qed

theorem validate_drops_prior_output_flag_witness:
  "validateWorkflowDefinition sample_compound \<noteq> Inr sample_compound"
  using validate_drops_prior_output_flag [OF sample_compound_valid]
  by (simp add: sample_compound_def)

text \<open>a definition the validator returns embeds no agent that the grant filter would have to
  trim: every workflow-scoped custom copy has a non-empty prompt, known tools and only grantable MCP
  servers.\<close>

theorem validated_custom_agents_single_writer:
  assumes "validateWorkflowDefinition d = Inr d'" and "wd_agentConfigs d' = Some configs"
    and "(key, config) \<in> set configs" and "ac_custom config = Some copy"
  shows "cc_systemPrompt copy \<noteq> [] \<and> set (cc_tools copy) \<subseteq> set CLI_TOOLS \<and>
         list_all isGrantableMcpServer (cc_enabledMcps copy) \<and>
         \<not> referencesForbiddenWriterTool (cc_systemPrompt copy)"
proof -
  have ok: "definition_shape_ok d" "definition_refine d" and "wd_agentConfigs d = Some configs"
    using assms(1,2) by (auto simp: validateWorkflowDefinition_def strip_definition_def split: if_splits)
  then have "validateAgentDraft (custom_draft key config copy) = None" "cc_systemPrompt copy \<noteq> []"
    using assms(3,4)
    by (auto simp: definition_refine_def definition_shape_ok_def workflowAgentConfigSchema_def list_all_iff
          nonempty_def config_refine_def opt_all_def)
  then show ?thesis by (auto simp: custom_draft_def dest!: draft_facts)
qed

definition sample_custom :: WorkflowDefinition where
  "sample_custom = sample_compound\<lparr>wd_agentConfigs := Some [(''executor'',
     \<lparr>ac_model = Some ''opus'', ac_custom = Some \<lparr>cc_description = ''Implements'',
        cc_systemPrompt = ''Implement the task.'', cc_tools = [''Read'', ''Edit''], cc_enabledMcps = [''github'']\<rparr>,
      ac_runtime = None, ac_providerModel = None, ac_codexModel = None, ac_effort = None,
      ac_promptAddendum = None\<rparr>)]\<rparr>"

theorem validated_custom_agents_single_writer_witness:
  "list_all isGrantableMcpServer [''github'']"
proof -
  have "validateWorkflowDefinition sample_custom = Inr (strip_definition sample_custom)" by code_simp
  from validated_custom_agents_single_writer [OF this, of _ "''executor''"]
  show ?thesis by (fastforce simp: sample_custom_def strip_definition_def)
qed

end
