(* ===== verification/ReviewDoc.thy ===== *)
theory ReviewDoc
  imports JsString
begin

text \<open>
  The machine-readable half of review results: the verdict lines and the \<open>## Blocking\<close> section of a
  step's captured text (main/src/orchestrator/programmatic/workflowController.ts) and the lenient
  parser of the adversarial-review document (shared/types/adversarialReview.ts). Each regular
  expression is written out as a function that consumes the text from its head.
\<close>

section \<open>Verdict lines\<close>

datatype task_verdict = VPass | VFail
datatype review_verdict = RBlocking | RClean

text \<open>\<open>^KEY:\s*(A|B)\b\<close> on one line, case-sensitive.\<close>

definition match_verdict :: "string \<Rightarrow> string \<Rightarrow> 'v \<Rightarrow> string \<Rightarrow> 'v \<Rightarrow> string \<Rightarrow> 'v option" where
  "match_verdict key a va b vb line =
     (case strip_prefix key line of
        None \<Rightarrow> None
      | Some r \<Rightarrow>
          let r' = dropWhile js_space r
          in (case strip_prefix a r' of
                Some t \<Rightarrow> if word_end t then Some va else None
              | None \<Rightarrow>
                  (case strip_prefix b r' of
                     Some t \<Rightarrow> if word_end t then Some vb else None
                   | None \<Rightarrow> None)))"

definition last_match :: "(string \<Rightarrow> 'v option) \<Rightarrow> string list \<Rightarrow> 'v option" where
  "last_match f ls = foldl (\<lambda>acc l. case f l of Some v \<Rightarrow> Some v | None \<Rightarrow> acc) None ls"

definition parseTaskVerifyVerdict :: "string \<Rightarrow> task_verdict option" where
  "parseTaskVerifyVerdict text =
     last_match (match_verdict ''VERDICT:'' ''PASS'' VPass ''FAIL'' VFail) (lines_of text)"

definition parseCodeReviewVerdict :: "string \<Rightarrow> review_verdict option" where
  "parseCodeReviewVerdict text =
     last_match (match_verdict ''REVIEW:'' ''BLOCKING'' RBlocking ''CLEAN'' RClean) (lines_of text)"

section \<open>The Blocking section\<close>

text \<open>\<open>^##\s+Blocking\b\<close> with the \<open>i\<close> flag.\<close>

definition is_blocking_heading :: "string \<Rightarrow> bool" where
  "is_blocking_heading line =
     (case strip_prefix ''##'' line of
        Some (c # cs) \<Rightarrow> js_space c \<and>
          (case strip_prefix_ci ''Blocking'' (dropWhile js_space cs) of
             Some t \<Rightarrow> word_end t | None \<Rightarrow> False)
      | _ \<Rightarrow> False)"

text \<open>\<open>^##\s+\<close>.\<close>

definition is_h2 :: "string \<Rightarrow> bool" where
  "is_h2 line = (case strip_prefix ''##'' line of Some (c # _) \<Rightarrow> js_space c | _ \<Rightarrow> False)"

definition is_review_trailer :: "string \<Rightarrow> bool" where
  "is_review_trailer line \<longleftrightarrow> match_verdict ''REVIEW:'' ''BLOCKING'' () ''CLEAN'' () line \<noteq> None"

definition section_body :: "string list \<Rightarrow> string list" where
  "section_body ls = takeWhile (\<lambda>l. \<not> is_h2 l \<and> \<not> is_review_trailer l) ls"

definition extractBlockingSection :: "string \<Rightarrow> string option" where
  "extractBlockingSection text =
     (let ls = lines_of text
      in case find_index is_blocking_heading ls of
           None \<Rightarrow> None
         | Some start \<Rightarrow>
             let joined = trim (join_nl (section_body (drop (Suc start) ls)))
             in if joined \<noteq> [] then Some joined else None)"

text \<open>\<open>^####\s+AR-\d+\<close> at one position.\<close>

definition ar_heading_at :: "string \<Rightarrow> bool" where
  "ar_heading_at s =
     (case strip_prefix ''####'' s of
        Some (c # cs) \<Rightarrow> js_space c \<and>
          (case strip_prefix ''AR-'' (dropWhile js_space cs) of
             Some (d # _) \<Rightarrow> js_digit d | _ \<Rightarrow> False)
      | _ \<Rightarrow> False)"

definition blockingSectionHasEntries :: "string \<Rightarrow> bool" where
  "blockingSectionHasEntries text =
     (case extractBlockingSection text of
        None \<Rightarrow> False
      | Some body \<Rightarrow>
          if ar_heading_at body \<or> any_line_start ar_heading_at body then True
          else \<not> List.member [''none'', ''none.''] (toLower (trim body)))"

section \<open>The adversarial-review document\<close>

datatype AdversarialSeverity = Blocker | Major | Minor | Advisory

definition ADVERSARIAL_SEVERITIES :: "(string \<times> AdversarialSeverity) list" where
  "ADVERSARIAL_SEVERITIES =
     [(''blocker'', Blocker), (''major'', Major), (''minor'', Minor), (''advisory'', Advisory)]"

record AdversarialFinding =
  af_id :: string
  af_title :: string
  af_severity :: AdversarialSeverity
  af_area :: "string option"
  af_what :: "string option"
  af_why :: "string option"
  af_fix :: "string option"

datatype PriorEntryStatus = PsResolved | PsUnresolved | PsRegression | PsSetAside | PsWithdrawn

record PriorEntry =
  pe_id :: string
  pe_previousSeverity :: "AdversarialSeverity option"
  pe_status :: PriorEntryStatus
  pe_ref :: "string option"
  pe_note :: "string option"

record ParsedAdversarialReview =
  pr_blocking :: "AdversarialFinding list"
  pr_findings :: "AdversarialFinding list"
  pr_prior :: "PriorEntry list"

datatype SectionKey = SecBlocking | SecFindings | SecPrior
datatype EntryBucket = BkBlocking | BkFindings

definition classifySection :: "string \<Rightarrow> SectionKey option" where
  "classifySection heading =
     (let h = toLower (trim heading)
      in if startsWith h ''blocking'' then Some SecBlocking
         else if startsWith h ''finding'' then Some SecFindings
         else if startsWith h ''prior entr'' then Some SecPrior
         else None)"

definition severity_hit :: "string \<Rightarrow> AdversarialSeverity option" where
  "severity_hit v = map_option snd (find (\<lambda>(name, _). startsWith v name) ADVERSARIAL_SEVERITIES)"

definition normalizeSeverity :: "string option \<Rightarrow> AdversarialSeverity \<Rightarrow> AdversarialSeverity" where
  "normalizeSeverity raw fallback =
     (let v = toLower (trim (case raw of Some r \<Rightarrow> r | None \<Rightarrow> []))
      in case severity_hit v of Some s \<Rightarrow> s | None \<Rightarrow> fallback)"

definition normalizeAdversarialId :: "string \<Rightarrow> string" where
  "normalizeAdversarialId raw =
     (let ds = takeWhile js_digit (dropWhile (\<lambda>c. \<not> js_digit c) raw)
      in if ds \<noteq> [] then ''AR-'' @ ds else toUpper (trim raw))"

definition cleanField :: "string \<Rightarrow> string option" where
  "cleanField value =
     (let v = rstrip (\<lambda>c. js_space c \<or> c \<in> {CHR ''.'', CHR '';'', CHR '',''}) (trim (collapse_ws value))
      in if v \<noteq> [] then Some v else None)"

text \<open>\<open>SECTION_HEADING_RE\<close>: two or three hashes, blanks, then the heading text; a line of hashes and
  at least two blanks gives back one blank as the heading.\<close>

definition match_section_heading :: "string \<Rightarrow> string option" where
  "match_section_heading line =
     (let s = dropWhile js_blank line;
          hs = takeWhile (\<lambda>c. c = CHR ''#'') s;
          r = dropWhile (\<lambda>c. c = CHR ''#'') s;
          bs = takeWhile js_blank r;
          rest = dropWhile js_blank r
      in if (length hs = 2 \<or> length hs = 3) \<and> bs \<noteq> []
         then (if rest = [] then (if length bs \<ge> 2 then Some [last bs] else None)
               else if CHR 0x0D \<in> set rest then None
               else Some (rstrip js_blank rest))
         else None)"

text \<open>\<open>ENTRY_HEADING_RE\<close>: the label and the rest of the line after an optional dash.\<close>

definition skip_dash :: "string \<Rightarrow> string" where
  "skip_dash s = (case strip_dash s of Some r \<Rightarrow> dropWhile js_blank r | None \<Rightarrow> s)"

definition match_entry_heading :: "string \<Rightarrow> (string \<times> string) option" where
  "match_entry_heading line =
     (let s = dropWhile js_blank line;
          hs = takeWhile (\<lambda>c. c = CHR ''#'') s;
          r = dropWhile (\<lambda>c. c = CHR ''#'') s
      in if 4 \<le> length hs \<and> length hs \<le> 6 \<and> takeWhile js_blank r \<noteq> []
         then (case match_ar (dropWhile js_blank r) of
                 None \<Rightarrow> None
               | Some (label, t) \<Rightarrow>
                   if CHR 0x0D \<in> set t then None
                   else Some (label, skip_dash (dropWhile js_blank t)))
         else None)"

lemma scan_fields_shrinks:
  assumes r: "strip_prefix p (c # cs) = Some r" and p: "p \<noteq> []"
    and v: "strip_prefix q (dropWhile P r) = Some v"
  shows "length (dropWhile Q (dropWhile R v)) < Suc (length cs)"
proof -
  have "length (dropWhile Q (dropWhile R v)) \<le> length v"
    by (meson le_trans length_dropWhile_le)
  also have "\<dots> \<le> length (dropWhile P r)"
    using arg_cong [OF v [unfolded strip_prefix_Some], of length] by simp
  also have "\<dots> \<le> length r" by (rule length_dropWhile_le)
  also have "\<dots> < length (c # cs)"
    using arg_cong [OF r [unfolded strip_prefix_Some], of length] p by (cases p) simp_all
  finally show ?thesis by simp
qed

text \<open>\<open>FIELD_RE\<close> over the whole body: the \<open>**Key:** value\<close> pairs in order.\<close>

function scan_fields :: "string \<Rightarrow> (string \<times> string) list" where
  "scan_fields [] = []"
| "scan_fields (c # cs) =
     (case strip_prefix ''**'' (c # cs) of
        None \<Rightarrow> scan_fields cs
      | Some r \<Rightarrow>
          let seg = takeWhile (\<lambda>d. d \<noteq> CHR ''*'') r;
              r2 = dropWhile (\<lambda>d. d \<noteq> CHR ''*'') r
          in (case strip_prefix ''**'' r2 of
                None \<Rightarrow> scan_fields cs
              | Some v \<Rightarrow>
                  if length seg \<ge> 2 \<and> last seg = CHR '':''
                  then let v' = dropWhile js_blank v
                       in (butlast seg, takeWhile (\<lambda>d. d \<noteq> CHR ''*'') v') #
                          scan_fields (dropWhile (\<lambda>d. d \<noteq> CHR ''*'') v')
                  else scan_fields cs))"
  by pat_completeness auto
termination
  by (relation "measure length") (simp_all add: scan_fields_shrinks del: strip_prefix.simps)

text \<open>The \<open>fields\<close> map of an entry body: cleaned values under lower-cased keys, first one wins, in
  insertion order; \<open>pick\<close> takes the first key with the given prefix.\<close>

definition add_field :: "(string \<times> string) list \<Rightarrow> string \<times> string \<Rightarrow> (string \<times> string) list" where
  "add_field flds kv =
     (let key = toLower (trim (fst kv))
      in case cleanField (snd kv) of
           Some value \<Rightarrow> if map_of flds key = None then flds @ [(key, value)] else flds
         | None \<Rightarrow> flds)"

definition fields_of :: "string list \<Rightarrow> (string \<times> string) list" where
  "fields_of body = foldl add_field [] (scan_fields (join_nl body))"

definition pick :: "(string \<times> string) list \<Rightarrow> string \<Rightarrow> string option" where
  "pick flds prefix = map_option snd (find (\<lambda>(key, _). startsWith key prefix) flds)"

text \<open>One ledger line (\<open>PRIOR_LINE_RE\<close>, \<open>PRIOR_STATUS_RE\<close>, \<open>PRIOR_REF_RE\<close>).\<close>

definition PRIOR_STATUSES :: "(string list \<times> PriorEntryStatus) list" where
  "PRIOR_STATUSES =
     [([''resolved'', ''with'', ''regression''], PsRegression), ([''unresolved''], PsUnresolved),
      ([''resolved''], PsResolved), ([''set'', ''aside''], PsSetAside), ([''withdrawn''], PsWithdrawn)]"

fun strip_words :: "string list \<Rightarrow> string \<Rightarrow> string option" where
  "strip_words [] s = Some s"
| "strip_words [w] s = strip_prefix_ci w s"
| "strip_words (w # ws) s =
     (case strip_prefix_ci w s of
        Some (c # cs) \<Rightarrow> if c = CHR ''-'' \<or> js_space c then strip_words ws cs else None
      | _ \<Rightarrow> None)"

fun match_status :: "(string list \<times> PriorEntryStatus) list \<Rightarrow> string \<Rightarrow> (PriorEntryStatus \<times> string) option" where
  "match_status [] s = None"
| "match_status ((ws, st) # alts) s =
     (case strip_words ws s of
        Some t \<Rightarrow> if word_end t then Some (st, t) else match_status alts s
      | None \<Rightarrow> match_status alts s)"

text \<open>The optional \<open>\<^verbatim>\<open>(\(([^)]*)\))?\<close>\<close> group: its content and the rest, or nothing and the whole.\<close>

definition opt_paren :: "string \<Rightarrow> string option \<times> string" where
  "opt_paren s =
     (case s of
        c # cs \<Rightarrow>
          if c = CHR ''('' then
            (case dropWhile (\<lambda>d. d \<noteq> CHR '')'') cs of
               [] \<Rightarrow> (None, s)
             | _ # t \<Rightarrow> (Some (takeWhile (\<lambda>d. d \<noteq> CHR '')'') cs), t))
          else (None, s)
      | [] \<Rightarrow> (None, s))"

definition skip_ledger_dash :: "string \<Rightarrow> string" where
  "skip_ledger_dash s =
     (case strip_dash s of
        Some r \<Rightarrow> dropWhile js_blank r
      | None \<Rightarrow> (case strip_prefix '':'' s of Some r \<Rightarrow> dropWhile js_blank r | None \<Rightarrow> s))"

definition match_prior_line :: "string \<Rightarrow> (string \<times> string option \<times> string) option" where
  "match_prior_line line =
     (case dropWhile js_blank line of
        m # r \<Rightarrow>
          if m \<in> {CHR ''-'', CHR ''*'', CHR ''+''} \<and> takeWhile js_blank r \<noteq> [] then
            (case match_ar (dropWhile js_blank r) of
               Some (label, t) \<Rightarrow>
                 if word_end t then
                   (case opt_paren (dropWhile js_blank t) of
                      (sev, u) \<Rightarrow>
                        let rest = skip_ledger_dash (dropWhile js_blank u)
                        in if CHR 0x0D \<in> set rest then None else Some (label, sev, rest))
                 else None
             | None \<Rightarrow> None)
          else None
      | [] \<Rightarrow> None)"

definition match_ref :: "string \<Rightarrow> (string \<times> string) option" where
  "match_ref s =
     (case dropWhile js_blank s of
        c # cs \<Rightarrow>
          if c = CHR ''('' then
            (case strip_prefix_ci ''see'' (dropWhile js_blank cs) of
               Some t \<Rightarrow>
                 if takeWhile js_blank t = [] then None
                 else (case match_ar (dropWhile js_blank t) of
                         Some (label, u) \<Rightarrow>
                           (case dropWhile js_blank u of
                              d # v \<Rightarrow> if d = CHR '')'' then Some (label, v) else None
                            | [] \<Rightarrow> None)
                       | None \<Rightarrow> None)
             | None \<Rightarrow> None)
          else None
      | [] \<Rightarrow> None)"

text \<open>\<open>rest.replace(..., '')\<close> of a leading dash or colon with the blanks around it.\<close>

definition strip_note_dash :: "string \<Rightarrow> string" where
  "strip_note_dash s =
     (let t = dropWhile js_blank s
      in case strip_dash t of
           Some r \<Rightarrow> dropWhile js_blank r
         | None \<Rightarrow> (case strip_prefix '':'' t of Some r \<Rightarrow> dropWhile js_blank r | None \<Rightarrow> s))"

definition parsePriorLine :: "string \<Rightarrow> PriorEntry option" where
  "parsePriorLine line =
     (case match_prior_line line of
        None \<Rightarrow> None
      | Some (label, sev, m3) \<Rightarrow>
          (case match_status PRIOR_STATUSES m3 of
             None \<Rightarrow> None
           | Some (status, rest) \<Rightarrow>
               let declared = toLower (trim (case sev of Some x \<Rightarrow> x | None \<Rightarrow> []));
                   (ref, rest2) = (case match_ref rest of
                                     Some (l, r) \<Rightarrow> (Some (normalizeAdversarialId l), r)
                                   | None \<Rightarrow> (None, rest))
               in Some \<lparr>pe_id = normalizeAdversarialId label, pe_previousSeverity = severity_hit declared,
                        pe_status = status, pe_ref = ref, pe_note = cleanField (strip_note_dash rest2)\<rparr>))"

text \<open>\<open>maxAdversarialId\<close>: the greatest number of an \<open>AR-n\<close> token anywhere; \<open>prev\<close> is the character
  before the current position, for \<open>\<^verbatim>\<open>\b\<close>\<close>.\<close>

definition digit_val :: "char \<Rightarrow> nat" where
  "digit_val c = code c - 48"

definition number_of :: "string \<Rightarrow> nat" where
  "number_of ds = foldl (\<lambda>n c. 10 * n + digit_val c) 0 ds"

fun max_ar_from :: "bool \<Rightarrow> string \<Rightarrow> nat \<Rightarrow> nat" where
  "max_ar_from prev_word [] acc = acc"
| "max_ar_from prev_word (c # cs) acc =
     (case (if prev_word then None else match_ar (c # cs)) of
        Some (label, _) \<Rightarrow>
          max_ar_from (js_word c) cs (max acc (number_of (takeWhile js_digit (dropWhile (\<lambda>d. \<not> js_digit d) label))))
      | None \<Rightarrow> max_ar_from (js_word c) cs acc)"

definition maxAdversarialId :: "string option \<Rightarrow> nat" where
  "maxAdversarialId markdown = (case markdown of None \<Rightarrow> 0 | Some s \<Rightarrow> max_ar_from False s 0)"

section \<open>The document parser\<close>

record parse_state =
  ps_section :: "SectionKey option"
  ps_current :: "(AdversarialFinding \<times> EntryBucket \<times> string list) option"
  ps_inFence :: bool
  ps_result :: ParsedAdversarialReview

definition empty_review :: ParsedAdversarialReview where
  "empty_review = \<lparr>pr_blocking = [], pr_findings = [], pr_prior = []\<rparr>"

definition bucket_severity :: "EntryBucket \<Rightarrow> AdversarialSeverity" where
  "bucket_severity b = (case b of BkBlocking \<Rightarrow> Blocker | BkFindings \<Rightarrow> Advisory)"

definition finish_entry :: "AdversarialFinding \<Rightarrow> EntryBucket \<Rightarrow> string list \<Rightarrow> AdversarialFinding" where
  "finish_entry entry bucket body =
     (let flds = fields_of body
      in entry\<lparr>af_severity := normalizeSeverity (pick flds ''severity'') (bucket_severity bucket),
               af_area := pick flds ''area'', af_what := pick flds ''what'',
               af_why := pick flds ''why'', af_fix := pick flds ''fix'',
               af_title := (if af_title entry = [] then af_id entry else af_title entry)\<rparr>)"

definition push_entry ::
  "EntryBucket \<Rightarrow> AdversarialFinding \<Rightarrow> ParsedAdversarialReview \<Rightarrow> ParsedAdversarialReview" where
  "push_entry b e res =
     (case b of
        BkBlocking \<Rightarrow> res\<lparr>pr_blocking := pr_blocking res @ [e]\<rparr>
      | BkFindings \<Rightarrow> res\<lparr>pr_findings := pr_findings res @ [e]\<rparr>)"

definition flush :: "parse_state \<Rightarrow> parse_state" where
  "flush st =
     (case ps_current st of
        None \<Rightarrow> st
      | Some (entry, bucket, body) \<Rightarrow>
          st\<lparr>ps_current := None, ps_result := push_entry bucket (finish_entry entry bucket body) (ps_result st)\<rparr>)"

definition is_fence :: "string \<Rightarrow> bool" where
  "is_fence line \<longleftrightarrow> startsWith (dropWhile js_blank line) ''```'' \<or> startsWith (dropWhile js_blank line) ''~~~''"

definition new_entry :: "string \<Rightarrow> string \<Rightarrow> EntryBucket \<Rightarrow> AdversarialFinding" where
  "new_entry label title bucket =
     \<lparr>af_id = normalizeAdversarialId label, af_title = trim (collapse_ws title),
      af_severity = bucket_severity bucket, af_area = None, af_what = None, af_why = None, af_fix = None\<rparr>"

definition section_bucket :: "SectionKey option \<Rightarrow> EntryBucket" where
  "section_bucket sec = (case sec of Some SecBlocking \<Rightarrow> BkBlocking | _ \<Rightarrow> BkFindings)"

definition is_result_heading :: "string \<Rightarrow> bool" where
  "is_result_heading h = (case strip_prefix_ci ''result'' (trim h) of Some t \<Rightarrow> word_end t | None \<Rightarrow> False)"

definition doc_line :: "parse_state \<Rightarrow> string \<Rightarrow> parse_state" where
  "doc_line st0 line =
     (let st = (if is_fence line then st0\<lparr>ps_inFence := \<not> ps_inFence st0\<rparr> else st0)
      in case match_entry_heading line of
           Some (label, title) \<Rightarrow>
             (let st1 = flush st
              in if ps_section st1 = Some SecPrior then st1
                 else let b = section_bucket (ps_section st1)
                      in st1\<lparr>ps_current := Some (new_entry label title b, b, [])\<rparr>)
         | None \<Rightarrow>
             (case match_section_heading line of
                Some h \<Rightarrow>
                  (let st1 = flush st;
                       cls = classifySection h;
                       st2 = (if cls = Some SecBlocking \<or> cls = Some SecFindings
                              then st1\<lparr>ps_inFence := False\<rparr> else st1)
                   in if cls = Some SecPrior \<and> ps_inFence st2 then st2
                      else if cls \<noteq> None \<or> is_result_heading h then st2\<lparr>ps_section := cls\<rparr>
                      else st2)
              | None \<Rightarrow>
                  if ps_section st = Some SecPrior \<and> \<not> ps_inFence st then
                    (case parsePriorLine line of
                       Some e \<Rightarrow> st\<lparr>ps_result := (ps_result st)\<lparr>pr_prior := pr_prior (ps_result st) @ [e]\<rparr>\<rparr>
                     | None \<Rightarrow> st)
                  else (case ps_current st of
                          Some (entry, b, body) \<Rightarrow> st\<lparr>ps_current := Some (entry, b, body @ [line])\<rparr>
                        | None \<Rightarrow> st)))"

definition init_parse :: parse_state where
  "init_parse = \<lparr>ps_section = None, ps_current = None, ps_inFence = False, ps_result = empty_review\<rparr>"

definition parseAdversarialReviewDoc :: "string option \<Rightarrow> ParsedAdversarialReview" where
  "parseAdversarialReviewDoc markdown =
     (case markdown of
        None \<Rightarrow> empty_review
      | Some s \<Rightarrow> if s = [] then empty_review
                  else ps_result (flush (foldl doc_line init_parse (lines_of s))))"

datatype ReviewSeverity = SevError | SevWarning | SevInfo

fun adversarialSeverityToReviewSeverity :: "AdversarialSeverity \<Rightarrow> ReviewSeverity" where
  "adversarialSeverityToReviewSeverity Blocker = SevError"
| "adversarialSeverityToReviewSeverity Major = SevError"
| "adversarialSeverityToReviewSeverity Minor = SevWarning"
| "adversarialSeverityToReviewSeverity Advisory = SevInfo"

section \<open>Properties\<close>

lemma last_match_snoc:
  "last_match f (ls @ [l]) = (case f l of Some v \<Rightarrow> Some v | None \<Rightarrow> last_match f ls)"
  by (cases "f l") (simp_all add: last_match_def)

text \<open>the last verdict line wins: whatever a reviewer or a verifier wrote before, a text that ends
  with a verdict line has that verdict.\<close>

theorem final_verdict_line_wins:
  "parseCodeReviewVerdict (s @ CHR 0x0A # ''REVIEW: BLOCKING'') = Some RBlocking \<and>
   parseCodeReviewVerdict (s @ CHR 0x0A # ''REVIEW: CLEAN'') = Some RClean \<and>
   parseTaskVerifyVerdict (s @ CHR 0x0A # ''VERDICT: PASS'') = Some VPass \<and>
   parseTaskVerifyVerdict (s @ CHR 0x0A # ''VERDICT: FAIL'') = Some VFail"
proof -
  let ?m = "match_verdict ''REVIEW:'' ''BLOCKING'' RBlocking ''CLEAN'' RClean"
  let ?v = "match_verdict ''VERDICT:'' ''PASS'' VPass ''FAIL'' VFail"
  have "?m ''REVIEW: BLOCKING'' = Some RBlocking" "?m ''REVIEW: CLEAN'' = Some RClean"
    "?v ''VERDICT: PASS'' = Some VPass" "?v ''VERDICT: FAIL'' = Some VFail"
    by code_simp+
  then show ?thesis
    by (simp add: parseCodeReviewVerdict_def parseTaskVerifyVerdict_def lines_of_snoc last_match_snoc)
qed

definition canonical_id :: "string \<Rightarrow> bool" where
  "canonical_id i =
     (case strip_prefix ''AR-'' i of Some ds \<Rightarrow> ds \<noteq> [] \<and> list_all js_digit ds | None \<Rightarrow> False)"

definition wf_finding :: "AdversarialFinding \<Rightarrow> bool" where
  "wf_finding f \<longleftrightarrow> canonical_id (af_id f) \<and> normalizeAdversarialId (af_id f) = af_id f \<and> af_title f \<noteq> []"

lemma first_digits_nonempty:
  assumes "\<exists>c \<in> set s. P c"
  shows "takeWhile P (dropWhile (\<lambda>c. \<not> P c) s) \<noteq> []"
  using assms by (induction s) auto

lemma normalize_canonical:
  assumes "\<exists>c \<in> set raw. js_digit c"
  shows "canonical_id (normalizeAdversarialId raw)"
  using first_digits_nonempty [OF assms] set_takeWhileD [of _ js_digit]
  by (auto simp: normalizeAdversarialId_def canonical_id_def Let_def list_all_iff)

lemma canonical_normal:
  assumes "canonical_id i"
  shows "normalizeAdversarialId i = i"
proof -
  from assms obtain ds where i: "i = ''AR-'' @ ds" and ds: "ds \<noteq> []" "list_all js_digit ds"
    by (auto simp: canonical_id_def strip_prefix_Some split: option.splits)
  have "\<not> js_digit (CHR ''A'')" "\<not> js_digit (CHR ''R'')" "\<not> js_digit (CHR ''-'')" by code_simp+
  moreover have run: "dropWhile (\<lambda>c. \<not> js_digit c) ds = ds" "takeWhile js_digit ds = ds"
    using ds by (auto simp: list_all_iff dropWhile_eq_self_iff takeWhile_eq_all_conv)
  ultimately show ?thesis using ds(1) by (simp add: normalizeAdversarialId_def i Let_def run(1) run(2))
qed

lemma match_ar_digit: "match_ar s = Some (label, t) \<Longrightarrow> \<exists>c \<in> set label. js_digit c"
proof -
  have "takeWhile js_digit r \<noteq> [] \<Longrightarrow> \<exists>c \<in> set (takeWhile js_digit r). js_digit c" for r
    by (cases r) (auto split: if_splits)
  then show "match_ar s = Some (label, t) \<Longrightarrow> \<exists>c \<in> set label. js_digit c"
    by (fastforce simp: match_ar_def Let_def split: option.splits prod.splits if_splits)
qed

lemma entry_heading_canonical:
  assumes "match_entry_heading line = Some (label, title)"
  shows "canonical_id (normalizeAdversarialId label)"
  using assms
  by (auto simp: match_entry_heading_def Let_def split: if_splits option.splits
        intro!: normalize_canonical dest: match_ar_digit)

definition parse_ok :: "parse_state \<Rightarrow> bool" where
  "parse_ok st \<longleftrightarrow>
     (case ps_current st of None \<Rightarrow> True | Some (e, b, body) \<Rightarrow> canonical_id (af_id e)) \<and>
     list_all wf_finding (pr_blocking (ps_result st)) \<and> list_all wf_finding (pr_findings (ps_result st))"

lemma finish_entry_wf: "canonical_id (af_id e) \<Longrightarrow> wf_finding (finish_entry e b body)"
  by (auto simp: wf_finding_def finish_entry_def Let_def canonical_normal) (simp add: canonical_id_def)

lemma flush_ok: "parse_ok st \<Longrightarrow> parse_ok (flush st) \<and> ps_current (flush st) = None"
  by (auto simp: parse_ok_def flush_def push_entry_def finish_entry_wf
        split: option.splits EntryBucket.splits)

lemma parse_ok_simps:
  "parse_ok (st\<lparr>ps_inFence := f\<rparr>) = parse_ok st" "parse_ok (st\<lparr>ps_section := sec\<rparr>) = parse_ok st"
  by (simp_all add: parse_ok_def)

lemma doc_line_ok:
  assumes "parse_ok st"
  shows "parse_ok (doc_line st line)"
proof -
  define st1 where "st1 = (if is_fence line then st\<lparr>ps_inFence := \<not> ps_inFence st\<rparr> else st)"
  have ok1: "parse_ok st1" using assms by (simp add: st1_def parse_ok_simps)
  note ok2 = flush_ok [OF ok1]
  have entry: "parse_ok ((flush st1)\<lparr>ps_current := Some (new_entry label title b, b, [])\<rparr>)"
    if "match_entry_heading line = Some (label, title)" for label title b
    using ok2 entry_heading_canonical [OF that] by (simp add: parse_ok_def new_entry_def)
  show ?thesis
    unfolding doc_line_def st1_def [symmetric] Let_def
    using ok1 ok2 entry
    by (auto simp: parse_ok_simps split: option.splits)
       (auto simp: parse_ok_def split: option.splits)
qed

text \<open>every entry the review parser returns can be told apart and shown: its id is \<open>AR-\<close> followed by
  digits, already in normal form, and its title is not empty, whatever document was parsed.\<close>

theorem parsed_findings_wellformed:
  "list_all wf_finding (pr_blocking (parseAdversarialReviewDoc doc)) \<and>
   list_all wf_finding (pr_findings (parseAdversarialReviewDoc doc))"
proof -
  have fold: "parse_ok st \<Longrightarrow> parse_ok (foldl doc_line st ls)" for st ls
    by (induction ls arbitrary: st) (simp_all add: doc_line_ok)
  have "parse_ok init_parse" by (simp add: parse_ok_def init_parse_def empty_review_def)
  from flush_ok [OF fold [OF this]] show ?thesis
    by (auto simp: parseAdversarialReviewDoc_def parse_ok_def empty_review_def split: option.splits)
qed

end
