(* ===== verification/Controller.thy ===== *)
theory Controller
  imports WorkflowDef ReviewDoc
begin

text \<open>
  The workflow controller's vocabulary and its decision helpers
  (main/src/orchestrator/programmatic/types.ts and workflowController.ts): the values the host and
  the step runner exchange with the controller, the walk-scoped state of \<open>run()\<close>, and the methods
  \<open>applyGateDecision\<close>, \<open>handleRequiredFailure\<close>, \<open>tryLoopback\<close>, \<open>clearCompletedFrom\<close> and the
  adversarial-review loop.

  The host and the runner are interfaces: the record \<open>host\<close> holds one function per seam over an
  abstract host state \<open>'h\<close>. An optional seam is an option; a seam whose exceptions the controller
  handles, or whose rejection ends \<open>run()\<close>, returns an option with \<open>None\<close> for a throw; the seams
  whose contract is fail-soft (\<open>reportStep\<close>, \<open>awaitBlockingReviewItems\<close>, \<open>awaitSystemicPause\<close>,
  \<open>runStep\<close>) return a value. \<open>h_aborted\<close> and \<open>h_userSkipped\<close> read the abort signal and the live
  directives, which change only while the controller awaits a seam, i.e. inside a host call. Log
  lines have no effect on the walk and are left out.
\<close>

section \<open>Values exchanged with the host\<close>

datatype StepRunStatus = StOk | StFailed | StAborted

record StepRunResult =
  rr_status :: StepRunStatus
  rr_summary :: "string option"
  rr_error :: "string option"
  rr_systemic :: "bool option"
  rr_resultText :: "string option"
  rr_provider :: "string option"
  rr_runtime :: "string option"

datatype PauseOrigin = FromStep | FromTriage

record SystemicPauseInfo =
  pi_blockedAgentKeys :: "string list"
  pi_blockedProvider :: "string option"
  pi_blockedRuntime :: "string option"
  pi_origin :: PauseOrigin
  pi_fanOut :: bool

datatype HumanGateDecision = Approve | Reject | Revise | Abort
datatype TriageDecision = TriageRetry | TriageEscalate | TriageFail
datatype SystemicPauseVerdict = PauseRetry | PauseGiveup | PauseCanceled
datatype CheckpointVerdict = CheckpointProceed | CheckpointCanceled
datatype StepStatus = RepRunning | RepDone | RepFailed | RepSkipped

datatype SupervisorEventKind =
  RunStarted | StepRunning | StepSettled | StepFailed | GateOpened | RunFinished

datatype ControllerOutcome = OutCompleted | OutFailed | OutRejected | OutCanceled

record SupervisorEvent =
  ev_kind :: SupervisorEventKind
  ev_runId :: string
  ev_phaseId :: "string option"
  ev_stepId :: "string option"
  ev_outcome :: "ControllerOutcome option"
  ev_error :: "string option"

record ReviewLoopPriorRound =
  rl_round :: nat
  rl_blockingIds :: "string list"
  rl_blockingTitles :: "string list"

record ReviewLoopSteering =
  rs_address :: "string list"
  rs_setAside :: "(string \<times> string) list"
  rs_guidance :: "string option"

record ReviewLoopRequest =
  rq_stepId :: string
  rq_loopbackStepId :: string
  rq_round :: nat
  rq_lapsUsed :: nat
  rq_maxLaps :: nat
  rq_reviewMarkdown :: "string option"
  rq_parsed :: ParsedAdversarialReview
  rq_priorRounds :: "ReviewLoopPriorRound list"

datatype ReviewLoopDecision =
    LoopVerdict string ReviewLoopSteering
  | StopVerdict string "(string \<times> string) list"

record ControllerEscalation =
  es_loopStopRationale :: "string option"
  es_setAsideIds :: "string list option"

datatype RevisionSource = FromAdversarialReview

record GateRevision =
  gr_gateStepId :: string
  gr_note :: "string option"
  gr_source :: "RevisionSource option"
  gr_round :: "nat option"
  gr_steering :: "ReviewLoopSteering option"
  gr_reviewMarkdown :: "string option"
  gr_reviewReportedSinceMs :: "int option"

record PriorAgentOutput =
  po_stepId :: string
  po_name :: string
  po_text :: "string option"

record ControllerStepContext =
  cx_runId :: string
  cx_phaseId :: string
  cx_stepIndex :: nat
  cx_attempt :: nat
  cx_gateRevision :: "GateRevision option"
  cx_escalation :: "ControllerEscalation option"
  cx_reviewReportedSinceMs :: "int option"
  cx_priorStepOutput :: "PriorAgentOutput option"

datatype StepOutcome = SoDone | SoSkipped | SoFailed | SoRejected | SoCanceled

record StepReport =
  sr_stepId :: string
  sr_phaseId :: string
  sr_outcome :: StepOutcome
  sr_attempts :: nat
  sr_error :: "string option"
  sr_deliberate :: "bool option"

record ControllerResult =
  cr_outcome :: ControllerOutcome
  cr_steps :: "StepReport list"
  cr_failedStepId :: "string option"

record 'h host =
  h_runStep :: "WorkflowStep \<Rightarrow> ControllerStepContext \<Rightarrow> 'h \<Rightarrow> StepRunResult \<times> 'h"
  h_reportStep :: "string \<Rightarrow> StepStatus \<Rightarrow> 'h \<Rightarrow> 'h"
  h_requestHumanGate ::
    "WorkflowStep \<Rightarrow> ControllerStepContext \<Rightarrow> 'h \<Rightarrow> HumanGateDecision option \<times> 'h"
  h_shouldSkipHumanGate ::
    "(WorkflowStep \<Rightarrow> string \<Rightarrow> int option \<Rightarrow> 'h \<Rightarrow> string option option \<times> 'h) option"
  h_readGateResolutionNote :: "(string \<Rightarrow> 'h \<Rightarrow> string option option) option"
  h_readAdversarialReview :: "(int option \<Rightarrow> 'h \<Rightarrow> string option option) option"
  h_notify :: "(SupervisorEvent \<Rightarrow> 'h \<Rightarrow> 'h) option"
  h_triageFailure ::
    "(WorkflowStep \<Rightarrow> ControllerStepContext \<Rightarrow> string option \<Rightarrow> bool option \<Rightarrow> 'h
       \<Rightarrow> TriageDecision option \<times> 'h) option"
  h_adviseReviewLoop ::
    "(ReviewLoopRequest \<Rightarrow> ControllerStepContext \<Rightarrow> 'h \<Rightarrow> ReviewLoopDecision option option \<times> 'h) option"
  h_recordStepResult :: "(StepReport \<Rightarrow> 'h \<Rightarrow> 'h) option"
  h_resolveItems :: "(string \<Rightarrow> string \<Rightarrow> 'h \<Rightarrow> string list option) option"
  h_awaitBlockingReviewItems :: "(string \<Rightarrow> 'h \<Rightarrow> CheckpointVerdict \<times> 'h) option"
  h_awaitSystemicPause ::
    "(WorkflowStep \<Rightarrow> ControllerStepContext \<Rightarrow> string option \<Rightarrow> SystemicPauseInfo \<Rightarrow> 'h
       \<Rightarrow> SystemicPauseVerdict \<times> 'h) option"
  h_now :: "'h \<Rightarrow> int"
  h_aborted :: "'h \<Rightarrow> bool"
  h_userSkipped :: "'h \<Rightarrow> string \<Rightarrow> bool"

section \<open>Budgets\<close>

definition MAX_REVIEW_AUTO_REVISIONS :: nat where "MAX_REVIEW_AUTO_REVISIONS = 3"
definition MAX_REVIEW_MECHANICAL_REVISIONS :: nat where "MAX_REVIEW_MECHANICAL_REVISIONS = 1"
definition MAX_STEP_LOOPBACKS :: nat where "MAX_STEP_LOOPBACKS = 5"
definition MAX_OPTIONAL_TRIAGE_RETRIES :: nat where "MAX_OPTIONAL_TRIAGE_RETRIES = 1"
definition MAX_SYSTEMIC_PAUSES :: nat where "MAX_SYSTEMIC_PAUSES = 10"
definition MONITOR_LANE_RESCUE_CAP :: nat where "MONITOR_LANE_RESCUE_CAP = 3"

text \<open>\<open>Math.floor(3 + Math.max(0, n) / 2)\<close> on an integer count.\<close>

definition monitorRunRescueCap :: "int \<Rightarrow> int" where
  "monitorRunRescueCap taskCount = 3 + max 0 taskCount div 2"

lemmas budget_defs = MAX_REVIEW_AUTO_REVISIONS_def MAX_REVIEW_MECHANICAL_REVISIONS_def
  MAX_STEP_LOOPBACKS_def MAX_OPTIONAL_TRIAGE_RETRIES_def MAX_SYSTEMIC_PAUSES_def

section \<open>Walk-scoped state\<close>

datatype LaneFailureKind =
  LfInnerStep | LfTaskVerify | LfCodeReview | LfMergeGate | LfCommitIntegrity

record LanePriorRescue =
  lp_stepId :: string
  lp_failureKind :: LaneFailureKind
  lp_errorExcerpt :: string
  lp_guidance :: string

record LaneRescueState =
  ls_perItem :: counter
  ls_runTotal :: nat
  ls_knownItems :: "string set"
  ls_history :: "string \<rightharpoonup> LanePriorRescue list"
  ls_guidance :: "string \<rightharpoonup> string"

definition newLaneRescueState :: LaneRescueState where
  "newLaneRescueState = \<lparr>ls_perItem = Map.empty, ls_runTotal = 0, ls_knownItems = {},
     ls_history = Map.empty, ls_guidance = Map.empty\<rparr>"

record 'h walk =
  w_steps :: "StepReport list"
  w_loopbacks :: counter
  w_triageRetries :: counter
  w_optionalTriageRetries :: counter
  w_systemicPauses :: counter
  w_systemicGiveUps :: "string set"
  w_laneRescues :: LaneRescueState
  w_pendingGateRevision :: "GateRevision option"
  w_reviewAutoRevisions :: counter
  w_reviewRounds :: counter
  w_priorRounds :: "string \<rightharpoonup> ReviewLoopPriorRound list"
  w_reviewReportedSinceMs :: "int option"
  w_escalation :: "ControllerEscalation option"
  w_priorAgentOutput :: "PriorAgentOutput option"
  w_remainingCompleted :: "string set"
  w_skipToHumanGate :: bool
  w_host :: 'h

section \<open>Step predicates and agent keys\<close>

definition isPureHumanGate :: "WorkflowStep \<Rightarrow> bool" where
  "isPureHumanGate step \<longleftrightarrow> st_agent step = HUMAN_GATE_AGENT"

definition hasTrailingGate :: "WorkflowStep \<Rightarrow> bool" where
  "hasTrailingGate step \<longleftrightarrow> st_human step = Some True \<and> st_agent step \<noteq> HUMAN_GATE_AGENT"

abbreviation is_optional :: "WorkflowStep \<Rightarrow> bool" where
  "is_optional step \<equiv> st_optional step = Some True"

definition is_review_agent :: "WorkflowStep \<Rightarrow> bool" where
  "is_review_agent step \<longleftrightarrow> st_agent step = ''adversarial-review''"

definition LEGACY_BY_LABEL :: "(string \<times> string) list" where
  "LEGACY_BY_LABEL =
     [(''idea-extractor'', ''context''), (''researcher'', ''research''), (''executor'', ''implement''),
      (''verifier'', ''sprint-verify''), (''code-reviewer'', ''sprint-review'')]"

definition resolveStepAgentKey :: "string \<Rightarrow> string \<Rightarrow> string option" where
  "resolveStepAgentKey stepId label =
     (if label = HUMAN_GATE_AGENT then None
      else if label = ''task-refiner'' \<and> stepId \<in> {''epics'', ''tasks''} then Some stepId
      else Some (case map_of LEGACY_BY_LABEL label of Some key \<Rightarrow> key | None \<Rightarrow> label))"

text \<open>\<open>x ? {..x} : {}\<close> on an optional string: an empty string is falsy.\<close>

definition truthy :: "string option \<Rightarrow> string option" where
  "truthy x = (if x = Some [] then None else x)"

definition filled :: "string \<Rightarrow> string option" where
  "filled s = (if s = [] then None else Some s)"

section \<open>Effects on the walk\<close>

definition reportStep :: "'h host \<Rightarrow> string \<Rightarrow> StepStatus \<Rightarrow> 'h walk \<Rightarrow> 'h walk" where
  "reportStep H stepId status w = w\<lparr>w_host := h_reportStep H stepId status (w_host w)\<rparr>"

definition emit :: "'h host \<Rightarrow> SupervisorEvent \<Rightarrow> 'h walk \<Rightarrow> 'h walk" where
  "emit H event w = (case h_notify H of None \<Rightarrow> w | Some notify \<Rightarrow> w\<lparr>w_host := notify event (w_host w)\<rparr>)"

definition pushStep :: "'h host \<Rightarrow> StepReport \<Rightarrow> 'h walk \<Rightarrow> 'h walk" where
  "pushStep H report w =
     (let w1 = w\<lparr>w_steps := w_steps w @ [report]\<rparr>
      in case h_recordStepResult H of
           None \<Rightarrow> w1
         | Some record_result \<Rightarrow> w1\<lparr>w_host := record_result report (w_host w1)\<rparr>)"

definition mk_report :: "WorkflowStep \<Rightarrow> WorkflowPhase \<Rightarrow> StepOutcome \<Rightarrow> nat \<Rightarrow> string option \<Rightarrow> StepReport" where
  "mk_report step phase outcome attempts error =
     \<lparr>sr_stepId = st_id step, sr_phaseId = ph_id phase, sr_outcome = outcome, sr_attempts = attempts,
      sr_error = error, sr_deliberate = None\<rparr>"

definition step_event :: "SupervisorEventKind \<Rightarrow> string \<Rightarrow> WorkflowPhase \<Rightarrow> WorkflowStep \<Rightarrow> string option \<Rightarrow> SupervisorEvent" where
  "step_event kind runId phase step error =
     \<lparr>ev_kind = kind, ev_runId = runId, ev_phaseId = Some (ph_id phase), ev_stepId = Some (st_id step),
      ev_outcome = None, ev_error = error\<rparr>"

text \<open>Settle a step: record the report, then tell the timeline.\<close>

definition settle ::
  "'h host \<Rightarrow> WorkflowStep \<Rightarrow> WorkflowPhase \<Rightarrow> StepOutcome \<Rightarrow> nat \<Rightarrow> string option \<Rightarrow> StepStatus
     \<Rightarrow> 'h walk \<Rightarrow> 'h walk" where
  "settle H step phase outcome attempts error status w =
     reportStep H (st_id step) status (pushStep H (mk_report step phase outcome attempts error) w)"

definition deliberate_skip ::
  "'h host \<Rightarrow> WorkflowStep \<Rightarrow> WorkflowPhase \<Rightarrow> nat \<Rightarrow> string \<Rightarrow> 'h walk \<Rightarrow> 'h walk" where
  "deliberate_skip H step phase attempts reason w =
     reportStep H (st_id step) RepSkipped
       (pushStep H ((mk_report step phase SoSkipped attempts (Some reason))\<lparr>sr_deliberate := Some True\<rparr>) w)"

definition result_of :: "ControllerOutcome \<Rightarrow> string option \<Rightarrow> 'h walk \<Rightarrow> ControllerResult" where
  "result_of outcome failed w = \<lparr>cr_outcome = outcome, cr_steps = w_steps w, cr_failedStepId = failed\<rparr>"

section \<open>Loopbacks and the resume skip set\<close>

text \<open>\<open>phaseSteps.findIndex((s) => s.id === step.loopback)\<close> behind the non-empty guard.\<close>

definition loopback_index :: "WorkflowStep \<Rightarrow> WorkflowStep list \<Rightarrow> nat option" where
  "loopback_index step phaseSteps =
     (case st_loopback step of
        None \<Rightarrow> None
      | Some l \<Rightarrow> if l = [] then None else find_index (\<lambda>s. st_id s = l) phaseSteps)"

definition tryLoopback :: "WorkflowStep \<Rightarrow> WorkflowStep list \<Rightarrow> counter \<Rightarrow> (nat \<times> counter) option" where
  "tryLoopback step phaseSteps loopbacks =
     (case loopback_index step phaseSteps of
        None \<Rightarrow> None
      | Some target \<Rightarrow>
          if used_of loopbacks (st_id step) \<ge> MAX_STEP_LOOPBACKS then None
          else Some (target, bump loopbacks (st_id step)))"

definition clearCompletedFrom :: "string set \<Rightarrow> WorkflowStep list \<Rightarrow> nat \<Rightarrow> string set" where
  "clearCompletedFrom completed phaseSteps fromIndex =
     fold (\<lambda>s acc. acc - {st_id s}) (drop fromIndex phaseSteps) completed"

section \<open>Human gates\<close>

datatype 'h next_step =
    NextTerminal ControllerResult "'h walk"
  | NextIndex nat "GateRevision option" "'h walk"

definition revision_note :: "'h host \<Rightarrow> string \<Rightarrow> 'h \<Rightarrow> string option" where
  "revision_note H stepId h =
     (case h_readGateResolutionNote H of
        None \<Rightarrow> None
      | Some read \<Rightarrow>
          (case read stepId h of
             Some (Some note) \<Rightarrow> filled (trim note)
           | _ \<Rightarrow> None))"

definition phase_review_round :: "WorkflowStep list \<Rightarrow> counter \<Rightarrow> nat option" where
  "phase_review_round phaseSteps rounds =
     (case find is_review_agent phaseSteps of None \<Rightarrow> None | Some s \<Rightarrow> rounds (st_id s))"

definition gate_revise ::
  "'h host \<Rightarrow> WorkflowStep \<Rightarrow> WorkflowPhase \<Rightarrow> nat \<Rightarrow> nat \<Rightarrow> 'h walk \<Rightarrow> 'h next_step" where
  "gate_revise H step phase i attempts w =
     (let w1 = settle H step phase SoDone attempts None RepDone
                 (w\<lparr>w_loopbacks := bump (w_loopbacks w) (st_id step)\<rparr>);
          target = loopback_index step (ph_steps phase);
          nextIndex = (case target of Some t \<Rightarrow> t | None \<Rightarrow> i);
          w2 = w1\<lparr>w_remainingCompleted :=
                    clearCompletedFrom (w_remainingCompleted w1) (ph_steps phase) nextIndex\<rparr>
      in case target of
           None \<Rightarrow> NextIndex nextIndex None w2
         | Some _ \<Rightarrow>
             NextIndex nextIndex
               (Some \<lparr>gr_gateStepId = st_id step,
                      gr_note = revision_note H (st_id step) (w_host w2),
                      gr_source = None,
                      gr_round = phase_review_round (ph_steps phase) (w_reviewRounds w2),
                      gr_steering = None,
                      gr_reviewMarkdown = None,
                      gr_reviewReportedSinceMs = w_reviewReportedSinceMs w2\<rparr>) w2)"

definition gate_terminal ::
  "'h host \<Rightarrow> WorkflowStep \<Rightarrow> WorkflowPhase \<Rightarrow> StepOutcome \<Rightarrow> ControllerOutcome \<Rightarrow> nat \<Rightarrow> 'h walk \<Rightarrow> 'h next_step" where
  "gate_terminal H step phase so co attempts w =
     (let w1 = settle H step phase so attempts None RepDone w
      in NextTerminal (result_of co (Some (st_id step)) w1) w1)"

definition applyGateDecision ::
  "'h host \<Rightarrow> HumanGateDecision \<Rightarrow> WorkflowStep \<Rightarrow> WorkflowPhase \<Rightarrow> nat \<Rightarrow> nat \<Rightarrow> 'h walk \<Rightarrow> 'h next_step" where
  "applyGateDecision H decision step phase i attempts w =
     (case decision of
        Approve \<Rightarrow> NextIndex (i + 1) None (settle H step phase SoDone attempts None RepDone w)
      | Reject \<Rightarrow> gate_terminal H step phase SoRejected OutRejected attempts w
      | Abort \<Rightarrow> gate_terminal H step phase SoCanceled OutCanceled attempts w
      | Revise \<Rightarrow>
          if used_of (w_loopbacks w) (st_id step) \<ge> MAX_STEP_LOOPBACKS
          then gate_terminal H step phase SoRejected OutRejected attempts w
          else gate_revise H step phase i attempts w)"

section \<open>A required step that exhausted its retries\<close>

text \<open>What one visit of a step does to the walk: go on at an index, end the run with a result, or
  let the exception of a host seam reject \<open>run()\<close>.\<close>

datatype 'h visit_result =
    Go nat "'h walk"
  | Stop ControllerResult "'h walk"
  | Threw "'h walk"

definition required_failed ::
  "'h host \<Rightarrow> WorkflowStep \<Rightarrow> WorkflowPhase \<Rightarrow> nat \<Rightarrow> string option \<Rightarrow> 'h walk \<Rightarrow> 'h visit_result" where
  "required_failed H step phase attempt lastError w =
     (let w1 = settle H step phase SoFailed attempt lastError RepFailed w
      in Stop (result_of OutFailed (Some (st_id step)) w1) w1)"

definition triage_retry ::
  "'h host \<Rightarrow> WorkflowStep \<Rightarrow> WorkflowPhase \<Rightarrow> nat \<Rightarrow> nat \<Rightarrow> string option \<Rightarrow> 'h walk \<Rightarrow> 'h visit_result" where
  "triage_retry H step phase i attempt lastError w =
     (if used_of (w_triageRetries w) (st_id step) \<ge> MAX_STEP_LOOPBACKS
      then required_failed H step phase attempt lastError w
      else Go i (reportStep H (st_id step) RepDone
                   (w\<lparr>w_triageRetries := bump (w_triageRetries w) (st_id step)\<rparr>)))"

definition escalate_required ::
  "'h host \<Rightarrow> string \<Rightarrow> WorkflowStep \<Rightarrow> WorkflowPhase \<Rightarrow> ControllerStepContext \<Rightarrow> string option \<Rightarrow> nat \<Rightarrow> nat
     \<Rightarrow> 'h walk \<Rightarrow> 'h visit_result" where
  "escalate_required H runId step phase ctx lastError i attempt w =
     (let w1 = emit H (step_event GateOpened runId phase step None) w;
          (verdict, h) = h_requestHumanGate H step ctx (w_host w1);
          w2 = w1\<lparr>w_host := h\<rparr>
      in case verdict of
           None \<Rightarrow> Threw w2
         | Some Approve \<Rightarrow> Go (i + 1) (settle H step phase SoSkipped attempt lastError RepSkipped w2)
         | Some Abort \<Rightarrow>
             (let w3 = settle H step phase SoCanceled attempt None RepDone w2
              in Stop (result_of OutCanceled (Some (st_id step)) w3) w3)
         | Some Revise \<Rightarrow> triage_retry H step phase i attempt lastError w2
         | Some Reject \<Rightarrow> required_failed H step phase attempt lastError w2)"

definition handleRequiredFailure ::
  "'h host \<Rightarrow> string \<Rightarrow> WorkflowStep \<Rightarrow> WorkflowPhase \<Rightarrow> ControllerStepContext \<Rightarrow> string option \<Rightarrow> nat \<Rightarrow> nat
     \<Rightarrow> 'h walk \<Rightarrow> 'h visit_result" where
  "handleRequiredFailure H runId step phase baseCtx lastError i attempt w =
     (let w1 = emit H (step_event StepFailed runId phase step lastError) w;
          ctx = baseCtx\<lparr>cx_attempt := attempt\<rparr>;
          retryAvailable = (used_of (w_triageRetries w1) (st_id step) < MAX_STEP_LOOPBACKS)
      in case h_triageFailure H of
           None \<Rightarrow> required_failed H step phase attempt lastError w1
         | Some triage \<Rightarrow>
             (let (decision, h) = triage step ctx lastError (Some retryAvailable) (w_host w1);
                  w2 = w1\<lparr>w_host := h\<rparr>
              in case decision of
                   None \<Rightarrow> Threw w2
                 | Some TriageRetry \<Rightarrow> triage_retry H step phase i attempt lastError w2
                 | Some TriageEscalate \<Rightarrow> escalate_required H runId step phase ctx lastError i attempt w2
                 | Some TriageFail \<Rightarrow> required_failed H step phase attempt lastError w2))"

end
