(* ===== verification/ReviewLoop.thy ===== *)
theory ReviewLoop
  imports Controller
begin

text \<open>
  The automatic adversarial-review loop of workflowController.ts: reading a completed review
  (\<open>readAdversarialReviewResult\<close>), selecting the round's document (\<open>selectReviewDocument\<close>), asking
  the supervisor (\<open>consultReviewLoop\<close>) and deciding on a lap (\<open>decideReviewLoop\<close>).
\<close>

section \<open>Document selection\<close>

definition blockingIdSet :: "ParsedAdversarialReview \<Rightarrow> string set" where
  "blockingIdSet parsed = set (map (normalizeAdversarialId \<circ> af_id) (pr_blocking parsed))"

definition sameIdSet :: "string set \<Rightarrow> string set \<Rightarrow> bool" where
  "sameIdSet a b \<longleftrightarrow> card a = card b \<and> (\<forall>x \<in> a. x \<in> b)"

datatype VerdictSource = SourceText | SourceArtifact

record ReviewResult =
  rv_index :: "nat option"
  rv_blocking :: bool
  rv_note :: "string option"
  rv_text :: string
  rv_parsed :: ParsedAdversarialReview
  rv_source :: VerdictSource

record SelectedReviewDocument =
  sd_markdown :: "string option"
  sd_parsed :: ParsedAdversarialReview
  sd_fromArtifact :: bool

definition readAdversarialReviewArtifact :: "'h host \<Rightarrow> int option \<Rightarrow> 'h \<Rightarrow> string option" where
  "readAdversarialReviewArtifact H since h =
     (case h_readAdversarialReview H of
        None \<Rightarrow> None
      | Some read \<Rightarrow> (case read since h of Some artifact \<Rightarrow> artifact | None \<Rightarrow> None))"

definition readAdversarialReviewResult ::
  "'h host \<Rightarrow> WorkflowStep \<Rightarrow> WorkflowStep list \<Rightarrow> string option \<Rightarrow> int option \<Rightarrow> 'h \<Rightarrow> ReviewResult option" where
  "readAdversarialReviewResult H step phaseSteps resultText since h =
     (if \<not> is_review_agent step then None
      else
        let target = loopback_index step phaseSteps;
            txt = (case resultText of Some t \<Rightarrow> t | None \<Rightarrow> []);
            verdict = (if trim txt \<noteq> [] then parseCodeReviewVerdict txt else None);
            from_text = \<lparr>rv_index = target, rv_blocking = False, rv_note = None, rv_text = txt,
                         rv_parsed = parseAdversarialReviewDoc (Some txt), rv_source = SourceText\<rparr>
        in if verdict = Some RClean then Some from_text
           else
             let textHasEntries = blockingSectionHasEntries txt
             in if verdict = Some RBlocking \<or> textHasEntries
                then Some (from_text\<lparr>rv_blocking := True,
                             rv_note := (if textHasEntries then extractBlockingSection txt else None)\<rparr>)
                else
                  let artifact = readAdversarialReviewArtifact H since h;
                      parsed = parseAdversarialReviewDoc artifact;
                      from_artifact = from_text\<lparr>rv_parsed := parsed, rv_source := SourceArtifact\<rparr>
                  in if pr_blocking parsed = [] then Some from_artifact
                     else Some (from_artifact\<lparr>rv_blocking := True,
                            rv_note := extractBlockingSection
                              (case artifact of Some a \<Rightarrow> a | None \<Rightarrow> [])\<rparr>))"

definition selectReviewDocument ::
  "'h host \<Rightarrow> ReviewResult \<Rightarrow> int option \<Rightarrow> 'h \<Rightarrow> SelectedReviewDocument" where
  "selectReviewDocument H review since h =
     (let fromText = \<lparr>sd_markdown = (if trim (rv_text review) \<noteq> [] then Some (rv_text review) else None),
                      sd_parsed = rv_parsed review, sd_fromArtifact = False\<rparr>
      in case readAdversarialReviewArtifact H since h of
           None \<Rightarrow> fromText
         | Some artifact \<Rightarrow>
             if trim artifact = [] then fromText
             else
               let artifactParsed = parseAdversarialReviewDoc (Some artifact);
                   fromArtifact = \<lparr>sd_markdown = Some artifact, sd_parsed = artifactParsed,
                                   sd_fromArtifact = True\<rparr>;
                   textIds = blockingIdSet (rv_parsed review)
               in if rv_source review = SourceArtifact \<or> textIds = {} then fromArtifact
                  else if sameIdSet textIds (blockingIdSet artifactParsed) then fromArtifact
                  else fromText)"

section \<open>The lap decision\<close>

datatype LapDecision =
    Lap "ReviewLoopSteering option"
  | NoLap "ControllerEscalation option"

definition consultReviewLoop ::
  "'h host \<Rightarrow> WorkflowStep \<Rightarrow> string \<Rightarrow> nat \<Rightarrow> nat \<Rightarrow> SelectedReviewDocument \<Rightarrow> ReviewLoopPriorRound list
     \<Rightarrow> ControllerStepContext \<Rightarrow> 'h \<Rightarrow> ReviewLoopDecision option \<times> 'h" where
  "consultReviewLoop H step loopbackStepId round used document priorRounds ctx h =
     (case h_adviseReviewLoop H of
        None \<Rightarrow> (None, h)
      | Some advise \<Rightarrow>
          if h_aborted H h then (None, h)
          else
            let (answer, h') = advise
                  \<lparr>rq_stepId = st_id step, rq_loopbackStepId = loopbackStepId, rq_round = round,
                   rq_lapsUsed = used, rq_maxLaps = MAX_REVIEW_AUTO_REVISIONS,
                   rq_reviewMarkdown = truthy (sd_markdown document),
                   rq_parsed = sd_parsed document, rq_priorRounds = priorRounds\<rparr> ctx h
            in (case answer of
                  None \<Rightarrow> (None, h')
                | Some decision \<Rightarrow> ((if h_aborted H h' then None else decision), h')))"

definition decideReviewLoop ::
  "'h host \<Rightarrow> WorkflowStep \<Rightarrow> string \<Rightarrow> nat \<Rightarrow> nat \<Rightarrow> SelectedReviewDocument \<Rightarrow> ReviewLoopPriorRound list
     \<Rightarrow> ControllerStepContext \<Rightarrow> 'h \<Rightarrow> LapDecision \<times> 'h" where
  "decideReviewLoop H step loopbackStepId round used document priorRounds ctx h =
     (if used \<ge> MAX_REVIEW_AUTO_REVISIONS then (NoLap None, h)
      else
        let (decision, h') = consultReviewLoop H step loopbackStepId round used document priorRounds ctx h
        in case decision of
             None \<Rightarrow> ((if used < MAX_REVIEW_MECHANICAL_REVISIONS then Lap None else NoLap None), h')
           | Some (StopVerdict rationale setAside) \<Rightarrow>
               (NoLap (Some \<lparr>es_loopStopRationale = filled rationale,
                             es_setAsideIds = (if setAside = [] then None else Some (map fst setAside))\<rparr>), h')
           | Some (LoopVerdict rationale steering) \<Rightarrow> (Lap (Some steering), h'))"

section \<open>Facts\<close>

lemma sameIdSet_iff: "finite a \<Longrightarrow> finite b \<Longrightarrow> sameIdSet a b \<longleftrightarrow> a = b"
  unfolding sameIdSet_def by (metis card_subset_eq subsetI)

lemma finite_blockingIdSet [simp]: "finite (blockingIdSet p)"
  by (simp add: blockingIdSet_def)

lemma lap_budget:
  assumes "decideReviewLoop H step t round used doc prior ctx h = (Lap s, h')"
  shows "used < MAX_REVIEW_AUTO_REVISIONS"
    and "s = None \<Longrightarrow> used < MAX_REVIEW_MECHANICAL_REVISIONS"
  using assms
  by (auto simp: decideReviewLoop_def split: if_splits prod.splits option.splits ReviewLoopDecision.splits)

lemma review_result_index:
  "readAdversarialReviewResult H step steps txt since h = Some r \<Longrightarrow>
   is_review_agent step \<and> rv_index r = loopback_index step steps"
  by (auto simp: readAdversarialReviewResult_def Let_def split: if_splits)

end
