(* ===== verification/Walk.thy ===== *)
theory Walk
  imports ReviewLoop
begin

text \<open>
  The controller's walk, \<open>WorkflowController.run()\<close> of workflowController.ts: one visit of a step is
  cut into the stages of the loop body, in order; \<open>walk_phase\<close> is the \<open>while (i < n)\<close> loop of a phase
  with its execution bound, and \<open>run\<close> the whole method with its resume target.

  \<open>runFanOut\<close> is a parameter of the walk: a function of the step, its position, the resolved items
  and the part of the walk state it is handed by reference (the systemic-pause counters, the
  give-up latch, the lane-rescue state and the host), which returns whether the run was canceled or
  how many lanes are incomplete.
\<close>

section \<open>The attempt loop\<close>

datatype 'h park =
    ParkRetry "'h walk"
  | ParkAborted "'h walk"
  | ParkFallThrough "'h walk"

definition pause_info :: "WorkflowStep \<Rightarrow> StepRunResult \<Rightarrow> SystemicPauseInfo" where
  "pause_info step result =
     \<lparr>pi_blockedAgentKeys =
        (case truthy (resolveStepAgentKey (st_id step) (st_agent step)) of Some k \<Rightarrow> [k] | None \<Rightarrow> []),
      pi_blockedProvider = truthy (rr_provider result),
      pi_blockedRuntime = truthy (rr_runtime result),
      pi_origin = FromStep, pi_fanOut = False\<rparr>"

definition systemic_park ::
  "'h host \<Rightarrow> WorkflowStep \<Rightarrow> ControllerStepContext \<Rightarrow> StepRunResult \<Rightarrow> 'h walk \<Rightarrow> 'h park" where
  "systemic_park H step ctx result w =
     (case h_awaitSystemicPause H of
        None \<Rightarrow> ParkFallThrough w
      | Some await_pause \<Rightarrow>
          if rr_systemic result = Some True \<and>
             used_of (w_systemicPauses w) (st_id step) < MAX_SYSTEMIC_PAUSES \<and>
             st_id step \<notin> w_systemicGiveUps w
          then
            let w1 = w\<lparr>w_systemicPauses := bump (w_systemicPauses w) (st_id step)\<rparr>;
                (verdict, h) = await_pause step ctx (rr_error result) (pause_info step result) (w_host w1);
                w2 = w1\<lparr>w_host := h\<rparr>
            in if verdict = PauseCanceled \<or> h_aborted H h then ParkAborted w2
               else if verdict = PauseRetry then ParkRetry w2
               else ParkFallThrough (w2\<lparr>w_systemicGiveUps := insert (st_id step) (w_systemicGiveUps w2)\<rparr>)
          else ParkFallThrough w)"

lemma systemic_park_retry:
  "systemic_park H step ctx r w = ParkRetry w' \<Longrightarrow>
   used_of (w_systemicPauses w) (st_id step) < MAX_SYSTEMIC_PAUSES \<and>
   used_of (w_systemicPauses w') (st_id step) = Suc (used_of (w_systemicPauses w) (st_id step))"
  by (auto simp: systemic_park_def Let_def split: option.splits if_splits prod.splits)

lemma systemic_park_fall_through:
  "systemic_park H step ctx r w = ParkFallThrough w' \<Longrightarrow>
   used_of (w_systemicPauses w) (st_id step) \<le> used_of (w_systemicPauses w') (st_id step)"
  by (auto simp: systemic_park_def Let_def split: option.splits if_splits prod.splits)

datatype attempt_end =
    AttemptOk "string option"
  | AttemptAborted
  | AttemptFailed "string option"

text \<open>\<open>while (attempt < maxAttempts)\<close>: a parked attempt that is retried keeps its number.\<close>

function attempt_loop ::
  "'h host \<Rightarrow> WorkflowStep \<Rightarrow> ControllerStepContext \<Rightarrow> nat \<Rightarrow> string option \<Rightarrow> 'h walk
     \<Rightarrow> attempt_end \<times> nat \<times> 'h walk" where
  "attempt_loop H step baseCtx attempt lastError w =
     (if \<not> int attempt < st_retries step + 1 then (AttemptFailed lastError, attempt, w)
      else
        let ctx = baseCtx\<lparr>cx_attempt := attempt + 1\<rparr>;
            (result, h) = h_runStep H step ctx (w_host w);
            w1 = w\<lparr>w_host := h\<rparr>
        in case rr_status result of
             StOk \<Rightarrow> (AttemptOk (rr_resultText result), attempt + 1, w1)
           | StAborted \<Rightarrow> (AttemptAborted, attempt + 1, w1)
           | StFailed \<Rightarrow>
               (case systemic_park H step ctx result w1 of
                  ParkRetry w2 \<Rightarrow> attempt_loop H step baseCtx attempt lastError w2
                | ParkAborted w2 \<Rightarrow> (AttemptAborted, attempt + 1, w2)
                | ParkFallThrough w2 \<Rightarrow> attempt_loop H step baseCtx (attempt + 1) (rr_error result) w2))"
  by pat_completeness auto
termination
proof (relation "measure (\<lambda>(H, step, baseCtx, attempt, lastError, w).
    nat (st_retries step + 1 - int attempt) +
    (MAX_SYSTEMIC_PAUSES - used_of (w_systemicPauses w) (st_id step)))", goal_cases)
  case 1
  then show ?case by simp
next
  case (2 H step baseCtx attempt lastError w ctx x result h w1 w2)
  then show ?case using systemic_park_retry [of H step ctx result w1 w2] by auto
next
  case (3 H step baseCtx attempt lastError w ctx x result h w1 w2)
  then show ?case using systemic_park_fall_through [of H step ctx result w1 w2] by auto
qed

declare attempt_loop.simps [simp del]

text \<open>The proof rule of the loop: an invariant \<open>P\<close> of the attempts gives \<open>Q\<close> of the end.\<close>

lemma attempt_loop_rule:
  assumes exhausted: "\<And>k w e. P k w \<Longrightarrow> \<not> int k < st_retries step + 1 \<Longrightarrow> Q (AttemptFailed e) k w"
    and ran: "\<And>k w r h. P k w \<Longrightarrow> int k < st_retries step + 1 \<Longrightarrow>
        h_runStep H step (ctx\<lparr>cx_attempt := k + 1\<rparr>) (w_host w) = (r, h) \<Longrightarrow>
        (case rr_status r of
           StOk \<Rightarrow> Q (AttemptOk (rr_resultText r)) (k + 1) (w\<lparr>w_host := h\<rparr>)
         | StAborted \<Rightarrow> Q AttemptAborted (k + 1) (w\<lparr>w_host := h\<rparr>)
         | StFailed \<Rightarrow>
             (case systemic_park H step (ctx\<lparr>cx_attempt := k + 1\<rparr>) r (w\<lparr>w_host := h\<rparr>) of
                ParkRetry w2 \<Rightarrow> P k w2
              | ParkAborted w2 \<Rightarrow> Q AttemptAborted (k + 1) w2
              | ParkFallThrough w2 \<Rightarrow> P (k + 1) w2))"
    and "P k w" and "attempt_loop H step ctx k e w = (res, k', w')"
  shows "Q res k' w'"
  using assms(3,4)
proof (induction "nat (st_retries step + 1 - int k) +
    (MAX_SYSTEMIC_PAUSES - used_of (w_systemicPauses w) (st_id step))"
    arbitrary: k e w rule: less_induct)
  case less
  obtain r h where run: "h_runStep H step (ctx\<lparr>cx_attempt := k + 1\<rparr>) (w_host w) = (r, h)" by fastforce
  note eqn = less.prems(2) [unfolded attempt_loop.simps [of H step ctx k e w] Let_def run prod.case]
  let ?park = "systemic_park H step (ctx\<lparr>cx_attempt := k + 1\<rparr>) r (w\<lparr>w_host := h\<rparr>)"
  show ?case
  proof (cases "int k < st_retries step + 1 \<and> rr_status r = StFailed")
    case False
    with eqn ran [OF less.prems(1) _ run] exhausted [OF less.prems(1)] show ?thesis
      by (auto split: if_splits StepRunStatus.splits)
  next
    case True
    note go = ran [OF less.prems(1) _ run]
    show ?thesis
    proof (cases ?park)
      case (ParkRetry w2)
      with True eqn go have "attempt_loop H step ctx k e w2 = (res, k', w')" "P k w2" by simp_all
      then show ?thesis using systemic_park_retry [OF ParkRetry] by (intro less.hyps) auto
    next
      case (ParkAborted w2)
      with True eqn go show ?thesis by simp
    next
      case (ParkFallThrough w2)
      with True eqn go have "attempt_loop H step ctx (k + 1) (rr_error r) w2 = (res, k', w')" "P (k + 1) w2"
        by simp_all
      then show ?thesis
        using systemic_park_fall_through [OF ParkFallThrough] True by (intro less.hyps) auto
    qed
  qed
qed

section \<open>The stages of one visit\<close>

datatype 'h flow =
    Fall "'h walk"
  | Settled "'h visit_result"

fun and_then :: "'h flow \<Rightarrow> ('h walk \<Rightarrow> 'h visit_result) \<Rightarrow> 'h visit_result" where
  "and_then (Fall w) k = k w"
| "and_then (Settled v) k = v"

definition canceled :: "WorkflowStep \<Rightarrow> 'h walk \<Rightarrow> 'h visit_result" where
  "canceled step w = Stop (result_of OutCanceled (Some (st_id step)) w) w"

definition canceled_step :: "'h host \<Rightarrow> WorkflowStep \<Rightarrow> WorkflowPhase \<Rightarrow> nat \<Rightarrow> 'h walk \<Rightarrow> 'h visit_result" where
  "canceled_step H step phase attempts w = canceled step (settle H step phase SoCanceled attempts None RepDone w)"

text \<open>The loop head: a step completed before a restart, and the operator's skip.\<close>

definition head_stage ::
  "'h host \<Rightarrow> WorkflowPhase \<Rightarrow> WorkflowStep \<Rightarrow> nat \<Rightarrow> 'h walk \<Rightarrow> 'h flow" where
  "head_stage H phase step i w =
     (if st_id step \<in> w_remainingCompleted w then Settled (Go (i + 1) w)
      else if h_userSkipped H (w_host w) (st_id step) then
        let w1 = deliberate_skip H step phase 0 ''skipped by operator'' w
        in Settled (Go (i + 1)
             (if isPureHumanGate step then w1\<lparr>w_pendingGateRevision := None, w_escalation := None\<rparr> else w1))
      else Fall w)"

definition checkpoint_stage :: "'h host \<Rightarrow> string \<Rightarrow> WorkflowStep \<Rightarrow> 'h walk \<Rightarrow> 'h flow" where
  "checkpoint_stage H runId step w =
     (case h_awaitBlockingReviewItems H of
        None \<Rightarrow> Fall w
      | Some await_items \<Rightarrow>
          if st_consumesBlockingReviewItems step = Some True then Fall w
          else
            let (gate, h) = await_items runId (w_host w); w1 = w\<lparr>w_host := h\<rparr>
            in if gate = CheckpointCanceled \<or> h_aborted H h then Settled (canceled step w1) else Fall w1)"

definition closing_stage ::
  "'h host \<Rightarrow> WorkflowPhase \<Rightarrow> WorkflowStep \<Rightarrow> nat \<Rightarrow> 'h walk \<Rightarrow> 'h flow" where
  "closing_stage H phase step i w =
     (if \<not> w_skipToHumanGate w then Fall w
      else if isPureHumanGate step \<or> hasTrailingGate step then Fall (w\<lparr>w_skipToHumanGate := False\<rparr>)
      else Settled (Go (i + 1)
             (deliberate_skip H step phase 1
                (''sprint has incomplete or blocked tasks '' @ em_dash @ '' closing stage skipped'') w)))"

text \<open>Open a human gate: the monitor event, the request with the walk's escalation and freshness
  bound, and the escalation consumed. \<open>replace\<close> says whether the caller assigns
  \<open>pendingGateRevision = next.gateRevision\<close> afterwards.\<close>

definition open_gate ::
  "'h host \<Rightarrow> string \<Rightarrow> WorkflowPhase \<Rightarrow> WorkflowStep \<Rightarrow> nat \<Rightarrow> ControllerStepContext \<Rightarrow> nat \<Rightarrow> bool \<Rightarrow> 'h walk \<Rightarrow> 'h visit_result" where
  "open_gate H runId phase step i baseCtx attempts replace w =
     (let w1 = emit H (step_event GateOpened runId phase step None) w;
          (decision, h) = h_requestHumanGate H step
             (baseCtx\<lparr>cx_attempt := attempts, cx_escalation := w_escalation w1,
                      cx_reviewReportedSinceMs := w_reviewReportedSinceMs w1\<rparr>) (w_host w1);
          w2 = w1\<lparr>w_host := h\<rparr>
      in case decision of
           None \<Rightarrow> Threw w2
         | Some d \<Rightarrow>
             (case applyGateDecision H d step phase i attempts (w2\<lparr>w_escalation := None\<rparr>) of
                NextTerminal r w3 \<Rightarrow> Stop r w3
              | NextIndex j revision w3 \<Rightarrow>
                  Go j (if replace then w3\<lparr>w_pendingGateRevision := revision\<rparr> else w3)))"

definition bare_ctx :: "string \<Rightarrow> WorkflowPhase \<Rightarrow> nat \<Rightarrow> ControllerStepContext" where
  "bare_ctx runId phase i =
     \<lparr>cx_runId = runId, cx_phaseId = ph_id phase, cx_stepIndex = i, cx_attempt = 1, cx_gateRevision = None,
      cx_escalation = None, cx_reviewReportedSinceMs = None, cx_priorStepOutput = None\<rparr>"

datatype FanOutResult = FanTerminal | FanSettled nat

type_synonym 'h fan_state = "counter \<times> string set \<times> LaneRescueState \<times> 'h"

type_synonym 'h fan_out =
  "string \<Rightarrow> WorkflowStep \<Rightarrow> ControllerStepContext \<Rightarrow> string list \<Rightarrow> 'h fan_state \<Rightarrow> FanOutResult \<times> 'h fan_state"

definition resolved_items :: "'h host \<Rightarrow> string \<Rightarrow> WorkflowStep \<Rightarrow> 'h \<Rightarrow> string list" where
  "resolved_items H runId step h =
     (case (st_fanOut step, h_resolveItems H) of
        (Some fo, Some resolve) \<Rightarrow> (case resolve runId (fo_over fo) h of Some items \<Rightarrow> items | None \<Rightarrow> [])
      | _ \<Rightarrow> [])"

definition fanout_stage ::
  "'h host \<Rightarrow> 'h fan_out \<Rightarrow> string \<Rightarrow> WorkflowPhase \<Rightarrow> WorkflowStep \<Rightarrow> nat \<Rightarrow> 'h walk \<Rightarrow> 'h flow" where
  "fanout_stage H runFanOut runId phase step i w =
     (let items = resolved_items H runId step (w_host w)
      in if items = [] then Fall w
         else
           let w1 = reportStep H (st_id step) RepRunning w;
               (res, pauses, giveUps, rescues, h) =
                 runFanOut runId step (bare_ctx runId phase i) items
                   (w_systemicPauses w1, w_systemicGiveUps w1, w_laneRescues w1, w_host w1);
               w2 = w1\<lparr>w_systemicPauses := pauses, w_systemicGiveUps := giveUps, w_laneRescues := rescues,
                       w_host := h\<rparr>
           in case res of
                FanTerminal \<Rightarrow> Settled (canceled_step H step phase 1 w2)
              | FanSettled incomplete \<Rightarrow>
                  let w3 = (if incomplete > 0 then w2\<lparr>w_skipToHumanGate := True\<rparr> else w2)
                  in Settled
                       (if hasTrailingGate step
                        then open_gate H runId phase step i (bare_ctx runId phase i) 1 False w3
                        else Go (i + 1) (settle H step phase SoDone 1 None RepDone w3)))"

definition optional_gate_stage ::
  "'h host \<Rightarrow> string \<Rightarrow> WorkflowPhase \<Rightarrow> WorkflowStep \<Rightarrow> nat \<Rightarrow> 'h walk \<Rightarrow> 'h flow" where
  "optional_gate_stage H runId phase step i w =
     (if \<not> (isPureHumanGate step \<and> is_optional step) then Fall w
      else case h_shouldSkipHumanGate H of
             None \<Rightarrow> Fall w
           | Some should_skip \<Rightarrow>
               let (answer, h) = should_skip step runId (w_reviewReportedSinceMs w) (w_host w);
                   w1 = w\<lparr>w_host := h\<rparr>
               in (case answer of
                     Some (Some reason) \<Rightarrow>
                       Settled (Go (i + 1)
                         ((deliberate_skip H step phase 0 reason w1)
                            \<lparr>w_pendingGateRevision := None, w_escalation := None\<rparr>))
                   | _ \<Rightarrow> Fall w1))"

section \<open>A completed agent step\<close>

definition add_prior_round :: "string \<Rightarrow> ReviewLoopPriorRound \<Rightarrow> 'h walk \<Rightarrow> 'h walk" where
  "add_prior_round stepId r w =
     w\<lparr>w_priorRounds := (w_priorRounds w)(stepId \<mapsto>
          (case w_priorRounds w stepId of None \<Rightarrow> [] | Some rs \<Rightarrow> rs) @ [r])\<rparr>"

definition lap_revision ::
  "WorkflowStep \<Rightarrow> nat \<Rightarrow> ReviewResult \<Rightarrow> SelectedReviewDocument \<Rightarrow> ReviewLoopSteering option \<Rightarrow> GateRevision" where
  "lap_revision step round review document steering =
     \<lparr>gr_gateStepId = st_id step, gr_note = rv_note review, gr_source = Some FromAdversarialReview,
      gr_round = Some round, gr_steering = steering,
      gr_reviewMarkdown = (if sd_fromArtifact document then None else sd_markdown document),
      gr_reviewReportedSinceMs = None\<rparr>"

definition take_lap ::
  "'h host \<Rightarrow> WorkflowPhase \<Rightarrow> WorkflowStep \<Rightarrow> nat \<Rightarrow> nat \<Rightarrow> GateRevision \<Rightarrow> 'h walk \<Rightarrow> 'h visit_result" where
  "take_lap H phase step target attempt revision w =
     (let w1 = settle H step phase SoDone attempt None RepDone
                 (w\<lparr>w_reviewAutoRevisions := bump (w_reviewAutoRevisions w) (st_id step)\<rparr>)
      in Go target
           (w1\<lparr>w_remainingCompleted := clearCompletedFrom (w_remainingCompleted w1) (ph_steps phase) target,
               w_pendingGateRevision := Some revision\<rparr>))"

definition review_stage ::
  "'h host \<Rightarrow> WorkflowPhase \<Rightarrow> WorkflowStep \<Rightarrow> ControllerStepContext \<Rightarrow> nat \<Rightarrow> string option \<Rightarrow> 'h walk \<Rightarrow> 'h flow" where
  "review_stage H phase step baseCtx attempt okText w =
     (case readAdversarialReviewResult H step (ph_steps phase) okText (w_reviewReportedSinceMs w) (w_host w) of
        None \<Rightarrow> Fall w
      | Some review \<Rightarrow>
          let round = used_of (w_reviewRounds w) (st_id step) + 1;
              earlier = (case w_priorRounds w (st_id step) of None \<Rightarrow> [] | Some rs \<Rightarrow> rs);
              document = selectReviewDocument H review (w_reviewReportedSinceMs w) (w_host w);
              ledger = (if rv_blocking review then sd_parsed document else rv_parsed review);
              w1 = add_prior_round (st_id step)
                     \<lparr>rl_round = round, rl_blockingIds = map af_id (pr_blocking ledger),
                      rl_blockingTitles = map af_title (pr_blocking ledger)\<rparr>
                     (w\<lparr>w_reviewRounds := bump (w_reviewRounds w) (st_id step)\<rparr>)
          in (case rv_index review of
                None \<Rightarrow> Fall w1
              | Some target \<Rightarrow>
                  if \<not> rv_blocking review then Fall w1
                  else
                    let (decision, h) =
                          decideReviewLoop H step (st_id (ph_steps phase ! target)) round
                            (used_of (w_reviewAutoRevisions w1) (st_id step)) document earlier
                            (baseCtx\<lparr>cx_attempt := attempt\<rparr>) (w_host w1);
                        w2 = w1\<lparr>w_host := h\<rparr>
                    in (case decision of
                          Lap steering \<Rightarrow>
                            Settled (take_lap H phase step target attempt
                              (lap_revision step round review document steering) w2)
                        | NoLap None \<Rightarrow> Fall w2
                        | NoLap (Some e) \<Rightarrow> Fall (w2\<lparr>w_escalation := Some e\<rparr>))))"

definition record_output :: "WorkflowStep \<Rightarrow> string option \<Rightarrow> 'h walk \<Rightarrow> 'h walk" where
  "record_output step okText w =
     w\<lparr>w_priorAgentOutput := Some
         \<lparr>po_stepId = st_id step, po_name = st_name step,
          po_text = (case okText of Some t \<Rightarrow> if trim t \<noteq> [] then Some t else None | None \<Rightarrow> None)\<rparr>\<rparr>"

definition step_succeeded ::
  "'h host \<Rightarrow> string \<Rightarrow> WorkflowPhase \<Rightarrow> WorkflowStep \<Rightarrow> nat \<Rightarrow> ControllerStepContext \<Rightarrow> nat \<Rightarrow> string option
     \<Rightarrow> 'h walk \<Rightarrow> 'h visit_result" where
  "step_succeeded H runId phase step i baseCtx attempt okText w =
     and_then (review_stage H phase step baseCtx attempt okText (record_output step okText w))
       (\<lambda>w1. if hasTrailingGate step
             then open_gate H runId phase step i baseCtx attempt True w1
             else Go (i + 1) (settle H step phase SoDone attempt None RepDone w1))"

section \<open>A failed agent step\<close>

definition optional_failed ::
  "'h host \<Rightarrow> WorkflowPhase \<Rightarrow> WorkflowStep \<Rightarrow> nat \<Rightarrow> ControllerStepContext \<Rightarrow> nat \<Rightarrow> string option
     \<Rightarrow> 'h walk \<Rightarrow> 'h visit_result" where
  "optional_failed H phase step i baseCtx attempt lastError w =
     (let skip = (\<lambda>w'. Go (i + 1) (settle H step phase SoSkipped attempt lastError RepSkipped w'))
      in case h_triageFailure H of
           None \<Rightarrow> skip w
         | Some triage \<Rightarrow>
             if used_of (w_optionalTriageRetries w) (st_id step) < MAX_OPTIONAL_TRIAGE_RETRIES
             then
               let (decision, h) = triage step (baseCtx\<lparr>cx_attempt := attempt\<rparr>) lastError None (w_host w);
                   w1 = w\<lparr>w_host := h\<rparr>
               in if decision = Some TriageRetry
                  then Go i (reportStep H (st_id step) RepDone
                         (w1\<lparr>w_optionalTriageRetries := bump (w_optionalTriageRetries w1) (st_id step)\<rparr>))
                  else skip w1
             else skip w)"

definition step_failed ::
  "'h host \<Rightarrow> string \<Rightarrow> WorkflowPhase \<Rightarrow> WorkflowStep \<Rightarrow> nat \<Rightarrow> ControllerStepContext \<Rightarrow> nat \<Rightarrow> string option
     \<Rightarrow> 'h walk \<Rightarrow> 'h visit_result" where
  "step_failed H runId phase step i baseCtx attempt lastError w =
     (if is_optional step then optional_failed H phase step i baseCtx attempt lastError w
      else case tryLoopback step (ph_steps phase) (w_loopbacks w) of
             Some (target, counts) \<Rightarrow>
               let w1 = reportStep H (st_id step) RepDone (w\<lparr>w_loopbacks := counts\<rparr>)
               in Go target (w1\<lparr>w_remainingCompleted :=
                      clearCompletedFrom (w_remainingCompleted w1) (ph_steps phase) target\<rparr>)
           | None \<Rightarrow> handleRequiredFailure H runId step phase baseCtx lastError i attempt w)"

section \<open>The visit\<close>

definition agent_step ::
  "'h host \<Rightarrow> string \<Rightarrow> WorkflowPhase \<Rightarrow> WorkflowStep \<Rightarrow> nat \<Rightarrow> ControllerStepContext \<Rightarrow> 'h walk \<Rightarrow> 'h visit_result" where
  "agent_step H runId phase step i baseCtx w =
     (let w1 = (if is_review_agent step then w\<lparr>w_reviewReportedSinceMs := Some (h_now H (w_host w))\<rparr> else w);
          (outcome, attempt, w2) = attempt_loop H step baseCtx 0 None w1
      in if outcome = AttemptAborted \<or> h_aborted H (w_host w2) then canceled_step H step phase attempt w2
         else case outcome of
                AttemptOk okText \<Rightarrow> step_succeeded H runId phase step i baseCtx attempt okText w2
              | AttemptFailed lastError \<Rightarrow> step_failed H runId phase step i baseCtx attempt lastError w2
              | AttemptAborted \<Rightarrow> canceled_step H step phase attempt w2)"

definition base_ctx :: "string \<Rightarrow> WorkflowPhase \<Rightarrow> WorkflowStep \<Rightarrow> nat \<Rightarrow> 'h walk \<Rightarrow> ControllerStepContext" where
  "base_ctx runId phase step i w =
     (bare_ctx runId phase i)\<lparr>cx_gateRevision := w_pendingGateRevision w,
        cx_priorStepOutput :=
          (if st_consumesPriorStepOutput step = Some True then w_priorAgentOutput w else None)\<rparr>"

definition run_stage ::
  "'h host \<Rightarrow> string \<Rightarrow> WorkflowPhase \<Rightarrow> WorkflowStep \<Rightarrow> nat \<Rightarrow> 'h walk \<Rightarrow> 'h visit_result" where
  "run_stage H runId phase step i w =
     (let ctx = base_ctx runId phase step i w;
          w1 = reportStep H (st_id step) RepRunning w
      in if isPureHumanGate step then open_gate H runId phase step i ctx 1 True w1
         else agent_step H runId phase step i ctx w1)"

definition visit ::
  "'h host \<Rightarrow> 'h fan_out \<Rightarrow> string \<Rightarrow> WorkflowPhase \<Rightarrow> nat \<Rightarrow> 'h walk \<Rightarrow> 'h visit_result" where
  "visit H runFanOut runId phase i w =
     (let step = ph_steps phase ! i in
      and_then (head_stage H phase step i w) (\<lambda>w1.
      and_then (checkpoint_stage H runId step w1) (\<lambda>w2.
      and_then (closing_stage H phase step i w2) (\<lambda>w3.
      and_then (fanout_stage H runFanOut runId phase step i w3) (\<lambda>w4.
      and_then (optional_gate_stage H runId phase step i w4) (\<lambda>w5.
        run_stage H runId phase step i w5))))))"

section \<open>Walking a phase and a definition\<close>

definition maxExecutions :: "nat \<Rightarrow> nat" where
  "maxExecutions n = (2 * MAX_STEP_LOOPBACKS * n + 1) * n + n + 1"

datatype 'h walk_end =
    PhaseDone "'h walk"
  | Finished ControllerResult "'h walk"
  | BoundExceeded string "'h walk"
  | HostThrew "'h walk"

definition run_event :: "SupervisorEventKind \<Rightarrow> string \<Rightarrow> ControllerOutcome option \<Rightarrow> string option \<Rightarrow> SupervisorEvent" where
  "run_event kind runId outcome stepId =
     \<lparr>ev_kind = kind, ev_runId = runId, ev_phaseId = None, ev_stepId = stepId, ev_outcome = outcome,
      ev_error = None\<rparr>"

definition finish :: "'h host \<Rightarrow> string \<Rightarrow> ControllerResult \<Rightarrow> 'h walk \<Rightarrow> 'h walk_end" where
  "finish H runId result w =
     Finished result (emit H (run_event RunFinished runId (Some (cr_outcome result)) (cr_failedStepId result)) w)"

function walk_phase ::
  "'h host \<Rightarrow> 'h fan_out \<Rightarrow> string \<Rightarrow> WorkflowPhase \<Rightarrow> nat \<Rightarrow> nat \<Rightarrow> 'h walk \<Rightarrow> 'h walk_end" where
  "walk_phase H F runId phase executions i w =
     (let n = length (ph_steps phase) in
      if \<not> i < n then PhaseDone w
      else if h_aborted H (w_host w)
      then finish H runId (result_of OutCanceled (Some (st_id (ph_steps phase ! i))) w) w
      else if executions + 1 > maxExecutions n
      then BoundExceeded (ph_id phase)
             (emit H (run_event RunFinished runId (Some OutFailed) (Some (st_id (ph_steps phase ! i)))) w)
      else case visit H F runId phase i w of
             Go j w' \<Rightarrow> walk_phase H F runId phase (executions + 1) j w'
           | Stop r w' \<Rightarrow> finish H runId r w'
           | Threw w' \<Rightarrow> HostThrew w')"
  by pat_completeness auto
termination
  by (relation "measure (\<lambda>(H, F, runId, phase, executions, i, w).
        maxExecutions (length (ph_steps phase)) - executions)") auto

declare walk_phase.simps [simp del]

fun walk_phases ::
  "'h host \<Rightarrow> 'h fan_out \<Rightarrow> string \<Rightarrow> WorkflowPhase list \<Rightarrow> nat \<Rightarrow> 'h walk \<Rightarrow> 'h walk_end" where
  "walk_phases H F runId [] start w = finish H runId (result_of OutCompleted None w) w"
| "walk_phases H F runId (p # ps) start w =
     (case walk_phase H F runId p 0 start w of
        PhaseDone w' \<Rightarrow> walk_phases H F runId ps 0 w'
      | r \<Rightarrow> r)"

definition reviewStepIds :: "WorkflowDefinition \<Rightarrow> string list" where
  "reviewStepIds def = map st_id (filter is_review_agent (concat (map ph_steps (wd_phases def))))"

definition init_walk :: "'h host \<Rightarrow> WorkflowDefinition \<Rightarrow> string set \<Rightarrow> 'h \<Rightarrow> 'h walk" where
  "init_walk H def completed h =
     \<lparr>w_steps = [], w_loopbacks = Map.empty, w_triageRetries = Map.empty,
      w_optionalTriageRetries = Map.empty, w_systemicPauses = Map.empty, w_systemicGiveUps = {},
      w_laneRescues = newLaneRescueState, w_pendingGateRevision = None,
      w_reviewAutoRevisions = Map.empty, w_reviewRounds = Map.empty, w_priorRounds = Map.empty,
      w_reviewReportedSinceMs =
        (if list_ex (\<lambda>x. x \<in> completed) (reviewStepIds def) then None else Some (h_now H h)),
      w_escalation = None, w_priorAgentOutput = None, w_remainingCompleted = completed,
      w_skipToHumanGate = False, w_host = h\<rparr>"

fun resume_target :: "string \<Rightarrow> WorkflowPhase list \<Rightarrow> (nat \<times> nat) option" where
  "resume_target stepId [] = None"
| "resume_target stepId (p # ps) =
     (case find_index (\<lambda>s. st_id s = stepId) (ph_steps p) of
        Some s \<Rightarrow> Some (0, s)
      | None \<Rightarrow> map_option (\<lambda>(a, b). (Suc a, b)) (resume_target stepId ps))"

definition resume_point :: "string option \<Rightarrow> WorkflowPhase list \<Rightarrow> nat \<times> nat" where
  "resume_point resumeFrom phases =
     (case resumeFrom of
        Some stepId \<Rightarrow>
          if stepId = [] then (0, 0)
          else (case resume_target stepId phases of Some t \<Rightarrow> t | None \<Rightarrow> (0, 0))
      | None \<Rightarrow> (0, 0))"

definition run ::
  "'h host \<Rightarrow> 'h fan_out \<Rightarrow> string \<Rightarrow> WorkflowDefinition \<Rightarrow> string option \<Rightarrow> string set \<Rightarrow> 'h \<Rightarrow> 'h walk_end" where
  "run H runFanOut runId def resumeFrom completed h =
     (let (skip, start) = resume_point resumeFrom (wd_phases def)
      in walk_phases H runFanOut runId (drop skip (wd_phases def)) start
           (emit H (run_event RunStarted runId None None) (init_walk H def completed h)))"

end
