(* ===== verification/WalkSpec.thy ===== *)
theory WalkSpec
  imports Walk
begin

text \<open>
  An abstract specification of the walk and the proof that the controller implements it.

  The specification machine sees the position in the phase, the four budget counters, the resume
  skip set and the reports, and nothing of the host: every answer of the host is a choice between
  rules. \<open>spec_step\<close> is one visit that goes on, \<open>spec_stop\<close> one that ends the run. The refinement
  lemmas \<open>visit_refines_step\<close> and \<open>visit_refines_stop\<close> say that a visit of the modelled controller is
  a step of the machine, whatever the host does; the invariants of the machine are then invariants
  of the walk.
\<close>

section \<open>The machine\<close>

record astate =
  a_index :: nat
  a_loopbacks :: counter
  a_triage :: counter
  a_optional :: counter
  a_laps :: counter
  a_completed :: "string set"
  a_steps :: "StepReport list"

definition abs_walk :: "nat \<Rightarrow> 'h walk \<Rightarrow> astate" where
  "abs_walk i w =
     \<lparr>a_index = i, a_loopbacks = w_loopbacks w, a_triage = w_triageRetries w,
      a_optional = w_optionalTriageRetries w, a_laps = w_reviewAutoRevisions w,
      a_completed = w_remainingCompleted w, a_steps = w_steps w\<rparr>"

definition report_on :: "WorkflowPhase \<Rightarrow> nat \<Rightarrow> StepOutcome \<Rightarrow> StepReport \<Rightarrow> bool" where
  "report_on phase i outcome r \<longleftrightarrow>
     sr_stepId r = st_id (ph_steps phase ! i) \<and> sr_phaseId r = ph_id phase \<and> sr_outcome r = outcome"

text \<open>Jump to \<open>j\<close>: the position moves and the region from \<open>j\<close> on leaves the skip set.\<close>

definition jump :: "WorkflowPhase \<Rightarrow> nat \<Rightarrow> astate \<Rightarrow> astate" where
  "jump phase j s = s\<lparr>a_index := j, a_completed := clearCompletedFrom (a_completed s) (ph_steps phase) j\<rparr>"

inductive spec_step :: "WorkflowPhase \<Rightarrow> astate \<Rightarrow> astate \<Rightarrow> bool" for phase where
  sp_resumed:
    "spec_step phase s (s\<lparr>a_index := Suc (a_index s)\<rparr>)"
    if "st_id (ph_steps phase ! a_index s) \<in> a_completed s"
| sp_settled:
    "spec_step phase s (s\<lparr>a_index := Suc (a_index s), a_steps := a_steps s @ [r]\<rparr>)"
    if "st_id (ph_steps phase ! a_index s) \<notin> a_completed s"
    and "report_on phase (a_index s) SoDone r \<or> report_on phase (a_index s) SoSkipped r"
| sp_revise:
    "spec_step phase s
       (jump phase (case loopback_index step (ph_steps phase) of Some t \<Rightarrow> t | None \<Rightarrow> a_index s)
          (s\<lparr>a_loopbacks := bump (a_loopbacks s) (st_id step), a_steps := a_steps s @ [r]\<rparr>))"
    if "step = ph_steps phase ! a_index s" and "isPureHumanGate step \<or> hasTrailingGate step"
    and "used_of (a_loopbacks s) (st_id step) < MAX_STEP_LOOPBACKS"
    and "report_on phase (a_index s) SoDone r"
| sp_loopback:
    "spec_step phase s (jump phase t (s\<lparr>a_loopbacks := bump (a_loopbacks s) (st_id step)\<rparr>))"
    if "step = ph_steps phase ! a_index s" and "\<not> is_optional step"
    and "loopback_index step (ph_steps phase) = Some t"
    and "used_of (a_loopbacks s) (st_id step) < MAX_STEP_LOOPBACKS"
| sp_triage:
    "spec_step phase s (s\<lparr>a_triage := bump (a_triage s) (st_id step)\<rparr>)"
    if "step = ph_steps phase ! a_index s" and "\<not> is_optional step"
    and "used_of (a_triage s) (st_id step) < MAX_STEP_LOOPBACKS"
| sp_optional:
    "spec_step phase s (s\<lparr>a_optional := bump (a_optional s) (st_id step)\<rparr>)"
    if "step = ph_steps phase ! a_index s" and "is_optional step"
    and "used_of (a_optional s) (st_id step) < MAX_OPTIONAL_TRIAGE_RETRIES"
| sp_lap:
    "spec_step phase s
       (jump phase t (s\<lparr>a_laps := bump (a_laps s) (st_id step), a_steps := a_steps s @ [r]\<rparr>))"
    if "step = ph_steps phase ! a_index s" and "is_review_agent step"
    and "loopback_index step (ph_steps phase) = Some t"
    and "used_of (a_laps s) (st_id step) < MAX_REVIEW_AUTO_REVISIONS"
    and "report_on phase (a_index s) SoDone r"

text \<open>A run ends canceled, with or without a report on the step; rejected at a gate; or failed on a
  required step. The result names the step and carries every report.\<close>

inductive spec_stop :: "WorkflowPhase \<Rightarrow> astate \<Rightarrow> ControllerResult \<Rightarrow> bool" for phase where
  ss_parked:
    "spec_stop phase s \<lparr>cr_outcome = OutCanceled, cr_steps = a_steps s,
       cr_failedStepId = Some (st_id (ph_steps phase ! a_index s))\<rparr>"
| ss_canceled:
    "spec_stop phase s \<lparr>cr_outcome = OutCanceled, cr_steps = a_steps s @ [r],
       cr_failedStepId = Some (st_id (ph_steps phase ! a_index s))\<rparr>"
    if "report_on phase (a_index s) SoCanceled r"
| ss_rejected:
    "spec_stop phase s \<lparr>cr_outcome = OutRejected, cr_steps = a_steps s @ [r],
       cr_failedStepId = Some (st_id (ph_steps phase ! a_index s))\<rparr>"
    if "isPureHumanGate (ph_steps phase ! a_index s) \<or> hasTrailingGate (ph_steps phase ! a_index s)"
    and "report_on phase (a_index s) SoRejected r"
| ss_failed:
    "spec_stop phase s \<lparr>cr_outcome = OutFailed, cr_steps = a_steps s @ [r],
       cr_failedStepId = Some (st_id (ph_steps phase ! a_index s))\<rparr>"
    if "\<not> is_optional (ph_steps phase ! a_index s)" and "report_on phase (a_index s) SoFailed r"

section \<open>What the effects do to the abstract state\<close>

named_theorems abs_simps \<open>how the walk's effects act on the abstract state\<close>

lemma abs_host [abs_simps]: "abs_walk i (w\<lparr>w_host := h\<rparr>) = abs_walk i w"
  by (simp add: abs_walk_def)

lemma abs_reportStep [abs_simps]: "abs_walk i (reportStep H x st w) = abs_walk i w"
  by (simp add: reportStep_def abs_host)

lemma abs_emit [abs_simps]: "abs_walk i (emit H e w) = abs_walk i w"
  by (simp add: emit_def abs_host split: option.splits)

lemma abs_pushStep [abs_simps]:
  "abs_walk i (pushStep H r w) = (abs_walk i w)\<lparr>a_steps := w_steps w @ [r]\<rparr>"
  by (simp add: pushStep_def abs_walk_def Let_def split: option.splits)

lemma abs_settle [abs_simps]:
  "abs_walk i (settle H step phase so k e st w) =
     (abs_walk i w)\<lparr>a_steps := w_steps w @ [mk_report step phase so k e]\<rparr>"
  by (simp add: settle_def abs_simps)

lemma abs_deliberate_skip [abs_simps]:
  "abs_walk i (deliberate_skip H step phase k reason w) =
     (abs_walk i w)\<lparr>a_steps := w_steps w @
        [(mk_report step phase SoSkipped k (Some reason))\<lparr>sr_deliberate := Some True\<rparr>]\<rparr>"
  by (simp add: deliberate_skip_def abs_simps)

lemma abs_irrelevant [abs_simps]:
  "abs_walk i (w\<lparr>w_systemicPauses := c\<rparr>) = abs_walk i w"
  "abs_walk i (w\<lparr>w_systemicGiveUps := g\<rparr>) = abs_walk i w"
  "abs_walk i (w\<lparr>w_laneRescues := l\<rparr>) = abs_walk i w"
  "abs_walk i (w\<lparr>w_pendingGateRevision := p\<rparr>) = abs_walk i w"
  "abs_walk i (w\<lparr>w_reviewRounds := c\<rparr>) = abs_walk i w"
  "abs_walk i (w\<lparr>w_priorRounds := q\<rparr>) = abs_walk i w"
  "abs_walk i (w\<lparr>w_reviewReportedSinceMs := m\<rparr>) = abs_walk i w"
  "abs_walk i (w\<lparr>w_escalation := e\<rparr>) = abs_walk i w"
  "abs_walk i (w\<lparr>w_priorAgentOutput := po\<rparr>) = abs_walk i w"
  "abs_walk i (w\<lparr>w_skipToHumanGate := b\<rparr>) = abs_walk i w"
  by (simp_all add: abs_walk_def)

lemma abs_counters [abs_simps]:
  "abs_walk i (w\<lparr>w_loopbacks := c\<rparr>) = (abs_walk i w)\<lparr>a_loopbacks := c\<rparr>"
  "abs_walk i (w\<lparr>w_triageRetries := c\<rparr>) = (abs_walk i w)\<lparr>a_triage := c\<rparr>"
  "abs_walk i (w\<lparr>w_optionalTriageRetries := c\<rparr>) = (abs_walk i w)\<lparr>a_optional := c\<rparr>"
  "abs_walk i (w\<lparr>w_reviewAutoRevisions := c\<rparr>) = (abs_walk i w)\<lparr>a_laps := c\<rparr>"
  "abs_walk i (w\<lparr>w_remainingCompleted := s\<rparr>) = (abs_walk i w)\<lparr>a_completed := s\<rparr>"
  by (simp_all add: abs_walk_def)

lemma abs_fields [simp]:
  "a_index (abs_walk i w) = i" "a_loopbacks (abs_walk i w) = w_loopbacks w"
  "a_triage (abs_walk i w) = w_triageRetries w" "a_optional (abs_walk i w) = w_optionalTriageRetries w"
  "a_laps (abs_walk i w) = w_reviewAutoRevisions w" "a_completed (abs_walk i w) = w_remainingCompleted w"
  "a_steps (abs_walk i w) = w_steps w"
  by (simp_all add: abs_walk_def)

lemma abs_reindex: "abs_walk j w = (abs_walk i w)\<lparr>a_index := j\<rparr>"
  by (simp add: abs_walk_def)

lemma abs_same_fields:
  assumes "abs_walk i w' = abs_walk i w"
  shows "w_loopbacks w' = w_loopbacks w" "w_triageRetries w' = w_triageRetries w"
    "w_optionalTriageRetries w' = w_optionalTriageRetries w"
    "w_reviewAutoRevisions w' = w_reviewAutoRevisions w"
    "w_remainingCompleted w' = w_remainingCompleted w" "w_steps w' = w_steps w"
  using assms by (simp_all add: abs_walk_def)

lemma report_on_mk [simp]:
  "report_on phase i so (mk_report (ph_steps phase ! i) phase so' k e) \<longleftrightarrow> so = so'"
  "report_on phase i so ((mk_report (ph_steps phase ! i) phase so' k e)\<lparr>sr_deliberate := d\<rparr>) \<longleftrightarrow> so = so'"
  by (auto simp: report_on_def mk_report_def)

section \<open>Refinement\<close>

definition visit_ok :: "WorkflowPhase \<Rightarrow> nat \<Rightarrow> 'h walk \<Rightarrow> 'h visit_result \<Rightarrow> bool" where
  "visit_ok phase i w v =
     (case v of
        Go j w' \<Rightarrow> spec_step phase (abs_walk i w) (abs_walk j w')
      | Stop r w' \<Rightarrow> spec_stop phase (abs_walk i w) r
      | Threw w' \<Rightarrow> True)"

definition flow_ok :: "WorkflowPhase \<Rightarrow> nat \<Rightarrow> 'h walk \<Rightarrow> 'h flow \<Rightarrow> bool" where
  "flow_ok phase i w f =
     (case f of
        Fall w' \<Rightarrow> abs_walk i w' = abs_walk i w
      | Settled v \<Rightarrow> visit_ok phase i w v)"

lemma visit_ok_cong: "abs_walk i w' = abs_walk i w \<Longrightarrow> visit_ok phase i w' v = visit_ok phase i w v"
  by (cases v) (simp_all add: visit_ok_def)

lemma visit_ok_Threw [simp]: "visit_ok phase i w (Threw w')"
  by (simp add: visit_ok_def)

lemma and_then_ok:
  assumes "flow_ok phase i w f"
    and "\<And>w'. f = Fall w' \<Longrightarrow> abs_walk i w' = abs_walk i w \<Longrightarrow> visit_ok phase i w' (k w')"
  shows "visit_ok phase i w (and_then f k)"
proof (cases f)
  case (Fall w')
  with assms(1) have same: "abs_walk i w' = abs_walk i w" by (simp add: flow_ok_def)
  from assms(2) [OF Fall same] Fall show ?thesis by (simp add: visit_ok_cong [OF same])
next
  case (Settled v)
  with assms show ?thesis by (simp add: flow_ok_def)
qed

lemma go_settled:
  assumes "st_id (ph_steps phase ! i) \<notin> w_remainingCompleted w"
    and "report_on phase i SoDone r \<or> report_on phase i SoSkipped r"
    and "abs_walk (Suc i) w' = (abs_walk (Suc i) w)\<lparr>a_steps := w_steps w @ [r]\<rparr>"
  shows "visit_ok phase i w (Go (Suc i) w')"
  using assms sp_settled [of phase "abs_walk i w" r]
  by (simp add: visit_ok_def abs_reindex [of "Suc i" w i])

lemma stop_with_report:
  assumes "abs_walk i w' = (abs_walk i w)\<lparr>a_steps := w_steps w @ [r]\<rparr>"
    and "spec_stop phase (abs_walk i w) \<lparr>cr_outcome = co, cr_steps = w_steps w @ [r],
           cr_failedStepId = Some (st_id (ph_steps phase ! i))\<rparr>"
  shows "visit_ok phase i w (Stop (result_of co (Some (st_id (ph_steps phase ! i))) w') w')"
  using assms(2) arg_cong [OF assms(1), of a_steps]
  by (simp add: visit_ok_def result_of_def)

lemma canceled_step_ok: "visit_ok phase i w (canceled_step H (ph_steps phase ! i) phase k w)"
  unfolding canceled_step_def canceled_def
  using ss_canceled [of phase "abs_walk i w" "mk_report (ph_steps phase ! i) phase SoCanceled k None"]
  by (intro stop_with_report) (simp_all add: abs_simps)

lemma required_failed_ok:
  assumes "\<not> is_optional (ph_steps phase ! i)"
  shows "visit_ok phase i w (required_failed H (ph_steps phase ! i) phase k e w)"
  unfolding required_failed_def Let_def
  using assms ss_failed [of phase "abs_walk i w" "mk_report (ph_steps phase ! i) phase SoFailed k e"]
  by (intro stop_with_report) (simp_all add: abs_simps)

lemma triage_retry_ok:
  assumes "\<not> is_optional (ph_steps phase ! i)"
  shows "visit_ok phase i w (triage_retry H (ph_steps phase ! i) phase i k e w)"
  using assms sp_triage [of _ phase "abs_walk i w"]
  by (simp add: triage_retry_def required_failed_ok) (simp add: visit_ok_def abs_simps)

lemma go_settle:
  assumes "st_id (ph_steps phase ! i) \<notin> w_remainingCompleted w" and "so = SoDone \<or> so = SoSkipped"
  shows "visit_ok phase i w (Go (Suc i) (settle H (ph_steps phase ! i) phase so k e st w))"
  by (rule go_settled [OF assms(1), of "mk_report (ph_steps phase ! i) phase so k e"])
     (use assms(2) in \<open>auto simp: abs_simps\<close>)

definition next_ok :: "WorkflowPhase \<Rightarrow> nat \<Rightarrow> 'h walk \<Rightarrow> 'h next_step \<Rightarrow> bool" where
  "next_ok phase i w nxt =
     (case nxt of
        NextTerminal r w' \<Rightarrow> visit_ok phase i w (Stop r w')
      | NextIndex j g w' \<Rightarrow> visit_ok phase i w (Go j w'))"

lemma gate_terminal_ok:
  assumes "so = SoCanceled \<and> co = OutCanceled \<or>
         so = SoRejected \<and> co = OutRejected \<and>
           (isPureHumanGate (ph_steps phase ! i) \<or> hasTrailingGate (ph_steps phase ! i))"
  shows "next_ok phase i w (gate_terminal H (ph_steps phase ! i) phase so co k w)"
proof -
  let ?r = "mk_report (ph_steps phase ! i) phase so k None"
  let ?w = "settle H (ph_steps phase ! i) phase so k None RepDone w"
  have "abs_walk i ?w = (abs_walk i w)\<lparr>a_steps := w_steps w @ [?r]\<rparr>"
    by (simp add: abs_simps)
  moreover have "spec_stop phase (abs_walk i w) \<lparr>cr_outcome = co, cr_steps = w_steps w @ [?r],
           cr_failedStepId = Some (st_id (ph_steps phase ! i))\<rparr>"
    using assms ss_canceled [of phase "abs_walk i w" ?r] ss_rejected [of phase "abs_walk i w" ?r] by auto
  ultimately show ?thesis
    unfolding gate_terminal_def next_ok_def Let_def by (simp add: stop_with_report)
qed

lemma gate_revise_ok:
  assumes "isPureHumanGate (ph_steps phase ! i) \<or> hasTrailingGate (ph_steps phase ! i)"
    and "used_of (w_loopbacks w) (st_id (ph_steps phase ! i)) < MAX_STEP_LOOPBACKS"
  shows "next_ok phase i w (gate_revise H (ph_steps phase ! i) phase i k w)"
proof -
  let ?step = "ph_steps phase ! i"
  let ?j = "case loopback_index ?step (ph_steps phase) of Some t \<Rightarrow> t | None \<Rightarrow> i"
  let ?w1 = "settle H ?step phase SoDone k None RepDone (w\<lparr>w_loopbacks := bump (w_loopbacks w) (st_id ?step)\<rparr>)"
  let ?w2 = "?w1\<lparr>w_remainingCompleted := clearCompletedFrom (w_remainingCompleted ?w1) (ph_steps phase) ?j\<rparr>"
  obtain g where nxt: "gate_revise H ?step phase i k w = NextIndex ?j g ?w2"
    unfolding gate_revise_def Let_def by (cases "loopback_index ?step (ph_steps phase)") auto
  have "abs_walk ?j ?w2 = jump phase ?j
      ((abs_walk i w)\<lparr>a_loopbacks := bump (w_loopbacks w) (st_id ?step),
         a_steps := w_steps w @ [mk_report ?step phase SoDone k None]\<rparr>)"
    by (simp add: jump_def abs_walk_def settle_def reportStep_def pushStep_def Let_def split: option.splits)
  then show ?thesis
    using sp_revise [of ?step phase "abs_walk i w" "mk_report ?step phase SoDone k None"] assms
    by (simp add: nxt next_ok_def visit_ok_def cong: option.case_cong)
qed

lemma applyGateDecision_ok:
  assumes gate: "isPureHumanGate (ph_steps phase ! i) \<or> hasTrailingGate (ph_steps phase ! i)"
    and fresh: "st_id (ph_steps phase ! i) \<notin> w_remainingCompleted w"
  shows "next_ok phase i w (applyGateDecision H d (ph_steps phase ! i) phase i k w)"
proof (cases d)
  case Approve
  with fresh show ?thesis by (simp add: applyGateDecision_def next_ok_def go_settle)
qed (use gate in \<open>simp_all add: applyGateDecision_def gate_terminal_ok gate_revise_ok\<close>)

lemma open_gate_ok:
  assumes gate: "isPureHumanGate (ph_steps phase ! i) \<or> hasTrailingGate (ph_steps phase ! i)"
    and fresh: "st_id (ph_steps phase ! i) \<notin> w_remainingCompleted w"
  shows "visit_ok phase i w (open_gate H runId phase (ph_steps phase ! i) i ctx k replace w)"
proof -
  let ?step = "ph_steps phase ! i"
  let ?w1 = "emit H (step_event GateOpened runId phase ?step None) w"
  obtain d h where q: "h_requestHumanGate H ?step
      (ctx\<lparr>cx_attempt := k, cx_escalation := w_escalation ?w1,
           cx_reviewReportedSinceMs := w_reviewReportedSinceMs ?w1\<rparr>) (w_host ?w1) = (d, h)"
    by fastforce
  let ?w2 = "?w1\<lparr>w_host := h, w_escalation := None\<rparr>"
  have same: "abs_walk i ?w2 = abs_walk i w" by (simp add: abs_simps)
  then have fresh2: "st_id ?step \<notin> w_remainingCompleted ?w2" using fresh abs_same_fields(5) by metis
  have upd: "visit_ok phase i ?w2 (Go j (w3\<lparr>w_pendingGateRevision := g\<rparr>)) = visit_ok phase i ?w2 (Go j w3)"
    for j w3 g by (simp add: visit_ok_def abs_simps)
  show ?thesis
  proof (cases d)
    case None
    with q show ?thesis by (simp add: open_gate_def Let_def)
  next
    case (Some d')
    from applyGateDecision_ok [OF gate fresh2, of H d' k]
    have "visit_ok phase i ?w2 (open_gate H runId phase ?step i ctx k replace w)"
      using q Some by (simp add: open_gate_def Let_def next_ok_def upd split: next_step.splits)
    then show ?thesis by (simp only: visit_ok_cong [OF same])
  qed
qed

lemma visit_ok_same:
  "visit_ok phase i w' v \<Longrightarrow> abs_walk i w' = abs_walk i w \<Longrightarrow> visit_ok phase i w v"
  using visit_ok_cong by blast

lemma go_deliberate_skip:
  assumes "st_id (ph_steps phase ! i) \<notin> w_remainingCompleted w"
    and "abs_walk (Suc i) w' =
      abs_walk (Suc i) (deliberate_skip H (ph_steps phase ! i) phase k reason w)"
  shows "visit_ok phase i w (Go (Suc i) w')"
  by (rule go_settled [OF assms(1), of
        "(mk_report (ph_steps phase ! i) phase SoSkipped k (Some reason))\<lparr>sr_deliberate := Some True\<rparr>"])
     (simp_all add: assms(2) abs_simps)

lemma head_stage_ok: "flow_ok phase i w (head_stage H phase (ph_steps phase ! i) i w)"
  using sp_resumed [of phase "abs_walk i w"]
  by (auto simp: head_stage_def flow_ok_def Let_def visit_ok_def [of _ _ _ "Go _ w"] abs_reindex [of "Suc i" w i]
        abs_simps intro!: go_deliberate_skip)

lemma head_stage_Fall:
  "head_stage H phase step i w = Fall w' \<Longrightarrow> w' = w \<and> st_id step \<notin> w_remainingCompleted w"
  by (auto simp: head_stage_def Let_def split: if_splits)

lemma checkpoint_stage_ok: "flow_ok phase i w (checkpoint_stage H runId (ph_steps phase ! i) w)"
  using ss_parked [of phase "abs_walk i w"]
  by (auto simp: checkpoint_stage_def Let_def flow_ok_def visit_ok_def canceled_def result_of_def abs_simps
        split: option.splits prod.splits)

lemma closing_stage_ok:
  assumes "st_id (ph_steps phase ! i) \<notin> w_remainingCompleted w"
  shows "flow_ok phase i w (closing_stage H phase (ph_steps phase ! i) i w)"
  using assms by (auto simp: closing_stage_def flow_ok_def abs_simps intro!: go_deliberate_skip)

lemma fanout_stage_ok:
  assumes fresh: "st_id (ph_steps phase ! i) \<notin> w_remainingCompleted w"
  shows "flow_ok phase i w (fanout_stage H F runId phase (ph_steps phase ! i) i w)"
proof (cases "resolved_items H runId (ph_steps phase ! i) (w_host w) = []")
  case True
  then show ?thesis by (simp add: fanout_stage_def flow_ok_def)
next
  case False
  let ?step = "ph_steps phase ! i"
  let ?w1 = "reportStep H (st_id ?step) RepRunning w"
  obtain res pauses giveUps rescues h where
    run: "F runId ?step (bare_ctx runId phase i) (resolved_items H runId ?step (w_host w))
       (w_systemicPauses ?w1, w_systemicGiveUps ?w1, w_laneRescues ?w1, w_host ?w1) =
       (res, pauses, giveUps, rescues, h)"
    by (metis prod_cases5)
  let ?w2 = "?w1\<lparr>w_systemicPauses := pauses, w_systemicGiveUps := giveUps, w_laneRescues := rescues, w_host := h\<rparr>"
  have same: "abs_walk i ?w2 = abs_walk i w" by (simp add: abs_simps)
  show ?thesis
  proof (cases res)
    case FanTerminal
    with False run show ?thesis
      using visit_ok_same [OF canceled_step_ok same] by (simp add: fanout_stage_def flow_ok_def)
  next
    case (FanSettled incomplete)
    define w3 where "w3 = (if incomplete > 0 then ?w2\<lparr>w_skipToHumanGate := True\<rparr> else ?w2)"
    have same3: "abs_walk i w3 = abs_walk i w" by (simp add: w3_def abs_simps)
    then have fresh3: "st_id ?step \<notin> w_remainingCompleted w3" using fresh abs_same_fields(5) by metis
    have "fanout_stage H F runId phase ?step i w =
      Settled (if hasTrailingGate ?step
        then open_gate H runId phase ?step i (bare_ctx runId phase i) 1 False w3
        else Go (i + 1) (settle H ?step phase SoDone 1 None RepDone w3))"
      using False run FanSettled by (simp add: fanout_stage_def w3_def del: One_nat_def)
    then show ?thesis
      using visit_ok_same [OF open_gate_ok same3] visit_ok_same [OF go_settle same3] fresh3
      by (simp add: flow_ok_def)
  qed
qed

lemma optional_gate_stage_ok:
  assumes "st_id (ph_steps phase ! i) \<notin> w_remainingCompleted w"
  shows "flow_ok phase i w (optional_gate_stage H runId phase (ph_steps phase ! i) i w)"
proof -
  have "visit_ok phase i w
      (Go (Suc i) ((deliberate_skip H (ph_steps phase ! i) phase k reason (w\<lparr>w_host := h\<rparr>))
         \<lparr>w_pendingGateRevision := None, w_escalation := None\<rparr>))" for h k reason
    using assms by (intro go_deliberate_skip [where H = H and k = k and reason = reason]) (simp_all add: abs_simps)
  then show ?thesis
    by (auto simp: optional_gate_stage_def Let_def flow_ok_def abs_simps split: option.splits prod.splits)
qed

text \<open>The attempt loop and the review ledger leave the abstract state alone.\<close>

lemma systemic_park_abs:
  "case systemic_park H step ctx r w of ParkRetry w' \<Rightarrow> abs_walk i w' = abs_walk i w
   | ParkAborted w' \<Rightarrow> abs_walk i w' = abs_walk i w | ParkFallThrough w' \<Rightarrow> abs_walk i w' = abs_walk i w"
  by (auto simp: systemic_park_def Let_def abs_simps split: option.splits prod.splits)

lemma attempt_loop_abs:
  fixes w :: "'h walk"
  assumes "attempt_loop H step ctx k e w = (res, k', w')"
  shows "abs_walk i w' = abs_walk i w"
proof (rule attempt_loop_rule [where P = "\<lambda>k v. abs_walk i v = abs_walk i w" and
      Q = "\<lambda>res k v. abs_walk i v = abs_walk i w", OF _ _ refl assms])
  fix k r h and v :: "'h walk"
  assume "abs_walk i v = abs_walk i w"
  with systemic_park_abs [where i = i and H = H and step = step and ctx = "ctx\<lparr>cx_attempt := k + 1\<rparr>"
      and r = r and w = "v\<lparr>w_host := h\<rparr>"]
  show "case rr_status r of
      StOk \<Rightarrow> abs_walk i (v\<lparr>w_host := h\<rparr>) = abs_walk i w
    | StFailed \<Rightarrow>
        (case systemic_park H step (ctx\<lparr>cx_attempt := k + 1\<rparr>) r (v\<lparr>w_host := h\<rparr>) of
           ParkRetry w2 \<Rightarrow> abs_walk i w2 = abs_walk i w
         | ParkAborted w2 \<Rightarrow> abs_walk i w2 = abs_walk i w
         | ParkFallThrough w2 \<Rightarrow> abs_walk i w2 = abs_walk i w)
    | StAborted \<Rightarrow> abs_walk i (v\<lparr>w_host := h\<rparr>) = abs_walk i w"
    by (auto simp: abs_simps split: StepRunStatus.splits park.splits)
qed

lemma take_lap_ok:
  assumes "is_review_agent (ph_steps phase ! i)"
    and "loopback_index (ph_steps phase ! i) (ph_steps phase) = Some t"
    and "used_of (w_reviewAutoRevisions w) (st_id (ph_steps phase ! i)) < MAX_REVIEW_AUTO_REVISIONS"
  shows "visit_ok phase i w (take_lap H phase (ph_steps phase ! i) t k g w)"
proof -
  let ?r = "mk_report (ph_steps phase ! i) phase SoDone k None"
  obtain w' where "take_lap H phase (ph_steps phase ! i) t k g w = Go t w'"
    and "abs_walk t w' = jump phase t ((abs_walk i w)
      \<lparr>a_laps := bump (w_reviewAutoRevisions w) (st_id (ph_steps phase ! i)), a_steps := w_steps w @ [?r]\<rparr>)"
    by (simp add: take_lap_def Let_def jump_def abs_walk_def settle_def reportStep_def pushStep_def
          split: option.splits)
  then show ?thesis
    using sp_lap [of _ phase "abs_walk i w" t ?r] assms by (simp add: visit_ok_def)
qed

lemma review_stage_ok: "flow_ok phase i w (review_stage H phase (ph_steps phase ! i) ctx k txt w)"
proof (cases "readAdversarialReviewResult H (ph_steps phase ! i) (ph_steps phase) txt (w_reviewReportedSinceMs w) (w_host w)")
  case None
  then show ?thesis by (simp add: review_stage_def flow_ok_def)
next
  case (Some review)
  let ?step = "ph_steps phase ! i"
  note idx = review_result_index [OF Some]
  have lap: "visit_ok phase i w (take_lap H phase ?step t k g w')"
    if "rv_index review = Some t" "abs_walk i w' = abs_walk i w"
      "used_of (w_reviewAutoRevisions w) (st_id ?step) < MAX_REVIEW_AUTO_REVISIONS" for t g w'
    using visit_ok_same [OF take_lap_ok that(2)] abs_same_fields(4) [OF that(2)] that idx by simp
  from Some show ?thesis
    by (auto simp: review_stage_def flow_ok_def Let_def add_prior_round_def abs_simps
          split: option.splits prod.splits LapDecision.splits dest!: lap_budget(1) intro!: lap)
qed

lemma step_succeeded_ok:
  fixes w :: "'h walk"
  assumes fresh: "st_id (ph_steps phase ! i) \<notin> w_remainingCompleted w"
  shows "visit_ok phase i w (step_succeeded H runId phase (ph_steps phase ! i) i ctx k txt w)"
proof -
  let ?w = "record_output (ph_steps phase ! i) txt w"
  have same: "abs_walk i ?w = abs_walk i w" by (simp add: record_output_def abs_simps)
  have "visit_ok phase i ?w (step_succeeded H runId phase (ph_steps phase ! i) i ctx k txt w)"
    unfolding step_succeeded_def
  proof (rule and_then_ok [OF review_stage_ok])
    fix w' :: "'h walk" assume "abs_walk i w' = abs_walk i ?w"
    with same fresh have "st_id (ph_steps phase ! i) \<notin> w_remainingCompleted w'"
      using abs_same_fields(5) by metis
    then show "visit_ok phase i w'
      (if hasTrailingGate (ph_steps phase ! i)
       then open_gate H runId phase (ph_steps phase ! i) i ctx k True w'
       else Go (i + 1) (settle H (ph_steps phase ! i) phase SoDone k None RepDone w'))"
      by (simp add: open_gate_ok go_settle)
  qed
  then show ?thesis using same by (rule visit_ok_same)
qed

lemma optional_failed_ok:
  assumes fresh: "st_id (ph_steps phase ! i) \<notin> w_remainingCompleted w" and "is_optional (ph_steps phase ! i)"
  shows "visit_ok phase i w (optional_failed H phase (ph_steps phase ! i) i ctx k e w)"
proof -
  let ?step = "ph_steps phase ! i"
  have skip: "visit_ok phase i w (Go (Suc i) (settle H ?step phase SoSkipped k e RepSkipped (w\<lparr>w_host := h\<rparr>)))"
    for h by (rule visit_ok_same [OF go_settle]) (simp_all add: fresh abs_simps)
  have retry: "visit_ok phase i w
      (Go i (reportStep H (st_id ?step) RepDone
         (w\<lparr>w_host := h, w_optionalTriageRetries := bump (w_optionalTriageRetries w) (st_id ?step)\<rparr>)))"
    if "used_of (w_optionalTriageRetries w) (st_id ?step) < MAX_OPTIONAL_TRIAGE_RETRIES" for h
    using sp_optional [of ?step phase "abs_walk i w"] that assms(2) by (simp add: visit_ok_def abs_simps)
  show ?thesis
    using fresh skip retry
    by (auto simp: optional_failed_def Let_def go_settle split: option.splits prod.splits)
qed

lemma escalate_required_ok:
  assumes fresh: "st_id (ph_steps phase ! i) \<notin> w_remainingCompleted w"
    and req: "\<not> is_optional (ph_steps phase ! i)"
  shows "visit_ok phase i w (escalate_required H runId (ph_steps phase ! i) phase ctx e i k w)"
proof -
  let ?step = "ph_steps phase ! i"
  let ?w1 = "emit H (step_event GateOpened runId phase ?step None) w"
  obtain d h where q: "h_requestHumanGate H ?step ctx (w_host ?w1) = (d, h)" by fastforce
  let ?w2 = "?w1\<lparr>w_host := h\<rparr>"
  have same: "abs_walk i ?w2 = abs_walk i w" by (simp add: abs_simps)
  then have fresh2: "st_id ?step \<notin> w_remainingCompleted ?w2" using fresh abs_same_fields(5) by metis
  note ok = go_settle [OF fresh2, of SoSkipped H k e RepSkipped, simplified] triage_retry_ok [OF req]
    required_failed_ok [OF req] canceled_step_ok [unfolded canceled_step_def canceled_def]
  have "visit_ok phase i ?w2 (escalate_required H runId ?step phase ctx e i k w)"
    using ok by (auto simp: escalate_required_def Let_def q split: option.splits HumanGateDecision.splits)
  then show ?thesis using same by (rule visit_ok_same)
qed

lemma handleRequiredFailure_ok:
  assumes fresh: "st_id (ph_steps phase ! i) \<notin> w_remainingCompleted w"
    and req: "\<not> is_optional (ph_steps phase ! i)"
  shows "visit_ok phase i w (handleRequiredFailure H runId (ph_steps phase ! i) phase ctx e i k w)"
proof -
  let ?step = "ph_steps phase ! i"
  let ?w1 = "emit H (step_event StepFailed runId phase ?step e) w"
  have same: "abs_walk i ?w1 = abs_walk i w" "abs_walk i (?w1\<lparr>w_host := h\<rparr>) = abs_walk i w" for h
    by (simp_all add: abs_simps)
  then have fresh2: "st_id ?step \<notin> w_remainingCompleted (?w1\<lparr>w_host := h\<rparr>)" for h
    using fresh abs_same_fields(5) by metis
  note ok = visit_ok_same [OF escalate_required_ok [OF fresh2 req] same(2)]
    visit_ok_same [OF triage_retry_ok [OF req] same(2)] visit_ok_same [OF required_failed_ok [OF req] same(2)]
    visit_ok_same [OF required_failed_ok [OF req] same(1)]
  show ?thesis
    using ok by (auto simp: handleRequiredFailure_def Let_def split: option.splits prod.splits TriageDecision.splits)
qed

lemma step_failed_ok:
  assumes fresh: "st_id (ph_steps phase ! i) \<notin> w_remainingCompleted w"
  shows "visit_ok phase i w (step_failed H runId phase (ph_steps phase ! i) i ctx k e w)"
proof (cases "is_optional (ph_steps phase ! i)")
  case True
  with fresh show ?thesis by (simp add: step_failed_def optional_failed_ok)
next
  case False
  let ?step = "ph_steps phase ! i"
  show ?thesis
  proof (cases "tryLoopback ?step (ph_steps phase) (w_loopbacks w)")
    case None
    with False fresh show ?thesis by (simp add: step_failed_def handleRequiredFailure_ok)
  next
    case (Some tc)
    then obtain t where t: "tc = (t, bump (w_loopbacks w) (st_id ?step))"
      "loopback_index ?step (ph_steps phase) = Some t"
      "used_of (w_loopbacks w) (st_id ?step) < MAX_STEP_LOOPBACKS"
      by (auto simp: tryLoopback_def split: option.splits if_splits)
    obtain w' where "step_failed H runId phase ?step i ctx k e w = Go t w'"
      and "abs_walk t w' = jump phase t ((abs_walk i w)\<lparr>a_loopbacks := bump (w_loopbacks w) (st_id ?step)\<rparr>)"
      using Some t False
      by (simp add: step_failed_def Let_def jump_def abs_walk_def reportStep_def)
    then show ?thesis
      using sp_loopback [of ?step phase "abs_walk i w" t] t False by (simp add: visit_ok_def)
  qed
qed

lemma agent_step_ok:
  assumes fresh: "st_id (ph_steps phase ! i) \<notin> w_remainingCompleted w"
  shows "visit_ok phase i w (agent_step H runId phase (ph_steps phase ! i) i ctx w)"
proof -
  let ?step = "ph_steps phase ! i"
  let ?w1 = "if is_review_agent ?step then w\<lparr>w_reviewReportedSinceMs := Some (h_now H (w_host w))\<rparr> else w"
  obtain out k w2 where loop: "attempt_loop H ?step ctx 0 None ?w1 = (out, k, w2)" by (metis prod_cases3)
  have same: "abs_walk i w2 = abs_walk i w" using attempt_loop_abs [OF loop, of i] by (simp add: abs_simps)
  then have fresh2: "st_id ?step \<notin> w_remainingCompleted w2" using fresh abs_same_fields(5) by metis
  have "visit_ok phase i w2 (agent_step H runId phase ?step i ctx w)"
    unfolding agent_step_def Let_def loop
    by (auto simp: canceled_step_ok step_succeeded_ok [OF fresh2] step_failed_ok [OF fresh2]
          split: attempt_end.splits)
  then show ?thesis using same by (rule visit_ok_same)
qed

lemma run_stage_ok:
  assumes fresh: "st_id (ph_steps phase ! i) \<notin> w_remainingCompleted w"
  shows "visit_ok phase i w (run_stage H runId phase (ph_steps phase ! i) i w)"
proof -
  let ?step = "ph_steps phase ! i"
  let ?w1 = "reportStep H (st_id ?step) RepRunning w"
  have same: "abs_walk i ?w1 = abs_walk i w" by (simp add: abs_simps)
  then have fresh1: "st_id ?step \<notin> w_remainingCompleted ?w1" using fresh abs_same_fields(5) by metis
  have "visit_ok phase i ?w1 (run_stage H runId phase ?step i w)"
    by (simp add: run_stage_def Let_def open_gate_ok agent_step_ok fresh1)
  then show ?thesis using same by (rule visit_ok_same)
qed

lemma keep_fresh:
  "abs_walk i w' = abs_walk i w \<Longrightarrow> x \<notin> w_remainingCompleted w \<Longrightarrow> x \<notin> w_remainingCompleted w'"
  using abs_same_fields(5) by metis

lemma visit_ok_visit: "visit_ok phase i w (visit H F runId phase i w)"
  unfolding visit_def Let_def
proof (rule and_then_ok [OF head_stage_ok])
  fix w1
  assume "head_stage H phase (ph_steps phase ! i) i w = Fall w1"
  then have fresh: "st_id (ph_steps phase ! i) \<notin> w_remainingCompleted w1"
    using head_stage_Fall by metis
  show "visit_ok phase i w1
     (and_then (checkpoint_stage H runId (ph_steps phase ! i) w1) (\<lambda>w2.
      and_then (closing_stage H phase (ph_steps phase ! i) i w2) (\<lambda>w3.
      and_then (fanout_stage H F runId phase (ph_steps phase ! i) i w3) (\<lambda>w4.
      and_then (optional_gate_stage H runId phase (ph_steps phase ! i) i w4) (\<lambda>w5.
        run_stage H runId phase (ph_steps phase ! i) i w5)))))"
    apply (rule and_then_ok [OF checkpoint_stage_ok], drule keep_fresh [OF _ fresh])
    apply (rule and_then_ok [OF closing_stage_ok], assumption, drule (1) keep_fresh)
    apply (rule and_then_ok [OF fanout_stage_ok], assumption, drule (1) keep_fresh)
    apply (rule and_then_ok [OF optional_gate_stage_ok], assumption, drule (1) keep_fresh)
    apply (erule run_stage_ok)
    done
qed

section \<open>The machine's view of a visit\<close>

lemma visit_refines_step:
  "visit H F runId phase i w = Go j w' \<Longrightarrow> spec_step phase (abs_walk i w) (abs_walk j w')"
  using visit_ok_visit [of phase i w H F runId] by (simp add: visit_ok_def)

lemma visit_refines_stop:
  "visit H F runId phase i w = Stop r w' \<Longrightarrow> spec_stop phase (abs_walk i w) r"
  using visit_ok_visit [of phase i w H F runId] by (simp add: visit_ok_def)

end
