(* ===== verification/WalkProps.thy ===== *)
theory WalkProps
  imports WalkSpec
begin

text \<open>
  Properties of the walk. A locale holds what an invariant of the specification machine gives for
  the loop of a phase and for the whole run; it is instantiated with the budget potential (the
  execution bound is never exceeded), with the shape of the reports (a result's outcome says what
  happened) and with the coverage of the steps (a completed run settled every step).
\<close>

section \<open>Invariants of the machine are invariants of the walk\<close>

locale spec_invariant =
  fixes phase :: WorkflowPhase and Inv :: "nat \<Rightarrow> astate \<Rightarrow> bool"
  assumes inv_step: "\<lbrakk>Inv e s; a_index s < length (ph_steps phase); spec_step phase s s'\<rbrakk> \<Longrightarrow> Inv (Suc e) s'"
begin

definition ends :: "'h walk_end \<Rightarrow> bool" where
  "ends r =
     (case r of
        PhaseDone w \<Rightarrow> \<exists>e k. length (ph_steps phase) \<le> k \<and> Inv e (abs_walk k w)
      | Finished res w \<Rightarrow> \<exists>e s. a_index s < length (ph_steps phase) \<and> Inv e s \<and> spec_stop phase s res
      | BoundExceeded p w \<Rightarrow> \<exists>e s. a_index s < length (ph_steps phase) \<and> Inv e s \<and>
                               maxExecutions (length (ph_steps phase)) < e + 1
      | HostThrew w \<Rightarrow> True)"

lemma ends_Finished:
  "Inv e (abs_walk i w) \<Longrightarrow> i < length (ph_steps phase) \<Longrightarrow> spec_stop phase (abs_walk i w) r \<Longrightarrow> ends (Finished r w')"
  unfolding ends_def by (simp, intro exI [of _ e] exI [of _ "abs_walk i w"]) simp

lemma ends_Bound:
  "Inv e (abs_walk i w) \<Longrightarrow> i < length (ph_steps phase) \<Longrightarrow> maxExecutions (length (ph_steps phase)) < e + 1 \<Longrightarrow>
   ends (BoundExceeded p w')"
  unfolding ends_def by (simp, intro exI [of _ e] exI [of _ "abs_walk i w"]) simp

lemma walk_phase_ends: "Inv e (abs_walk i w) \<Longrightarrow> ends (walk_phase H F runId phase e i w)"
proof (induction "maxExecutions (length (ph_steps phase)) - e" arbitrary: e i w rule: less_induct)
  case less
  let ?n = "length (ph_steps phase)"
  consider (over) "\<not> i < ?n" | (abort) "i < ?n" "h_aborted H (w_host w)"
    | (bound) "i < ?n" "\<not> h_aborted H (w_host w)" "maxExecutions ?n < e + 1"
    | (visit) "i < ?n" "\<not> h_aborted H (w_host w)" "\<not> maxExecutions ?n < e + 1"
    by blast
  then show ?case
  proof cases
    case over
    with less.prems have "\<exists>e k. length (ph_steps phase) \<le> k \<and> Inv e (abs_walk k w)"
      by (meson not_less)
    with over show ?thesis by (simp add: walk_phase.simps ends_def)
  next
    case abort
    have "spec_stop phase (abs_walk i w) (result_of OutCanceled (Some (st_id (ph_steps phase ! i))) w)"
      using ss_parked [of phase "abs_walk i w"] by (simp add: result_of_def)
    with abort less.prems show ?thesis
      by (simp add: walk_phase.simps [of H F runId phase e i w] finish_def ends_Finished)
  next
    case bound
    with less.prems show ?thesis
      by (simp add: walk_phase.simps [of H F runId phase e i w] ends_Bound)
  next
    case visit
    show ?thesis
    proof (cases "visit H F runId phase i w")
      case (Go j w')
      from inv_step [OF less.prems _ visit_refines_step [OF Go]] visit
      have "ends (walk_phase H F runId phase (Suc e) j w')" by (intro less.hyps) auto
      with visit Go show ?thesis by (simp add: walk_phase.simps [of H F runId phase e i w])
    next
      case (Stop r w')
      with visit less.prems visit_refines_stop [OF Stop] show ?thesis
        by (simp add: walk_phase.simps [of H F runId phase e i w] finish_def ends_Finished)
    next
      case (Threw w')
      with visit show ?thesis by (simp add: walk_phase.simps [of H F runId phase e i w] ends_def)
    qed
  qed
qed

end

section \<open>The execution bound\<close>

text \<open>The re-visits a step may still cause: loopbacks and revises, supervised retries, and review laps.\<close>

definition spare :: "WorkflowPhase \<Rightarrow> astate \<Rightarrow> WorkflowStep \<Rightarrow> nat" where
  "spare phase s step =
     (MAX_STEP_LOOPBACKS - used_of (a_loopbacks s) (st_id step)) +
     (if is_optional step then MAX_OPTIONAL_TRIAGE_RETRIES - used_of (a_optional s) (st_id step)
      else MAX_STEP_LOOPBACKS - used_of (a_triage s) (st_id step)) +
     (if is_review_agent step \<and> loopback_index step (ph_steps phase) \<noteq> None
      then MAX_REVIEW_AUTO_REVISIONS - used_of (a_laps s) (st_id step) else 0)"

text \<open>A re-visit caused by step \<open>k\<close> costs at most \<open>k + 1\<close> further visits to come back behind it.\<close>

definition potential :: "WorkflowPhase \<Rightarrow> astate \<Rightarrow> nat" where
  "potential phase s =
     (length (ph_steps phase) - a_index s) +
     (\<Sum>k < length (ph_steps phase). spare phase s (ph_steps phase ! k) * Suc k)"

definition step_ids_distinct :: "WorkflowPhase \<Rightarrow> bool" where
  "step_ids_distinct phase \<longleftrightarrow> distinct (map st_id (ph_steps phase))"

text \<open>A phase whose only step is a required adversarial review that loops back to itself.\<close>

definition lone_review :: "WorkflowPhase \<Rightarrow> bool" where
  "lone_review phase =
     (case ph_steps phase of
        [s] \<Rightarrow> is_review_agent s \<and> \<not> is_optional s \<and> loopback_index s (ph_steps phase) \<noteq> None
      | _ \<Rightarrow> False)"

lemma sum_pay:
  fixes f f' :: "nat \<Rightarrow> nat"
  assumes "i < n" and "f i = Suc (f' i)" and "\<And>k. k < n \<Longrightarrow> k \<noteq> i \<Longrightarrow> f' k = f k"
  shows "(\<Sum>k < n. f k * Suc k) = (\<Sum>k < n. f' k * Suc k) + Suc i"
proof -
  have rest: "(\<Sum>k \<in> {..<n} - {i}. f k * Suc k) = (\<Sum>k \<in> {..<n} - {i}. f' k * Suc k)"
    using assms(3) by (intro sum.cong) auto
  have "(\<Sum>k < n. g k) = g i + (\<Sum>k \<in> {..<n} - {i}. g k)" for g :: "nat \<Rightarrow> nat"
    using assms(1) by (intro sum.remove) auto
  then show ?thesis using rest assms(2) by simp
qed

lemma potential_pay:
  assumes "a_index s < length (ph_steps phase)" and "a_index s' < length (ph_steps phase)"
    and "step_ids_distinct phase"
    and "spare phase s (ph_steps phase ! a_index s) = Suc (spare phase s' (ph_steps phase ! a_index s))"
    and "\<And>x. st_id x \<noteq> st_id (ph_steps phase ! a_index s) \<Longrightarrow> spare phase s' x = spare phase s x"
  shows "potential phase s' < potential phase s"
proof -
  have "(\<Sum>k < length (ph_steps phase). spare phase s (ph_steps phase ! k) * Suc k) =
        (\<Sum>k < length (ph_steps phase). spare phase s' (ph_steps phase ! k) * Suc k) + Suc (a_index s)"
    using assms(1,3-5) by (intro sum_pay) (auto simp: step_ids_distinct_def distinct_conv_nth)
  then show ?thesis using assms(1,2) by (simp add: potential_def)
qed

lemma potential_advance:
  assumes "a_index s < length (ph_steps phase)" and "a_index s' = Suc (a_index s)"
    and "\<And>x. spare phase s' x = spare phase s x"
  shows "potential phase s' < potential phase s"
  using assms by (simp add: potential_def)

lemma loopback_index_bound: "loopback_index step steps = Some t \<Longrightarrow> t < length steps"
  by (auto simp: loopback_index_def split: option.splits if_splits)

lemma jump_fields [simp]:
  "a_index (jump phase t s) = t" "a_loopbacks (jump phase t s) = a_loopbacks s"
  "a_triage (jump phase t s) = a_triage s" "a_optional (jump phase t s) = a_optional s"
  "a_laps (jump phase t s) = a_laps s" "a_steps (jump phase t s) = a_steps s"
  by (simp_all add: jump_def)

lemma spec_step_potential:
  assumes "spec_step phase s s'" and i: "a_index s < length (ph_steps phase)" and d: "step_ids_distinct phase"
  shows "potential phase s' < potential phase s"
  using assms(1)
proof cases
  case sp_resumed
  with i show ?thesis by (intro potential_advance) (auto simp: spare_def)
next
  case (sp_settled r)
  with i show ?thesis by (intro potential_advance) (auto simp: spare_def)
next
  case (sp_revise step r)
  then show ?thesis using i
    by (intro potential_pay [OF i _ d]) (auto simp: spare_def split: option.splits dest: loopback_index_bound)
next
  case (sp_loopback step t)
  then show ?thesis
    by (intro potential_pay [OF i _ d]) (auto simp: spare_def dest: loopback_index_bound)
next
  case (sp_triage step)
  then show ?thesis using i
    by (intro potential_pay [OF i _ d]) (auto simp: spare_def)
next
  case (sp_optional step)
  then show ?thesis using i
    by (intro potential_pay [OF i _ d]) (auto simp: spare_def)
next
  case (sp_lap step t r)
  then show ?thesis
    by (intro potential_pay [OF i _ d]) (auto simp: spare_def dest: loopback_index_bound)
qed

lemma max_Executions_eq: "maxExecutions n = 10 * n * n + 2 * n + 1"
  by (simp add: maxExecutions_def MAX_STEP_LOOPBACKS_def algebra_simps)

lemma gauss: "2 * (\<Sum>k < n. c * Suc k) = c * (n * Suc n)" for c :: nat
  by (induction n) (auto simp: algebra_simps)

lemma double_le: "a \<le> n \<Longrightarrow> b \<le> c \<Longrightarrow> 2 * c = d \<Longrightarrow> 2 * (a + b) \<le> 2 * n + d" for a :: nat
  by simp

lemma quadratic_fits:
  fixes n p :: nat
  assumes "2 \<le> n" and "2 * p \<le> 2 * n + 13 * (n * Suc n)"
  shows "p \<le> 10 * n * n + 2 * n + 1"
proof -
  from assms(1) obtain k where "n = k + 2" by (metis add.commute le_Suc_ex)
  with assms(2) show ?thesis by (simp add: algebra_simps)
qed

lemma spare_le:
  "spare phase s step \<le> 13"
  "\<not> (is_review_agent step \<and> loopback_index step (ph_steps phase) \<noteq> None \<and> \<not> is_optional step) \<Longrightarrow>
   spare phase s step \<le> 10"
  by (auto simp: spare_def budget_defs)

lemma potential_fits:
  assumes "\<not> lone_review phase"
  shows "potential phase s \<le> maxExecutions (length (ph_steps phase))"
proof -
  let ?n = "length (ph_steps phase)"
  consider (none) "?n = 0" | (one) x where "ph_steps phase = [x]" | (more) "2 \<le> ?n"
    by (metis One_nat_def Suc_1 Suc_leI length_0_conv length_Suc_conv less_2_cases not_le)
  then show ?thesis
  proof cases
    case none
    then show ?thesis by (simp add: potential_def)
  next
    case (one x)
    with assms have "spare phase s x \<le> 10" by (intro spare_le(2)) (auto simp: lone_review_def)
    with one show ?thesis by (simp add: potential_def max_Executions_eq)
  next
    case more
    have "(\<Sum>k < ?n. spare phase s (ph_steps phase ! k) * Suc k) \<le> (\<Sum>k < ?n. 13 * Suc k)"
      by (intro sum_mono mult_le_mono1 spare_le(1))
    then have "2 * potential phase s \<le> 2 * ?n + 13 * (?n * Suc ?n)"
      unfolding potential_def by (rule double_le [OF diff_le_self _ gauss])
    with more show ?thesis unfolding max_Executions_eq by (rule quadratic_fits)
  qed
qed

interpretation paid: spec_invariant phase
  "\<lambda>e s. step_ids_distinct phase \<and> e + potential phase s \<le> maxExecutions (length (ph_steps phase))" for phase
proof
  fix e s s'
  assume "step_ids_distinct phase \<and> e + potential phase s \<le> maxExecutions (length (ph_steps phase))"
    "a_index s < length (ph_steps phase)" "spec_step phase s s'"
  with spec_step_potential [of phase s s']
  show "step_ids_distinct phase \<and> Suc e + potential phase s' \<le> maxExecutions (length (ph_steps phase))" by simp
qed

lemma phase_within_bound:
  assumes "step_ids_distinct phase" and "\<not> lone_review phase"
  shows "walk_phase H F runId phase 0 i w \<noteq> BoundExceeded p w'"
proof
  assume bound: "walk_phase H F runId phase 0 i w = BoundExceeded p w'"
  from assms potential_fits have "paid.ends phase (walk_phase H F runId phase 0 i w)"
    by (intro paid.walk_phase_ends) simp
  then obtain e s where "a_index s < length (ph_steps phase)"
    "e + potential phase s \<le> maxExecutions (length (ph_steps phase))"
    "maxExecutions (length (ph_steps phase)) < e + 1"
    by (auto simp: bound paid.ends_def)
  then show False by (simp add: potential_def)
qed

lemma phases_within_bound:
  assumes "\<forall>p \<in> set ps. step_ids_distinct p \<and> \<not> lone_review p"
  shows "walk_phases H F runId ps i w \<noteq> BoundExceeded q w'"
  using assms
proof (induction ps arbitrary: i w)
  case Nil
  then show ?case by (simp add: finish_def)
next
  case (Cons p ps)
  then show ?case
    using phase_within_bound [of p H F runId i w] by (auto split: walk_end.splits)
qed

lemma not_phase_done: "walk_phases H F runId ps i w \<noteq> PhaseDone w'"
  by (induction ps arbitrary: i w) (auto simp: finish_def split: walk_end.splits)

section \<open>The shape of a result\<close>

definition settled_report :: "StepReport \<Rightarrow> bool" where
  "settled_report r \<longleftrightarrow> sr_outcome r = SoDone \<or> sr_outcome r = SoSkipped"

definition ends_with :: "StepOutcome \<Rightarrow> ControllerResult \<Rightarrow> bool" where
  "ends_with so r \<longleftrightarrow> cr_steps r \<noteq> [] \<and> sr_outcome (last (cr_steps r)) = so \<and>
     cr_failedStepId r = Some (sr_stepId (last (cr_steps r))) \<and>
     list_all settled_report (butlast (cr_steps r))"

definition result_shape :: "ControllerResult \<Rightarrow> bool" where
  "result_shape r =
     (case cr_outcome r of
        OutCompleted \<Rightarrow> cr_failedStepId r = None \<and> list_all settled_report (cr_steps r)
      | OutFailed \<Rightarrow> ends_with SoFailed r
      | OutRejected \<Rightarrow> ends_with SoRejected r
      | OutCanceled \<Rightarrow> cr_failedStepId r \<noteq> None \<and>
          (list_all settled_report (cr_steps r) \<or> ends_with SoCanceled r))"

interpretation shaped: spec_invariant phase "\<lambda>e s. list_all settled_report (a_steps s)" for phase
proof
  fix e s s'
  assume "list_all settled_report (a_steps s)" "spec_step phase s s'"
  then show "list_all settled_report (a_steps s')"
    by (auto elim!: spec_step.cases simp: settled_report_def report_on_def)
qed

lemma spec_stop_shape:
  "spec_stop phase s r \<Longrightarrow> list_all settled_report (a_steps s) \<Longrightarrow> result_shape r"
  by (auto elim!: spec_stop.cases simp: result_shape_def ends_with_def report_on_def)

lemma walk_phases_shape:
  assumes "walk_phases H F runId ps i w = Finished r w'" and "list_all settled_report (w_steps w)"
  shows "result_shape r"
  using assms
proof (induction ps arbitrary: i w)
  case Nil
  then show ?case by (auto simp: finish_def result_shape_def result_of_def)
next
  case (Cons p ps)
  have e: "shaped.ends p (walk_phase H F runId p 0 i w)"
    using Cons.prems(2) by (intro shaped.walk_phase_ends) simp
  show ?case
  proof (cases "walk_phase H F runId p 0 i w")
    case (PhaseDone w2)
    with e have "list_all settled_report (w_steps w2)" by (auto simp: shaped.ends_def)
    with Cons PhaseDone show ?thesis by simp
  next
    case (Finished r2 w2)
    with e Cons.prems(1) show ?thesis by (auto simp: shaped.ends_def dest: spec_stop_shape)
  qed (use Cons.prems(1) in auto)
qed

section \<open>Coverage of a completed run\<close>

text \<open>Loopbacks that point forward would let a revise jump over steps; the built-in definitions only
  point backwards.\<close>

definition backward_loopbacks :: "WorkflowPhase \<Rightarrow> bool" where
  "backward_loopbacks phase =
     list_all (\<lambda>i. case loopback_index (ph_steps phase ! i) (ph_steps phase) of None \<Rightarrow> True | Some t \<Rightarrow> t \<le> i)
       [0..<length (ph_steps phase)]"

text \<open>Every step from \<open>start\<close> up to \<open>i\<close> was completed before the restart or has a report.\<close>

definition accounted ::
  "string set \<Rightarrow> StepReport list \<Rightarrow> WorkflowPhase \<Rightarrow> nat \<Rightarrow> nat \<Rightarrow> bool" where
  "accounted completed reports phase start i =
     list_all (\<lambda>s. st_id s \<in> completed \<or>
         list_ex (\<lambda>r. sr_stepId r = st_id s \<and> sr_phaseId r = ph_id phase) reports)
       (drop start (take i (ph_steps phase)))"

lemma accounted_iff:
  "accounted completed reports phase start i \<longleftrightarrow>
     (\<forall>k. start \<le> k \<and> k < i \<and> k < length (ph_steps phase) \<longrightarrow>
        st_id (ph_steps phase ! k) \<in> completed \<or>
        (\<exists>r \<in> set reports. sr_stepId r = st_id (ph_steps phase ! k) \<and> sr_phaseId r = ph_id phase))"
  by (simp add: accounted_def list_all_iff list_ex_iff ball_drop_take)

lemma clearCompletedFrom_eq:
  "clearCompletedFrom completed steps j = completed - st_id ` set (drop j steps)"
proof -
  have "fold (\<lambda>s acc. acc - {st_id s}) xs c = c - st_id ` set xs" for xs and c :: "string set"
    by (induction xs arbitrary: c) auto
  then show ?thesis by (simp add: clearCompletedFrom_def)
qed

lemma accounted_mono:
  "accounted completed rs phase start i \<Longrightarrow> j \<le> i \<Longrightarrow> set rs \<subseteq> set rs' \<Longrightarrow>
   accounted completed rs' phase start j"
  unfolding accounted_iff by (meson less_le_trans subsetD)

lemma accounted_Suc:
  assumes "accounted completed rs phase start i" and "set rs \<subseteq> set rs'"
    and "st_id (ph_steps phase ! i) \<in> completed \<or>
         (\<exists>r \<in> set rs'. sr_stepId r = st_id (ph_steps phase ! i) \<and> sr_phaseId r = ph_id phase)"
  shows "accounted completed rs' phase start (Suc i)"
  unfolding accounted_iff
proof (intro allI impI)
  fix k assume "start \<le> k \<and> k < Suc i \<and> k < length (ph_steps phase)"
  with assms show "st_id (ph_steps phase ! k) \<in> completed \<or>
      (\<exists>r \<in> set rs'. sr_stepId r = st_id (ph_steps phase ! k) \<and> sr_phaseId r = ph_id phase)"
    by (cases "k = i") (auto simp: accounted_iff subset_iff less_Suc_eq)
qed

lemma backward_target:
  "backward_loopbacks phase \<Longrightarrow> i < length (ph_steps phase) \<Longrightarrow>
   loopback_index (ph_steps phase ! i) (ph_steps phase) = Some t \<Longrightarrow> t \<le> i"
  by (auto simp: backward_loopbacks_def list_all_iff split: option.splits dest!: bspec [of _ _ i])

interpretation covered: spec_invariant phase
  "\<lambda>e s. backward_loopbacks phase \<and> a_completed s \<subseteq> completed \<and> old \<subseteq> set (a_steps s) \<and>
         accounted completed (a_steps s) phase start (a_index s)" for phase completed old start
proof
  fix e s s'
  assume inv: "backward_loopbacks phase \<and> a_completed s \<subseteq> completed \<and> old \<subseteq> set (a_steps s) \<and>
      accounted completed (a_steps s) phase start (a_index s)"
    and i: "a_index s < length (ph_steps phase)" and step: "spec_step phase s s'"
  then have kept: "a_completed s' \<subseteq> completed \<and> old \<subseteq> set (a_steps s')"
    by (auto elim!: spec_step.cases simp: clearCompletedFrom_eq jump_def)
  note backw = backward_target [OF inv [THEN conjunct1] i]
  from step have "accounted completed (a_steps s') phase start (a_index s')"
  proof cases
    case sp_resumed
    with inv show ?thesis by (auto intro: accounted_Suc)
  next
    case (sp_settled r)
    with inv show ?thesis by (auto simp: report_on_def intro!: accounted_Suc)
  qed (use inv backw in \<open>auto split: option.splits intro: accounted_mono\<close>)
  with inv kept show "backward_loopbacks phase \<and> a_completed s' \<subseteq> completed \<and> old \<subseteq> set (a_steps s') \<and>
      accounted completed (a_steps s') phase start (a_index s')"
    by blast
qed

end
