(* ===== verification/RunProps.thy ===== *)
theory RunProps
  imports WalkProps
begin

text \<open>
  The properties of the programmatic run, stated on \<open>run\<close>, \<open>visit\<close> and the controller's helpers, with
  a scripted host on which they are instantiated.
\<close>

section \<open>A scripted host\<close>

text \<open>The host state is the list of step results and the list of gate decisions still to be played;
  an exhausted script answers ok and approve.\<close>

type_synonym script = "StepRunResult list \<times> HumanGateDecision list"

definition ok_result :: "string option \<Rightarrow> StepRunResult" where
  "ok_result txt = \<lparr>rr_status = StOk, rr_summary = None, rr_error = None, rr_systemic = None,
     rr_resultText = txt, rr_provider = None, rr_runtime = None\<rparr>"

definition failed_result :: "string \<Rightarrow> StepRunResult" where
  "failed_result e = (ok_result None)\<lparr>rr_status := StFailed, rr_error := Some e\<rparr>"

definition play_step :: "script \<Rightarrow> StepRunResult \<times> script" where
  "play_step s = (case fst s of [] \<Rightarrow> (ok_result None, s) | r # rs \<Rightarrow> (r, (rs, snd s)))"

definition play_gate :: "script \<Rightarrow> HumanGateDecision option \<times> script" where
  "play_gate s = (case snd s of [] \<Rightarrow> (Some Approve, s) | d # ds \<Rightarrow> (Some d, (fst s, ds)))"

definition script_host :: "script host" where
  "script_host =
     \<lparr>h_runStep = (\<lambda>step ctx. play_step), h_reportStep = (\<lambda>i st s. s),
      h_requestHumanGate = (\<lambda>step ctx. play_gate), h_shouldSkipHumanGate = None,
      h_readGateResolutionNote = None, h_readAdversarialReview = None, h_notify = None,
      h_triageFailure = Some (\<lambda>step ctx e avail s. (Some TriageRetry, s)),
      h_adviseReviewLoop = Some (\<lambda>rq ctx s. (Some (Some (LoopVerdict ''keep going''
          \<lparr>rs_address = [], rs_setAside = [], rs_guidance = None\<rparr>)), s)),
      h_recordStepResult = None, h_resolveItems = None, h_awaitBlockingReviewItems = None,
      h_awaitSystemicPause = None, h_now = (\<lambda>s. 0), h_aborted = (\<lambda>s. False),
      h_userSkipped = (\<lambda>s i. False)\<rparr>"

definition no_fan_out :: "'h fan_out" where
  "no_fan_out runId step ctx items s = (FanSettled 0, s)"

definition gate_step :: "string \<Rightarrow> string \<Rightarrow> WorkflowStep" where
  "gate_step i target = (sample_step i)\<lparr>st_agent := HUMAN_GATE_AGENT, st_retries := 0,
     st_human := Some True, st_loopback := Some target\<rparr>"

definition sample_phase :: WorkflowPhase where
  "sample_phase = \<lparr>ph_id = ''plan'', ph_label = ''Plan'', ph_color = ''#0ea5e9'',
     ph_steps = [sample_step ''draft'', gate_step ''approve'' ''draft'']\<rparr>"

definition sample_flow :: WorkflowDefinition where
  "sample_flow = \<lparr>wd_id = ''flow'', wd_phases = [sample_phase], wd_agentConfigs = None\<rparr>"

definition end_result :: "'h walk_end \<Rightarrow> ControllerResult option" where
  "end_result e = (case e of Finished r w \<Rightarrow> Some r | _ \<Rightarrow> None)"

definition bound_hit :: "'h walk_end \<Rightarrow> bool" where
  "bound_hit e = (case e of BoundExceeded p w \<Rightarrow> True | _ \<Rightarrow> False)"

section \<open>Termination within the execution bound\<close>

text \<open>C1: a run never trips the defensive execution bound: when the step ids of every phase are
  distinct and no phase consists of a lone required adversarial review looping back to itself, the
  walk ends with a result (or with the exception of a host seam), whatever the host, the runner and
  the fan-out answer, and wherever it resumes.\<close>

theorem run_within_execution_bound:
  assumes "\<forall>p \<in> set (wd_phases def). step_ids_distinct p \<and> \<not> lone_review p"
  shows "(\<exists>r w. run H runFanOut runId def resumeFrom completed h = Finished r w) \<or>
         (\<exists>w. run H runFanOut runId def resumeFrom completed h = HostThrew w)"
proof (cases "run H runFanOut runId def resumeFrom completed h")
  case (PhaseDone w)
  then show ?thesis by (auto simp: run_def not_phase_done split: prod.splits)
next
  case (BoundExceeded p w)
  obtain k start where "resume_point resumeFrom (wd_phases def) = (k, start)" by fastforce
  moreover have "\<forall>p \<in> set (drop k (wd_phases def)). step_ids_distinct p \<and> \<not> lone_review p"
    using assms by (auto dest: in_set_dropD)
  ultimately show ?thesis
    using BoundExceeded phases_within_bound by (fastforce simp: run_def)
qed auto

theorem run_within_execution_bound_witness:
  "(\<exists>r w. run script_host no_fan_out ''r'' sample_flow None {} ([], [Revise]) = Finished r w) \<or>
   (\<exists>w. run script_host no_fan_out ''r'' sample_flow None {} ([], [Revise]) = HostThrew w)"
proof (rule run_within_execution_bound)
  show "\<forall>p \<in> set (wd_phases sample_flow). step_ids_distinct p \<and> \<not> lone_review p"
    by code_simp
qed

text \<open>The exception to the bound: the step's budgets add up to 5 loopbacks, 5 supervised retries and
  3 review laps, 13 re-visits, and the bound of a one-step phase is 13 visits.\<close>

definition lone_review_phase :: WorkflowPhase where
  "lone_review_phase = \<lparr>ph_id = ''refine'', ph_label = ''Refine'', ph_color = ''#0ea5e9'',
     ph_steps = [(sample_step ''review'')\<lparr>st_agent := ''adversarial-review'', st_retries := 0,
                   st_loopback := Some ''review''\<rparr>]\<rparr>"

definition lone_review_flow :: WorkflowDefinition where
  "lone_review_flow = sample_flow\<lparr>wd_phases := [lone_review_phase]\<rparr>"

definition lone_review_script :: script where
  "lone_review_script =
     (replicate 10 (failed_result ''crashed'') @ replicate 3 (ok_result (Some ''REVIEW: BLOCKING'')), [])"

text \<open>the execution bound is too small for a phase of one required adversarial-review step whose
  \<open>loopback\<close> names itself: the definition is valid, and five failures that loop back, five failures the
  supervisor retries and three blocking reviews, all within their budgets, trip the bound.\<close>

theorem lone_review_exceeds_bound:
  "validateWorkflowDefinition lone_review_flow = Inr lone_review_flow \<and>
   bound_hit (run script_host no_fan_out ''r'' lone_review_flow None {} lone_review_script)"
  by code_simp

section \<open>What a result says\<close>

text \<open>C3: the outcome of a result says what happened, whatever the host does: a completed run names no
  failed step and all its reports are done or skipped; a failed or rejected run ends with the failed
  or rejected report of the step it names, and all earlier reports are done or skipped; a canceled
  run names a step, and only its last report may be other than done or skipped.\<close>

theorem run_result_shape:
  assumes "run H runFanOut runId def resumeFrom completed h = Finished r w"
  shows "result_shape r"
proof -
  obtain k start where "resume_point resumeFrom (wd_phases def) = (k, start)" by fastforce
  with assms show ?thesis
    by (auto simp: run_def emit_def init_walk_def split: option.splits intro!: walk_phases_shape)
qed

theorem run_result_shape_witness:
  "case run script_host no_fan_out ''r'' sample_flow None {} ([], [Revise, Reject]) of
     Finished r w \<Rightarrow> result_shape r \<and> cr_outcome r = OutRejected
   | _ \<Rightarrow> False"
proof -
  have "end_result (run script_host no_fan_out ''r'' sample_flow None {} ([], [Revise, Reject])) \<noteq> None \<and>
    map_option cr_outcome (end_result (run script_host no_fan_out ''r'' sample_flow None {} ([], [Revise, Reject]))) = Some OutRejected"
    by code_simp
  then obtain r w where run: "run script_host no_fan_out ''r'' sample_flow None {} ([], [Revise, Reject]) = Finished r w"
    and "cr_outcome r = OutRejected"
    by (auto simp: end_result_def split: walk_end.splits)
  with run_result_shape [OF run] show ?thesis by simp
qed

section \<open>Coverage\<close>


lemma emit_fields [simp]:
  "w_remainingCompleted (emit H e w) = w_remainingCompleted w" "w_steps (emit H e w) = w_steps w"
  by (simp_all add: emit_def split: option.splits)

lemma init_fields [simp]:
  "w_remainingCompleted (init_walk H def completed h) = completed" "w_steps (init_walk H def completed h) = []"
  by (simp_all add: init_walk_def)



section \<open>Revisits\<close>

lemma spec_step_back:
  "spec_step phase s s' \<Longrightarrow> a_index s' < a_index s \<Longrightarrow>
   a_completed s' = clearCompletedFrom (a_completed s) (ph_steps phase) (a_index s')"
  by (cases rule: spec_step.cases) (auto simp: jump_def split: option.splits)

text \<open>C4: a jump back really re-runs the region: after a visit that sends the walk to an earlier step,
  no step at or behind the target is left in the resume skip set, so neither the revisited agent
  steps nor the gate itself is fast-forwarded over.\<close>

theorem jump_back_reruns_region:
  assumes "visit H runFanOut runId phase i w = Go j w'" and "j < i"
    and "j \<le> k" and "k < length (ph_steps phase)"
  shows "st_id (ph_steps phase ! k) \<notin> w_remainingCompleted w'"
proof -
  have "ph_steps phase ! k \<in> set (drop j (ph_steps phase))"
    using assms(3,4) nth_mem [of "k - j" "drop j (ph_steps phase)"] by simp
  then show ?thesis
    using spec_step_back [OF visit_refines_step [OF assms(1)]] assms(2)
    by (simp add: clearCompletedFrom_eq)
qed

theorem jump_back_reruns_region_witness:
  "case visit script_host no_fan_out ''r'' sample_phase 1
       (init_walk script_host sample_flow {''draft''} ([], [Revise])) of
     Go j w' \<Rightarrow> j = 0 \<and> ''draft'' \<notin> w_remainingCompleted w'
   | _ \<Rightarrow> False"
proof -
  let ?w = "init_walk script_host sample_flow {''draft''} ([], [Revise])"
  have "(case visit script_host no_fan_out ''r'' sample_phase 1 ?w of Go j w' \<Rightarrow> j = 0 | _ \<Rightarrow> False)"
    by code_simp
  then obtain w' where v: "visit script_host no_fan_out ''r'' sample_phase 1 ?w = Go 0 w'"
    by (auto split: visit_result.splits)
  have "st_id (ph_steps sample_phase ! 0) = ''draft''" "0 < length (ph_steps sample_phase)"
    by (simp_all add: sample_phase_def sample_step_def)
  with jump_back_reruns_region [OF v, of 0] v show ?thesis by simp
qed

section \<open>Human gates\<close>


text \<open>The host after a settled step: the recorded result, then the timeline report.\<close>

definition settled_host ::
  "'h host \<Rightarrow> WorkflowStep \<Rightarrow> WorkflowPhase \<Rightarrow> StepOutcome \<Rightarrow> nat \<Rightarrow> string option \<Rightarrow> StepStatus \<Rightarrow> 'h \<Rightarrow> 'h" where
  "settled_host H step phase so k e st h =
     h_reportStep H (st_id step) st
       (case h_recordStepResult H of None \<Rightarrow> h | Some rec \<Rightarrow> rec (mk_report step phase so k e) h)"


lemma settle_fields [simp]:
  "w_steps (settle H step phase so k e st w) = w_steps w @ [mk_report step phase so k e]"
  "w_host (settle H step phase so k e st w) = settled_host H step phase so k e st (w_host w)"
  by (simp_all add: settle_def settled_host_def reportStep_def pushStep_def Let_def split: option.splits)





section \<open>Attempts and systemic pauses\<close>

definition within_attempts :: "WorkflowStep \<Rightarrow> 'h walk \<Rightarrow> 'h walk \<Rightarrow> bool" where
  "within_attempts step w w' \<longleftrightarrow>
     used_of (w_systemicPauses w') (st_id step) \<le> max MAX_SYSTEMIC_PAUSES (used_of (w_systemicPauses w) (st_id step)) \<and>
     (st_id step \<in> w_systemicGiveUps w \<longrightarrow> w_systemicPauses w' = w_systemicPauses w) \<and>
     w_systemicGiveUps w \<subseteq> w_systemicGiveUps w'"

lemma systemic_park_within:
  assumes "within_attempts step w0 (w\<lparr>w_host := h\<rparr>)"
  shows "case systemic_park H step c r (w\<lparr>w_host := h\<rparr>) of ParkRetry w2 \<Rightarrow> within_attempts step w0 w2
      | ParkAborted w2 \<Rightarrow> within_attempts step w0 w2 | ParkFallThrough w2 \<Rightarrow> within_attempts step w0 w2"
  using assms
  by (auto simp: systemic_park_def within_attempts_def Let_def split: option.splits prod.splits)

text \<open>A pause seam whose every answer is a give-up parks a step at most once.\<close>

definition only_gives_up :: "'h host \<Rightarrow> bool" where
  "only_gives_up H \<longleftrightarrow>
     (\<forall>f s c e i h. h_awaitSystemicPause H = Some f \<longrightarrow> fst (f s c e i h) = PauseGiveup)"

definition parked_once :: "'h host \<Rightarrow> WorkflowStep \<Rightarrow> 'h walk \<Rightarrow> 'h walk \<Rightarrow> bool" where
  "parked_once H step w w' \<longleftrightarrow> only_gives_up H \<longrightarrow>
     used_of (w_systemicPauses w') (st_id step) = used_of (w_systemicPauses w) (st_id step) \<or>
     used_of (w_systemicPauses w') (st_id step) = Suc (used_of (w_systemicPauses w) (st_id step)) \<and>
     st_id step \<in> w_systemicGiveUps w'"

lemma systemic_park_once:
  assumes "parked_once H step w0 (w\<lparr>w_host := h\<rparr>)"
  shows "case systemic_park H step c r (w\<lparr>w_host := h\<rparr>) of
      ParkRetry w2 \<Rightarrow> parked_once H step w0 w2
    | ParkAborted w2 \<Rightarrow> only_gives_up H \<longrightarrow>
        used_of (w_systemicPauses w2) (st_id step) \<le> Suc (used_of (w_systemicPauses w0) (st_id step))
    | ParkFallThrough w2 \<Rightarrow> parked_once H step w0 w2"
proof (cases "h_awaitSystemicPause H")
  case (Some f)
  obtain d h' where f: "f step c (rr_error r) (pause_info step r) h = (d, h')" by fastforce
  have "d = PauseGiveup" if "only_gives_up H"
    using that Some f by (metis only_gives_up_def fst_conv)
  with Some f assms show ?thesis by (auto simp: systemic_park_def parked_once_def Let_def)
qed (use assms in \<open>simp add: systemic_park_def\<close>)

definition attempts_ok :: "'h host \<Rightarrow> WorkflowStep \<Rightarrow> 'h walk \<Rightarrow> attempt_end \<Rightarrow> nat \<Rightarrow> 'h walk \<Rightarrow> bool" where
  "attempts_ok H step w res k w' \<longleftrightarrow> 1 \<le> k \<and> int k \<le> st_retries step + 1 \<and>
     (case res of AttemptFailed e \<Rightarrow> int k = st_retries step + 1 | _ \<Rightarrow> True) \<and> within_attempts step w w' \<and>
     (only_gives_up H \<longrightarrow>
        used_of (w_systemicPauses w') (st_id step) \<le> Suc (used_of (w_systemicPauses w) (st_id step)))"

text \<open>A host that counts the runner's calls: the first two attempts hit a usage limit, and the pause
  is resolved by a retry.\<close>

definition limited_host :: "nat host" where
  "limited_host =
     \<lparr>h_runStep = (\<lambda>step ctx n. (if n < 2 then (failed_result ''usage limit'')\<lparr>rr_systemic := Some True\<rparr>
                               else ok_result None, Suc n)),
      h_reportStep = (\<lambda>i st n. n), h_requestHumanGate = (\<lambda>step ctx n. (Some Approve, n)),
      h_shouldSkipHumanGate = None, h_readGateResolutionNote = None, h_readAdversarialReview = None,
      h_notify = None, h_triageFailure = None, h_adviseReviewLoop = None, h_recordStepResult = None,
      h_resolveItems = None, h_awaitBlockingReviewItems = None,
      h_awaitSystemicPause = Some (\<lambda>step ctx e info n. (PauseRetry, n)),
      h_now = (\<lambda>n. 0), h_aborted = (\<lambda>n. False), h_userSkipped = (\<lambda>n i. False)\<rparr>"

definition limited_walk :: "nat walk" where
  "limited_walk = init_walk limited_host sample_flow {} 0"

text \<open>the attempt loop of a step ends within its budgets: between one and \<open>retries + 1\<close> attempts are
  numbered, a failure is reported only after all of them, the step's systemic pauses never exceed
  the cap, and once the human gave up on the step's pause it is never parked again, within this loop
  or in a later one.\<close>

theorem attempts_within_budget:
  assumes "attempt_loop H step ctx 0 None w = (res, k, w')" and "0 \<le> st_retries step"
  shows "attempts_ok H step w res k w'"
proof (rule attempt_loop_rule [where Q = "attempts_ok H step w"
      and P = "\<lambda>k v. int k \<le> st_retries step + 1 \<and> within_attempts step w v \<and> parked_once H step w v", OF _ _ _ assms(1)])
  fix k v r h
  assume P: "int k \<le> st_retries step + 1 \<and> within_attempts step w v \<and> parked_once H step w v" and k: "int k < st_retries step + 1"
  let ?c = "ctx\<lparr>cx_attempt := k + 1\<rparr>"
  from P have "within_attempts step w (v\<lparr>w_host := h\<rparr>)" "parked_once H step w (v\<lparr>w_host := h\<rparr>)"
    by (simp_all add: within_attempts_def parked_once_def)
  from this systemic_park_within [OF this(1), of H ?c r] systemic_park_once [OF this(2), of ?c r] k P
  show "case rr_status r of
      StOk \<Rightarrow> attempts_ok H step w (AttemptOk (rr_resultText r)) (k + 1) (v\<lparr>w_host := h\<rparr>)
    | StFailed \<Rightarrow>
        (case systemic_park H step (ctx\<lparr>cx_attempt := k + 1\<rparr>) r (v\<lparr>w_host := h\<rparr>) of
           ParkRetry w2 \<Rightarrow> int k \<le> st_retries step + 1 \<and> within_attempts step w w2 \<and> parked_once H step w w2
         | ParkAborted w2 \<Rightarrow> attempts_ok H step w AttemptAborted (k + 1) w2
         | ParkFallThrough w2 \<Rightarrow>
             int (k + 1) \<le> st_retries step + 1 \<and> within_attempts step w w2 \<and> parked_once H step w w2)
    | StAborted \<Rightarrow> attempts_ok H step w AttemptAborted (k + 1) (v\<lparr>w_host := h\<rparr>)"
    by (auto simp: attempts_ok_def parked_once_def split: StepRunStatus.splits park.splits)
qed (use assms(2) in \<open>auto simp: attempts_ok_def within_attempts_def parked_once_def\<close>)

theorem attempts_within_budget_witness:
  "case attempt_loop limited_host (sample_step ''draft'') (bare_ctx ''r'' sample_phase 0) 0 None limited_walk of
     (res, k, w') \<Rightarrow> attempts_ok limited_host (sample_step ''draft'') limited_walk res k w' \<and> k = 1"
proof -
  let ?l = "attempt_loop limited_host (sample_step ''draft'') (bare_ctx ''r'' sample_phase 0) 0 None limited_walk"
  have "fst (snd ?l) = 1" by code_simp
  then obtain res w' where l: "?l = (res, 1, w')" by (cases ?l) auto
  have "0 \<le> st_retries (sample_step ''draft'')" by code_simp
  from attempts_within_budget [OF l this] l show ?thesis by simp
qed

text \<open>The runner is called once per consumed attempt, and otherwise only for a parked attempt.\<close>

definition calls_ok :: "('h \<Rightarrow> nat) \<Rightarrow> WorkflowStep \<Rightarrow> 'h walk \<Rightarrow> nat \<Rightarrow> 'h walk \<Rightarrow> bool" where
  "calls_ok calls step w k w' \<longleftrightarrow>
     calls (w_host w) + k \<le> calls (w_host w') \<and>
     calls (w_host w') + used_of (w_systemicPauses w) (st_id step)
       \<le> calls (w_host w) + k + used_of (w_systemicPauses w') (st_id step)"

lemma systemic_park_calls:
  assumes pause: "\<forall>f. h_awaitSystemicPause H = Some f \<longrightarrow> (\<forall>s c e i h. calls (snd (f s c e i h)) = calls h)"
    and inv: "calls_ok calls step w k v" and h: "calls h = Suc (calls (w_host v))"
  shows "case systemic_park H step ctx r (v\<lparr>w_host := h\<rparr>) of
      ParkRetry w2 \<Rightarrow> calls_ok calls step w k w2
    | ParkAborted w2 \<Rightarrow> calls_ok calls step w (k + 1) w2
    | ParkFallThrough w2 \<Rightarrow> calls_ok calls step w (k + 1) w2"
proof (cases "h_awaitSystemicPause H")
  case None
  with inv h show ?thesis by (simp add: systemic_park_def calls_ok_def)
next
  case (Some f)
  let ?w1 = "v\<lparr>w_host := h, w_systemicPauses := bump (w_systemicPauses v) (st_id step)\<rparr>"
  obtain d h' where f: "f step ctx (rr_error r) (pause_info step r) h = (d, h')" by fastforce
  then have "calls h' = Suc (calls (w_host v))" using pause Some h by (metis snd_conv)
  with inv h f Some show ?thesis by (simp add: systemic_park_def calls_ok_def Let_def)
qed

text \<open>a systemic failure does not consume the step's retry budget: if the runner counts its calls
  and the pause seam does not run it, the number of calls is at least the number of attempts consumed
  and exceeds it by at most the pauses taken.\<close>

theorem systemic_retry_keeps_attempt:
  fixes calls :: "'h \<Rightarrow> nat"
  assumes loop: "attempt_loop H step ctx 0 None w = (res, k, w')"
    and run: "\<forall>s c h. calls (snd (h_runStep H s c h)) = Suc (calls h)"
    and pause: "\<forall>f. h_awaitSystemicPause H = Some f \<longrightarrow> (\<forall>s c e i h. calls (snd (f s c e i h)) = calls h)"
  shows "calls_ok calls step w k w'"
proof (rule attempt_loop_rule [where P = "calls_ok calls step w" and Q = "\<lambda>res. calls_ok calls step w",
      OF _ _ _ loop])
  fix k v r h
  assume inv: "calls_ok calls step w k v"
    and r: "h_runStep H step (ctx\<lparr>cx_attempt := k + 1\<rparr>) (w_host v) = (r, h)"
  have h: "calls h = Suc (calls (w_host v))" using run r by (metis snd_conv)
  then have "calls_ok calls step w (k + 1) (v\<lparr>w_host := h\<rparr>)" using inv by (simp add: calls_ok_def)
  with systemic_park_calls [OF pause inv h, of "ctx\<lparr>cx_attempt := k + 1\<rparr>" r]
  show "case rr_status r of
      StOk \<Rightarrow> calls_ok calls step w (k + 1) (v\<lparr>w_host := h\<rparr>)
    | StFailed \<Rightarrow>
        (case systemic_park H step (ctx\<lparr>cx_attempt := k + 1\<rparr>) r (v\<lparr>w_host := h\<rparr>) of
           ParkRetry w2 \<Rightarrow> calls_ok calls step w k w2
         | ParkAborted w2 \<Rightarrow> calls_ok calls step w (k + 1) w2
         | ParkFallThrough w2 \<Rightarrow> calls_ok calls step w (k + 1) w2)
    | StAborted \<Rightarrow> calls_ok calls step w (k + 1) (v\<lparr>w_host := h\<rparr>)"
    by (simp split: StepRunStatus.splits)
qed (auto simp: calls_ok_def)

theorem systemic_retry_keeps_attempt_witness:
  "case attempt_loop limited_host (sample_step ''draft'') (bare_ctx ''r'' sample_phase 0) 0 None limited_walk of
     (res, k, w') \<Rightarrow> calls_ok (\<lambda>n. n) (sample_step ''draft'') limited_walk k w' \<and> k = 1 \<and> w_host w' = 3"
proof -
  let ?l = "attempt_loop limited_host (sample_step ''draft'') (bare_ctx ''r'' sample_phase 0) 0 None limited_walk"
  have "fst (snd ?l) = 1 \<and> w_host (snd (snd ?l)) = 3" by code_simp
  then obtain res w' where l: "?l = (res, 1, w')" and "w_host w' = 3" by (cases ?l) auto
  moreover have "calls_ok (\<lambda>n. n) (sample_step ''draft'') limited_walk 1 w'"
    by (rule systemic_retry_keeps_attempt [OF l]) (simp_all add: limited_host_def)
  ultimately show ?thesis by simp
qed

section \<open>The automatic review loop\<close>

lemma init_escalation: "w_escalation (init_walk H def completed h) = None"
  by (simp add: init_walk_def)

text \<open>an explicit \<open>REVIEW: CLEAN\<close> in the reviewer's text never takes a lap and arms no escalation,
  whatever the review artifact still carries.\<close>

theorem clean_review_never_laps:
  assumes "parseCodeReviewVerdict txt = Some RClean" and "trim txt \<noteq> []"
  shows "\<exists>w'. review_stage H phase step ctx k (Some txt) w = Fall w' \<and> w_escalation w' = w_escalation w"
  using assms
  by (simp add: review_stage_def readAdversarialReviewResult_def Let_def add_prior_round_def split: option.splits)

theorem clean_review_never_laps_witness:
  "\<exists>w'. review_stage script_host lone_review_phase (ph_steps lone_review_phase ! 0) (bare_ctx ''r'' lone_review_phase 0) 1
       (Some ''REVIEW: CLEAN'') (init_walk script_host lone_review_flow {} ([], [])) = Fall w' \<and>
     w_escalation w' = None"
proof -
  have "parseCodeReviewVerdict ''REVIEW: CLEAN'' = Some RClean" "trim ''REVIEW: CLEAN'' \<noteq> []" by code_simp+
  from clean_review_never_laps [OF this] show ?thesis by (metis init_escalation)
qed

text \<open>an automatic lap needs budget and, after the first, a vote: at most three laps are ever
  granted, and beyond the one mechanical lap only when the supervisor, asked about this very
  document, answered with a loop verdict on a run that was not canceled; its steering is the lap's.\<close>

theorem lap_needs_budget_or_vote:
  assumes "decideReviewLoop H step target round used doc prior ctx h = (Lap steering, h')"
  shows "used < MAX_REVIEW_AUTO_REVISIONS \<and>
         (used < MAX_REVIEW_MECHANICAL_REVISIONS \<or>
          (\<exists>advise rq rationale s. h_adviseReviewLoop H = Some advise \<and>
             advise rq ctx h = (Some (Some (LoopVerdict rationale s)), h') \<and> \<not> h_aborted H h' \<and>
             steering = Some s \<and> rq_lapsUsed rq = used \<and> rq_parsed rq = sd_parsed doc))"
proof -
  from assms obtain d where used: "used < MAX_REVIEW_AUTO_REVISIONS"
    and consult: "consultReviewLoop H step target round used doc prior ctx h = (d, h')"
    and d: "d = None \<and> used < MAX_REVIEW_MECHANICAL_REVISIONS \<or> (\<exists>rationale s. d = Some (LoopVerdict rationale s) \<and> steering = Some s)"
    by (auto simp: decideReviewLoop_def split: if_splits prod.splits option.splits ReviewLoopDecision.splits)
  show ?thesis
  proof (cases d)
    case None
    with used d show ?thesis by auto
  next
    case (Some v)
    with d obtain rationale s where v: "d = Some (LoopVerdict rationale s)" "steering = Some s" by auto
    let ?rq = "\<lparr>rq_stepId = st_id step, rq_loopbackStepId = target, rq_round = round,
                   rq_lapsUsed = used, rq_maxLaps = MAX_REVIEW_AUTO_REVISIONS,
                   rq_reviewMarkdown = truthy (sd_markdown doc),
                   rq_parsed = sd_parsed doc, rq_priorRounds = prior\<rparr>"
    from consult v obtain advise where "h_adviseReviewLoop H = Some advise"
      "advise ?rq ctx h = (Some (Some (LoopVerdict rationale s)), h')" "\<not> h_aborted H h'"
      by (auto simp: consultReviewLoop_def Let_def split: option.splits if_splits prod.splits)
    with used v show ?thesis by (intro conjI disjI2) (auto intro!: exI [of _ ?rq])
  qed
qed

theorem lap_needs_budget_or_vote_witness:
  "case decideReviewLoop script_host (ph_steps lone_review_phase ! 0) ''review'' 2 1
       \<lparr>sd_markdown = None, sd_parsed = empty_review, sd_fromArtifact = False\<rparr> []
       (bare_ctx ''r'' lone_review_phase 0) ([], []) of
     (Lap steering, h') \<Rightarrow> \<exists>advise rq rationale s. h_adviseReviewLoop script_host = Some advise \<and>
        advise rq (bare_ctx ''r'' lone_review_phase 0) ([], []) = (Some (Some (LoopVerdict rationale s)), h')
   | _ \<Rightarrow> False"
proof -
  let ?d = "decideReviewLoop script_host (ph_steps lone_review_phase ! 0) ''review'' 2 1
       \<lparr>sd_markdown = None, sd_parsed = empty_review, sd_fromArtifact = False\<rparr> []
       (bare_ctx ''r'' lone_review_phase 0) ([], [])"
  have "(case fst ?d of Lap s \<Rightarrow> True | NoLap e \<Rightarrow> False)" by code_simp
  then obtain s h' where d: "?d = (Lap s, h')" by (cases ?d) (auto split: LapDecision.splits)
  from lap_needs_budget_or_vote [OF d] d show ?thesis
    by (auto simp: MAX_REVIEW_MECHANICAL_REVISIONS_def)
qed

definition blocking_text :: string where
  "blocking_text = ''## Blocking'' @ [CHR 0x0A] @ ''#### AR-1 - Spend screen has no way back'' @ [CHR 0x0A] @ ''REVIEW: BLOCKING''"

definition artifact_text :: string where
  "artifact_text = ''## Blocking'' @ [CHR 0x0A] @ ''#### ar 1 - Spend screen'' @ [CHR 0x0A]"

definition artifact_host :: "script host" where
  "artifact_host = script_host\<lparr>h_readAdversarialReview := Some (\<lambda>since s. Some (Some artifact_text))\<rparr>"

text \<open>the document a blocking round is steered from never disagrees with the verdict: when the
  verdict came from the text and the text lists blocking ids, the selected document lists exactly
  the same ids, even when the artifact is a previous round's.\<close>

theorem selected_document_matches_verdict:
  assumes "readAdversarialReviewResult H step steps txt since h = Some review"
    and "rv_source review = SourceText" and "blockingIdSet (rv_parsed review) \<noteq> {}"
  shows "blockingIdSet (sd_parsed (selectReviewDocument H review since h)) = blockingIdSet (rv_parsed review)"
  using assms(2,3) by (auto simp: selectReviewDocument_def Let_def sameIdSet_iff split: option.splits)

theorem selected_document_matches_verdict_witness:
  "case readAdversarialReviewResult artifact_host (ph_steps lone_review_phase ! 0) (ph_steps lone_review_phase)
       (Some blocking_text) None ([], []) of
     Some review \<Rightarrow>
       blockingIdSet (sd_parsed (selectReviewDocument artifact_host review None ([], []))) =
       blockingIdSet (rv_parsed review)
   | None \<Rightarrow> False"
proof -
  let ?r = "readAdversarialReviewResult artifact_host (ph_steps lone_review_phase ! 0) (ph_steps lone_review_phase)
       (Some blocking_text) None ([], [])"
  have "(case ?r of Some review \<Rightarrow> rv_source review = SourceText \<and> pr_blocking (rv_parsed review) \<noteq> [] | None \<Rightarrow> False)"
    by code_simp
  then obtain review where r: "?r = Some review" and "rv_source review = SourceText"
    and "blockingIdSet (rv_parsed review) \<noteq> {}"
    by (auto simp: blockingIdSet_def split: option.splits)
  from selected_document_matches_verdict [OF this] r show ?thesis by simp
qed

section \<open>The gate after a fan-out\<close>

lemma applyGateDecision_pending:
  assumes "applyGateDecision H d step phase i k w = NextIndex j g w'"
  shows "w_pendingGateRevision w' = w_pendingGateRevision w \<and>
         (d = Revise \<and> loopback_index step (ph_steps phase) \<noteq> None \<longleftrightarrow> g \<noteq> None)"
  using assms
  by (cases d)
     (auto simp: applyGateDecision_def gate_terminal_def gate_revise_def Let_def settle_def reportStep_def
        pushStep_def split: if_splits option.splits)

lemma open_gate_pending:
  assumes "open_gate H runId phase step i ctx k False w = Go j w'"
  shows "w_pendingGateRevision w' = w_pendingGateRevision w"
proof -
  let ?w1 = "emit H (step_event GateOpened runId phase step None) w"
  have "w_pendingGateRevision ?w1 = w_pendingGateRevision w" by (simp add: emit_def split: option.splits)
  with assms show ?thesis
    by (auto simp: open_gate_def Let_def split: prod.splits option.splits next_step.splits
          dest!: applyGateDecision_pending)
qed

definition fan_phase :: WorkflowPhase where
  "fan_phase = sample_phase\<lparr>ph_steps := [sample_step ''plan'',
     (sample_step ''lanes'')\<lparr>st_human := Some True, st_loopback := Some ''plan'',
        st_fanOut := Some \<lparr>fo_over = ''tasks'', fo_inner = [], fo_maxConcurrency = None\<rparr>\<rparr>]\<rparr>"

definition fan_host :: "script host" where
  "fan_host = script_host\<lparr>h_resolveItems := Some (\<lambda>runId over s. Some [''T-1'']),
     h_readGateResolutionNote := Some (\<lambda>i s. Some (Some ''split the task''))\<rparr>"

text \<open>a revise at the trailing gate of a fan-out step does not arm the gate revision: whatever the
  human decides, the pending revision is the one from before the gate, so the note never reaches the
  re-driven steps and an earlier revision is not cleared.\<close>

theorem fan_out_gate_keeps_pending_revision:
  assumes "fanout_stage H runFanOut runId phase step i w = Settled (Go j w')"
  shows "w_pendingGateRevision w' = w_pendingGateRevision w"
  using assms
  by (auto simp: fanout_stage_def canceled_step_def canceled_def settle_def reportStep_def pushStep_def Let_def
        split: if_splits prod.splits FanOutResult.splits option.splits dest!: open_gate_pending)

theorem fan_out_gate_keeps_pending_revision_witness:
  "case fanout_stage fan_host no_fan_out ''r'' fan_phase (ph_steps fan_phase ! 1) 1
       (init_walk fan_host sample_flow {} ([], [Revise])) of
     Settled (Go j w') \<Rightarrow> j = 0 \<and> w_pendingGateRevision w' = None
   | _ \<Rightarrow> False"
proof -
  let ?w = "init_walk fan_host sample_flow {} ([], [Revise])"
  let ?f = "fanout_stage fan_host no_fan_out ''r'' fan_phase (ph_steps fan_phase ! 1) 1 ?w"
  have "(case ?f of Settled (Go j w') \<Rightarrow> j = 0 | _ \<Rightarrow> False)" by code_simp
  then obtain w' where f: "?f = Settled (Go 0 w')" by (auto split: flow.splits visit_result.splits)
  have "w_pendingGateRevision ?w = None" by (simp add: init_walk_def)
  with fan_out_gate_keeps_pending_revision [OF f] f show ?thesis by simp
qed

end
