(* ===== verification/LanePool.thy ===== *)
theory LanePool
  imports Controller
begin

text \<open>
  The rolling dispatch pool of \<open>WorkflowController.runFanOut\<close> (workflowController.ts): which lanes are
  dispatched, parked, held, flushed, pruned and settled.

  A lane's walk (\<open>driveItem\<close>) runs concurrently with its siblings; JavaScript interleaves only at an
  \<open>await\<close>, and between two awaits the pool's code is atomic. The pool awaits the race of the lanes in
  flight, and, only when nothing is in flight, the build-break sweep and the pause seam. So one
  iteration is \<open>pool_top\<close>, from the loop head to the race, then the lanes go on (\<open>lane_finishes\<close>,
  \<open>lane_releases\<close>, \<open>lane_latches\<close>), then \<open>pool_settle\<close> takes one finished lane. What the driver and the host
  answer during an iteration is the record \<open>pool_in\<close>. A \<open>Set\<close> whose order is observed is a distinct
  list, a lane write is an entry of \<open>pl_writes\<close>.
\<close>

section \<open>Outcomes and parks\<close>

datatype LaneWalkOutcome =
    LaneDone
  | LaneAborted
  | LaneSystemic "string option" PauseOrigin "string option" "string option" "string option"
  | LaneFailed "string option" bool

datatype SprintBatchTaskStatus = SbQueued | SbRunning | SbIntegrated | SbFailed | SbBlocked

record ParkPending =
  pp_error :: "string option"
  pp_items :: "string list"
  pp_origins :: "PauseOrigin list"
  pp_providers :: "string list"
  pp_runtimes :: "string list"

definition newPark :: ParkPending where
  "newPark = \<lparr>pp_error = None, pp_items = [], pp_origins = [], pp_providers = [], pp_runtimes = []\<rparr>"

fun sole :: "'a list \<Rightarrow> 'a option" where
  "sole [x] = Some x"
| "sole _ = None"

definition fanOutPauseInfo :: "FanOutInnerStep list \<Rightarrow> ParkPending \<Rightarrow> SystemicPauseInfo" where
  "fanOutPauseInfo inner park =
     \<lparr>pi_blockedAgentKeys =
        js_set (List.map_filter (\<lambda>s. resolveStepAgentKey (fi_id s) (fi_agent s)) inner),
      pi_blockedProvider = sole (pp_providers park),
      pi_blockedRuntime = sole (pp_runtimes park),
      pi_origin = (if FromStep \<in> set (pp_origins park) then FromStep else FromTriage),
      pi_fanOut = True\<rparr>"

definition SAME_ERROR_CORROBORATION_MIN :: nat where "SAME_ERROR_CORROBORATION_MIN = 3"
definition SAME_ERROR_COHORT_MAX_MS :: int where "SAME_ERROR_COHORT_MAX_MS = 120000"

record held =
  he_error :: string
  he_cohort :: "string list"
  he_since :: int

section \<open>The pool\<close>

record pool =
  pl_remaining :: "string list"
  pl_inFlight :: "string list"
  pl_finished :: "string \<rightharpoonup> LaneWalkOutcome"
  pl_integrated :: "string set"
  pl_failed :: "string set"
  pl_blocked :: "string set"
  pl_released :: "string set"
  pl_inScope :: "string set"
  pl_prereqs :: "string \<rightharpoonup> string list"
  pl_expectedFiles :: "(string \<rightharpoonup> string list) option"
  pl_claimedFiles :: "string \<rightharpoonup> string"
  pl_deferred :: "(string \<times> held) list"
  pl_systemicSeen :: "(string \<times> int) list"
  pl_parkPending :: "ParkPending option"
  pl_holdDispatch :: bool
  pl_sawAborted :: bool
  pl_incompleteCount :: nat
  pl_triageLatch :: "string option"
  pl_activeLanes :: "string list"
  pl_overlapped :: "string set"
  pl_laneSlots :: "(string \<times> nat) list"
  pl_knownItems :: "string set"
  pl_systemicPauses :: counter
  pl_systemicGiveUps :: "string set"
  pl_writes :: "(string \<times> SprintBatchTaskStatus) list"

text \<open>The answers of one iteration: the abort signal at the loop head, the driver's item set,
  dependencies and expected files (\<open>None\<close> for an absent or throwing seam), the pause verdict
  (\<open>None\<close> for an absent seam) and the abort signal after the pause.\<close>

record pool_in =
  in_aborted :: bool
  in_fresh :: "string list option"
  in_deps :: "(string \<rightharpoonup> string list) option"
  in_files :: "(string \<rightharpoonup> string list) option"
  in_pause :: "(string option \<Rightarrow> SystemicPauseInfo \<Rightarrow> SystemicPauseVerdict) option"
  in_abortedAfter :: bool

definition lookup_list :: "(string \<rightharpoonup> string list) option \<Rightarrow> string \<Rightarrow> string list" where
  "lookup_list m x = (case m of None \<Rightarrow> [] | Some f \<Rightarrow> (case f x of None \<Rightarrow> [] | Some xs \<Rightarrow> xs))"

definition scoped_prereqs :: "(string \<rightharpoonup> string list) option \<Rightarrow> string set \<Rightarrow> string \<Rightarrow> string list" where
  "scoped_prereqs deps scope x = filter (\<lambda>p. p \<in> scope \<and> p \<noteq> x) (lookup_list deps x)"

definition set_prereqs ::
  "(string \<rightharpoonup> string list) option \<Rightarrow> string set \<Rightarrow> string list \<Rightarrow> (string \<rightharpoonup> string list) \<Rightarrow> (string \<rightharpoonup> string list)" where
  "set_prereqs deps scope ids m = fold (\<lambda>x acc. acc(x \<mapsto> scoped_prereqs deps scope x)) ids m"

definition pool_init ::
  "string list \<Rightarrow> (string \<rightharpoonup> string list) option \<Rightarrow> (string \<rightharpoonup> string list) option \<Rightarrow> string set \<Rightarrow> counter \<Rightarrow> string set
     \<Rightarrow> pool" where
  "pool_init items deps files known pauses giveUps =
     \<lparr>pl_remaining = js_set items, pl_inFlight = [], pl_finished = Map.empty,
      pl_integrated = {}, pl_failed = {}, pl_blocked = {}, pl_released = {},
      pl_inScope = set items, pl_prereqs = set_prereqs deps (set items) items Map.empty,
      pl_expectedFiles = files, pl_claimedFiles = Map.empty, pl_deferred = [], pl_systemicSeen = [],
      pl_parkPending = None, pl_holdDispatch = False, pl_sawAborted = False, pl_incompleteCount = 0,
      pl_triageLatch = None, pl_activeLanes = [], pl_overlapped = {}, pl_laneSlots = [],
      pl_knownItems = known \<union> set items, pl_systemicPauses = pauses, pl_systemicGiveUps = giveUps,
      pl_writes = []\<rparr>"

definition prereqs_of :: "pool \<Rightarrow> string \<Rightarrow> string list" where
  "prereqs_of s x = lookup_list (Some (pl_prereqs s)) x"

definition parked :: "pool \<Rightarrow> string \<Rightarrow> bool" where
  "parked s x = (case pl_parkPending s of None \<Rightarrow> False | Some park \<Rightarrow> x \<in> set (pp_items park))"

definition dead_prereq :: "pool \<Rightarrow> string \<Rightarrow> bool" where
  "dead_prereq s p \<longleftrightarrow> (p \<in> pl_failed s \<and> p \<notin> pl_released s) \<or> p \<in> pl_blocked s"

definition met_prereq :: "pool \<Rightarrow> string \<Rightarrow> bool" where
  "met_prereq s p \<longleftrightarrow> p \<in> pl_integrated s \<or> (p \<in> pl_failed s \<and> p \<in> pl_released s)"

section \<open>Settling writes\<close>

definition driveLane :: "string \<Rightarrow> SprintBatchTaskStatus \<Rightarrow> pool \<Rightarrow> pool" where
  "driveLane x st s = s\<lparr>pl_writes := pl_writes s @ [(x, st)]\<rparr>"

definition markBlocked :: "string \<Rightarrow> pool \<Rightarrow> pool" where
  "markBlocked x s = (driveLane x SbBlocked s)\<lparr>pl_remaining := removeAll x (pl_remaining s),
     pl_blocked := insert x (pl_blocked s), pl_incompleteCount := pl_incompleteCount s + 1\<rparr>"

definition markFailed :: "string \<Rightarrow> pool \<Rightarrow> pool" where
  "markFailed x s = (driveLane x SbFailed s)\<lparr>pl_remaining := removeAll x (pl_remaining s),
     pl_failed := insert x (pl_failed s), pl_incompleteCount := pl_incompleteCount s + 1\<rparr>"

definition settleFailed :: "string \<Rightarrow> bool \<Rightarrow> pool \<Rightarrow> pool" where
  "settleFailed x countIncomplete s = (driveLane x SbFailed s)\<lparr>pl_remaining := removeAll x (pl_remaining s),
     pl_failed := insert x (pl_failed s),
     pl_incompleteCount := (if countIncomplete then pl_incompleteCount s + 1 else pl_incompleteCount s)\<rparr>"

definition flushDeferred :: "string \<Rightarrow> bool \<Rightarrow> pool \<Rightarrow> pool" where
  "flushDeferred x countIncomplete s =
     (if x \<in> fst ` set (pl_deferred s)
      then settleFailed x countIncomplete (s\<lparr>pl_deferred := filter (\<lambda>(y, _). y \<noteq> x) (pl_deferred s)\<rparr>)
      else s)"

section \<open>Re-resolving the item set\<close>

definition settled :: "pool \<Rightarrow> string \<Rightarrow> bool" where
  "settled s x \<longleftrightarrow> x \<in> pl_integrated s \<or> x \<in> pl_failed s \<or> x \<in> pl_blocked s"

definition re_resolve :: "pool_in \<Rightarrow> pool \<Rightarrow> pool" where
  "re_resolve inp s =
     (case in_fresh inp of
        None \<Rightarrow> s
      | Some fresh \<Rightarrow>
          let appeared = filter (\<lambda>x. x \<notin> pl_inScope s) fresh;
              s1 = s\<lparr>pl_knownItems := pl_knownItems s \<union> set appeared\<rparr>;
              scope = pl_inScope s1 \<union> set fresh;
              s2 = (if appeared = [] then s1
                    else s1\<lparr>pl_inScope := scope,
                            pl_prereqs := set_prereqs (in_deps inp) scope appeared (pl_prereqs s1),
                            pl_expectedFiles := (case in_files inp of Some m \<Rightarrow> Some m
                                                 | None \<Rightarrow> pl_expectedFiles s1)\<rparr>)
          in s2\<lparr>pl_remaining := fold js_add (pl_inFlight s2) (js_set (filter (\<lambda>x. \<not> settled s2 x) fresh))\<rparr>)"

section \<open>Dispatch\<close>

text \<open>\<open>lowestFreeLaneSlot\<close>: the least slot that no live lane holds, found within one more than the number
  of taken slots.\<close>

definition lowestFreeLaneSlot :: "(string \<times> nat) list \<Rightarrow> nat" where
  "lowestFreeLaneSlot slots = hd (filter (\<lambda>n. n \<notin> snd ` set slots) [0..<Suc (length slots)])"

definition runLane :: "string \<Rightarrow> pool \<Rightarrow> pool" where
  "runLane x s =
     (let s1 = (if pl_activeLanes s = [] then s
                else s\<lparr>pl_overlapped := insert x (pl_overlapped s \<union> set (pl_activeLanes s))\<rparr>)
      in driveLane x SbRunning
           (s1\<lparr>pl_activeLanes := js_add x (pl_activeLanes s1),
               pl_laneSlots := filter (\<lambda>(y, _). y \<noteq> x) (pl_laneSlots s1) @ [(x, lowestFreeLaneSlot (pl_laneSlots s1))]\<rparr>))"

definition files_of :: "pool \<Rightarrow> string \<Rightarrow> string list" where
  "files_of s x = lookup_list (pl_expectedFiles s) x"

definition launch :: "string \<Rightarrow> pool \<Rightarrow> pool" where
  "launch x s =
     (let s1 = s\<lparr>pl_claimedFiles := fold (\<lambda>f m. m(f \<mapsto> x)) (files_of s x) (pl_claimedFiles s),
                 pl_deferred := map (\<lambda>(y, h). (y, h\<lparr>he_cohort := removeAll x (he_cohort h)\<rparr>))
                                  (filter (\<lambda>(y, _). y \<noteq> x) (pl_deferred s))\<rparr>;
          s2 = runLane x s1
      in s2\<lparr>pl_inFlight := js_add x (pl_inFlight s2)\<rparr>)"

definition dispatchable :: "pool \<Rightarrow> string \<Rightarrow> bool" where
  "dispatchable s x \<longleftrightarrow>
     x \<notin> set (pl_inFlight s) \<and> x \<notin> fst ` set (pl_deferred s) \<and> \<not> parked s x \<and>
     \<not> list_ex (dead_prereq s) (prereqs_of s x) \<and> list_all (met_prereq s) (prereqs_of s x) \<and>
     \<not> list_ex (\<lambda>f. pl_claimedFiles s f \<noteq> None) (files_of s x)"

fun dispatch_over :: "nat \<Rightarrow> string list \<Rightarrow> pool \<Rightarrow> pool" where
  "dispatch_over cap [] s = s"
| "dispatch_over cap (x # xs) s =
     (if length (pl_inFlight s) \<ge> cap then s
      else dispatch_over cap xs (if dispatchable s x then launch x s else s))"

definition dispatch :: "nat \<Rightarrow> pool \<Rightarrow> pool" where
  "dispatch cap s = (if pl_holdDispatch s then s else dispatch_over cap (pl_remaining s) s)"

section \<open>The drain\<close>

definition end_park :: "pool \<Rightarrow> pool" where
  "end_park s = s\<lparr>pl_parkPending := None, pl_holdDispatch := False, pl_triageLatch := None, pl_systemicSeen := []\<rparr>"

text \<open>One pass of the fixpoint over a snapshot of \<open>remaining\<close>; it says whether a lane was marked.\<close>

fun prune_pass :: "string list \<Rightarrow> pool \<Rightarrow> bool \<times> pool" where
  "prune_pass [] s = (False, s)"
| "prune_pass (x # xs) s =
     (if list_ex (dead_prereq s) (prereqs_of s x)
      then (True, snd (prune_pass xs (markBlocked x s)))
      else prune_pass xs s)"

lemma prune_pass_shrinks:
  "set xs \<subseteq> set (pl_remaining s) \<Longrightarrow> distinct xs \<Longrightarrow>
   length (pl_remaining (snd (prune_pass xs s))) + (if fst (prune_pass xs s) then 1 else 0)
     \<le> length (pl_remaining s)"
proof (induction xs arbitrary: s)
  case (Cons x xs)
  show ?case
  proof (cases "list_ex (dead_prereq s) (prereqs_of s x)")
    case True
    have "set xs \<subseteq> set (pl_remaining (markBlocked x s))"
      using Cons.prems by (auto simp: markBlocked_def)
    from Cons.IH [OF this] Cons.prems have
      "length (pl_remaining (snd (prune_pass xs (markBlocked x s)))) \<le> length (pl_remaining (markBlocked x s))"
      by simp
    also have "\<dots> < length (pl_remaining s)"
      using Cons.prems by (simp add: markBlocked_def length_removeAll_less)
    finally show ?thesis using True by simp
  qed (use Cons in simp)
qed simp

text \<open>The \<open>while (progressed)\<close> loop; \<open>remaining\<close> is a \<open>Set\<close>, so the distinctness test always holds.\<close>

function prune_fix :: "pool \<Rightarrow> pool" where
  "prune_fix s =
     (case prune_pass (pl_remaining s) s of
        (progressed, s1) \<Rightarrow> if progressed \<and> distinct (pl_remaining s) then prune_fix s1 else s1)"
  by pat_completeness auto
termination
proof (relation "measure (length \<circ> pl_remaining)", goal_cases)
  case (2 s progressed s1)
  then show ?case using prune_pass_shrinks [of "pl_remaining s" s] by (cases "prune_pass (pl_remaining s) s") auto
qed simp

declare prune_fix.simps [simp del]

definition prune :: "pool \<Rightarrow> pool" where
  "prune s = (let s1 = prune_fix s in fold markBlocked (pl_remaining s1) s1)"

datatype pool_next =
    PoolRace pool
  | PoolAgain pool
  | PoolReturn bool pool

definition fail_parked :: "string list \<Rightarrow> pool \<Rightarrow> pool" where
  "fail_parked = fold (\<lambda>x s. if x \<in> set (pl_remaining s) then markFailed x s else s)"

definition settle_park :: "string \<Rightarrow> FanOutInnerStep list \<Rightarrow> pool_in \<Rightarrow> ParkPending \<Rightarrow> pool \<Rightarrow> pool_next" where
  "settle_park stepId inner inp park s =
     (case in_pause inp of
        Some pause \<Rightarrow>
          if used_of (pl_systemicPauses s) stepId < MAX_SYSTEMIC_PAUSES \<and> stepId \<notin> pl_systemicGiveUps s
          then
            let s1 = s\<lparr>pl_systemicPauses := bump (pl_systemicPauses s) stepId\<rparr>;
                verdict = pause (pp_error park) (fanOutPauseInfo inner park)
            in if verdict = PauseCanceled \<or> in_abortedAfter inp then PoolReturn True s1
               else if verdict = PauseRetry then PoolAgain (end_park s1)
               else PoolAgain (end_park (fail_parked (pp_items park)
                      (s1\<lparr>pl_systemicGiveUps := insert stepId (pl_systemicGiveUps s1)\<rparr>)))
          else PoolAgain (end_park (fail_parked (pp_items park) s))
      | None \<Rightarrow> PoolAgain (end_park (fail_parked (pp_items park) s)))"

definition flush_unparked :: "pool \<Rightarrow> pool" where
  "flush_unparked s = fold (\<lambda>x s. if parked s x then s else flushDeferred x True s) (map fst (pl_deferred s)) s"

definition drain :: "string \<Rightarrow> FanOutInnerStep list \<Rightarrow> pool_in \<Rightarrow> pool \<Rightarrow> pool_next" where
  "drain stepId inner inp s =
     (let s1 = flush_unparked s
      in if pl_sawAborted s1
         then PoolReturn True (fold (\<lambda>x. flushDeferred x False) (map fst (pl_deferred s1)) s1)
         else case pl_parkPending s1 of
                Some park \<Rightarrow> settle_park stepId inner inp park s1
              | None \<Rightarrow> PoolReturn False (if pl_remaining s1 \<noteq> [] then prune s1 else s1))"

section \<open>One iteration up to the race\<close>

definition pool_top :: "nat \<Rightarrow> string \<Rightarrow> FanOutInnerStep list \<Rightarrow> pool_in \<Rightarrow> pool \<Rightarrow> pool_next" where
  "pool_top cap stepId inner inp s =
     (if pl_remaining s = [] \<and> pl_inFlight s = [] then PoolReturn False s
      else
        let s1 = (if in_aborted inp then s\<lparr>pl_sawAborted := True, pl_holdDispatch := True\<rparr> else s);
            s2 = re_resolve inp s1
        in if in_fresh inp \<noteq> None \<and> pl_remaining s2 = [] \<and> pl_inFlight s2 = [] then PoolReturn False s2
           else
             let s3 = dispatch cap s2
             in if pl_inFlight s3 = [] then drain stepId inner inp s3 else PoolRace s3)"

section \<open>The lanes between two iterations\<close>

text \<open>A lane's walk ends: its \<open>finally\<close> frees the worktree mark and the slot; the pool sees the outcome
  when it wins a race.\<close>

definition lane_finishes :: "string \<Rightarrow> LaneWalkOutcome \<Rightarrow> pool \<Rightarrow> pool" where
  "lane_finishes x outcome s =
     s\<lparr>pl_finished := (pl_finished s)(x \<mapsto> outcome), pl_activeLanes := removeAll x (pl_activeLanes s),
       pl_laneSlots := filter (\<lambda>(y, _). y \<noteq> x) (pl_laneSlots s)\<rparr>"

definition lane_releases :: "string \<Rightarrow> pool \<Rightarrow> pool" where
  "lane_releases x s = s\<lparr>pl_released := insert x (pl_released s)\<rparr>"

definition lane_latches :: "string \<Rightarrow> pool \<Rightarrow> pool" where
  "lane_latches e s = s\<lparr>pl_triageLatch := Some e\<rparr>"

section \<open>Settling one lane\<close>

definition leave_flight :: "string \<Rightarrow> pool \<Rightarrow> pool" where
  "leave_flight x s =
     s\<lparr>pl_inFlight := removeAll x (pl_inFlight s),
       pl_finished := (pl_finished s)(x := None),
       pl_claimedFiles := (\<lambda>f. if pl_claimedFiles s f = Some x then None else pl_claimedFiles s f),
       pl_deferred := map (\<lambda>(y, h). (y, h\<lparr>he_cohort := removeAll x (he_cohort h)\<rparr>)) (pl_deferred s)\<rparr>"

definition open_park :: "pool \<Rightarrow> ParkPending" where
  "open_park s = (case pl_parkPending s of Some park \<Rightarrow> park | None \<Rightarrow> newPark)"

definition settle_systemic ::
  "string \<Rightarrow> string option \<Rightarrow> PauseOrigin \<Rightarrow> string option \<Rightarrow> string option \<Rightarrow> int \<Rightarrow> pool \<Rightarrow> pool" where
  "settle_systemic x error origin provider runtime now s =
     (let park0 = (open_park s)\<lparr>pp_items := js_add x (pp_items (open_park s)),
                                pp_origins := js_add origin (pp_origins (open_park s))\<rparr>;
          add = (\<lambda>v vs. case v of Some y \<Rightarrow> js_add y vs | None \<Rightarrow> vs);
          park1 = (if origin = FromStep
                   then park0\<lparr>pp_providers := add provider (pp_providers park0),
                              pp_runtimes := add runtime (pp_runtimes park0)\<rparr>
                   else park0);
          park2 = (if error \<noteq> None then park1\<lparr>pp_error := error\<rparr> else park1);
          seen = (case error of None \<Rightarrow> [] | Some e \<Rightarrow> if trim e = [] then [] else [(trim e, now)])
      in s\<lparr>pl_parkPending := Some park2, pl_systemicSeen := pl_systemicSeen s @ seen, pl_holdDispatch := True\<rparr>)"

definition settle_failed_lane :: "string \<Rightarrow> string option \<Rightarrow> bool \<Rightarrow> int \<Rightarrow> pool \<Rightarrow> pool" where
  "settle_failed_lane x error persisted now s =
     (let text = (case error of None \<Rightarrow> [] | Some e \<Rightarrow> trim e)
      in if persisted
         then s\<lparr>pl_remaining := removeAll x (pl_remaining s), pl_failed := insert x (pl_failed s),
                pl_incompleteCount := pl_incompleteCount s + 1\<rparr>
         else if text = [] then settleFailed x True s
         else s\<lparr>pl_deferred := filter (\<lambda>(y, _). y \<noteq> x) (pl_deferred s) @
                  [(x, \<lparr>he_error = text, he_cohort = pl_inFlight s, he_since = now\<rparr>)]\<rparr>)"

definition settle_outcome :: "string \<Rightarrow> LaneWalkOutcome \<Rightarrow> int \<Rightarrow> pool \<Rightarrow> pool" where
  "settle_outcome x outcome now s =
     (case outcome of
        LaneAborted \<Rightarrow> s\<lparr>pl_sawAborted := True, pl_holdDispatch := True\<rparr>
      | LaneSystemic error origin stepId provider runtime \<Rightarrow>
          settle_systemic x error origin provider runtime now s
      | LaneFailed error persisted \<Rightarrow> settle_failed_lane x error persisted now s
      | LaneDone \<Rightarrow> s\<lparr>pl_remaining := removeAll x (pl_remaining s), pl_integrated := insert x (pl_integrated s)\<rparr>)"

text \<open>Corroboration: the held failures and the remembered systemic texts of the window, grouped by
  their exact text in the order of the maps.\<close>

type_synonym group = "string \<times> string list \<times> nat"

fun add_to_group :: "string \<Rightarrow> string list \<Rightarrow> nat \<Rightarrow> group list \<Rightarrow> group list" where
  "add_to_group t xs n [] = [(t, xs, n)]"
| "add_to_group t xs n ((u, ys, k) # gs) =
     (if u = t then (u, ys @ xs, k + n) # gs else (u, ys, k) # add_to_group t xs n gs)"

definition error_groups :: "int \<Rightarrow> pool \<Rightarrow> group list" where
  "error_groups windowStart s =
     (let fresh_holds = filter (\<lambda>(x, h). \<not> parked s x \<and> he_since h > windowStart) (pl_deferred s);
          gs = fold (\<lambda>(x, h). add_to_group (he_error h) [x] 0) fresh_holds []
      in fold (\<lambda>(e, at). add_to_group e [] 1) (filter (\<lambda>(e, at). at > windowStart) (pl_systemicSeen s)) gs)"

definition park_group :: "group \<Rightarrow> pool \<Rightarrow> pool" where
  "park_group g s =
     (case g of (text, items, systemic) \<Rightarrow>
        if items = [] then s
        else if systemic = 0 \<and> length items < SAME_ERROR_CORROBORATION_MIN then s
        else
          let park = open_park s
          in s\<lparr>pl_deferred := filter (\<lambda>(x, _). x \<notin> set items) (pl_deferred s),
               pl_parkPending := Some (park\<lparr>pp_items := fold js_add items (pp_items park),
                                          pp_origins := js_add FromStep (pp_origins park),
                                          pp_error := (case pp_error park of None \<Rightarrow> Some text | Some e \<Rightarrow> Some e)\<rparr>),
               pl_holdDispatch := True\<rparr>)"

definition corroborate :: "int \<Rightarrow> pool \<Rightarrow> pool" where
  "corroborate windowStart s = fold park_group (error_groups windowStart s) s"

definition flush_expired :: "int \<Rightarrow> pool \<Rightarrow> pool" where
  "flush_expired windowStart s =
     fold (\<lambda>(x, h) s. if parked s x \<or> (he_cohort h \<noteq> [] \<and> he_since h > windowStart) then s
                     else flushDeferred x True s) (pl_deferred s) s"

definition age_seen :: "int \<Rightarrow> pool \<Rightarrow> pool" where
  "age_seen windowStart s = s\<lparr>pl_systemicSeen := filter (\<lambda>(e, at). at > windowStart) (pl_systemicSeen s)\<rparr>"

definition pool_settle :: "string \<Rightarrow> LaneWalkOutcome \<Rightarrow> int \<Rightarrow> pool \<Rightarrow> pool" where
  "pool_settle x outcome now s =
     (let windowStart = now - SAME_ERROR_COHORT_MAX_MS
      in age_seen windowStart (flush_expired windowStart (corroborate windowStart
           (settle_outcome x outcome now (leave_flight x s)))))"

end
