(* ===== verification/LanePoolMoves.thy ===== *)
theory LanePoolMoves
  imports LanePool
begin

text \<open>
  The moves of the pool: the atomic changes that the operations of LanePool are made of, as an inductive
  relation, and the well-formedness that each of them keeps. A lane of the batch is in one place at a
  time (remaining, in flight, held, parked, settled), every cohort, file claim and finished walk belongs
  to a lane in flight, and dispatch is held exactly while a park is pending or an abort was seen.
\<close>

section \<open>The moves of the pool\<close>

definition held_keys :: "pool \<Rightarrow> string set" where
  "held_keys s = fst ` set (pl_deferred s)"

text \<open>A lane that is none of in flight, held and parked.\<close>

definition loose :: "string \<Rightarrow> pool \<Rightarrow> bool" where
  "loose x s \<longleftrightarrow> x \<in> set (pl_remaining s) \<and> x \<notin> set (pl_inFlight s) \<and> x \<notin> held_keys s \<and> \<not> parked s x"

inductive pool_move :: "nat \<Rightarrow> pool_in set \<Rightarrow> pool \<Rightarrow> pool \<Rightarrow> bool" for cap ins where
  abort: "pool_move cap ins s (s\<lparr>pl_sawAborted := True, pl_holdDispatch := True\<rparr>)"
| resolve: "inp \<in> ins \<Longrightarrow> pool_move cap ins s (re_resolve inp s)"
| launch: "x \<in> set (pl_remaining s) \<Longrightarrow> dispatchable s x \<Longrightarrow> length (pl_inFlight s) < cap \<Longrightarrow>
    \<not> pl_holdDispatch s \<Longrightarrow> pool_move cap ins s (launch x s)"
| finish: "x \<in> set (pl_inFlight s) \<Longrightarrow> pl_finished s x = None \<Longrightarrow> pool_move cap ins s (lane_finishes x oc s)"
| release: "x \<in> set (pl_inFlight s) \<Longrightarrow> pl_finished s x = None \<Longrightarrow> x \<notin> pl_released s \<Longrightarrow> pool_move cap ins s (lane_releases x s)"
| latch: "pl_triageLatch s = None \<Longrightarrow> pool_move cap ins s (lane_latches e s)"
| settle: "pl_finished s x = Some oc \<Longrightarrow> pool_move cap ins s (settle_outcome x oc now (leave_flight x s))"
| park: "\<forall>x \<in> set (fst (snd g)). x \<in> held_keys s \<or> parked s x \<Longrightarrow> pool_move cap ins s (park_group g s)"
| flush: "x \<in> held_keys s \<Longrightarrow> pool_move cap ins s (flushDeferred x True s)"
| age: "pool_move cap ins s (age_seen t s)"
| pause: "\<forall>k. used_of (pl_systemicPauses s) k \<le> used_of pauses k \<Longrightarrow> pl_systemicGiveUps s \<subseteq> giveUps \<Longrightarrow>
    pool_move cap ins s (s\<lparr>pl_systemicPauses := pauses, pl_systemicGiveUps := giveUps\<rparr>)"
| retry: "\<not> pl_sawAborted s \<Longrightarrow> pool_move cap ins s (end_park s)"
| give_up: "\<not> pl_sawAborted s \<Longrightarrow> pl_parkPending s = Some p \<Longrightarrow> pl_inFlight s = [] \<Longrightarrow> pl_deferred s = [] \<Longrightarrow>
    pool_move cap ins s (end_park (fail_parked (pp_items p) s))"

definition park_items :: "pool \<Rightarrow> string set" where
  "park_items s = (case pl_parkPending s of None \<Rightarrow> {} | Some p \<Rightarrow> set (pp_items p))"

lemma parked_iff [simp]: "parked s x \<longleftrightarrow> x \<in> park_items s"
  by (auto simp: parked_def park_items_def split: option.splits)

text \<open>Where a lane is: remaining \<open>R\<close>, in flight \<open>F\<close>, held \<open>K\<close>, parked \<open>P\<close>, integrated \<open>I\<close>, failed \<open>X\<close>; all
  within the scope \<open>S\<close>.\<close>

definition places :: "'a set \<Rightarrow> 'a set \<Rightarrow> 'a set \<Rightarrow> 'a set \<Rightarrow> 'a set \<Rightarrow> 'a set \<Rightarrow> 'a set \<Rightarrow> bool" where
  "places R F K P I X S \<longleftrightarrow> F \<subseteq> R \<and> I \<inter> X = {} \<and> (R \<union> K \<union> P) \<inter> (I \<union> X) = {} \<and>
     R \<union> K \<union> P \<union> I \<union> X \<subseteq> S \<and> F \<inter> (K \<union> P) = {} \<and> K \<inter> P = {}"

lemma places_resolve:
  "places R F K P I X S \<Longrightarrow> A \<subseteq> S' \<Longrightarrow> S \<subseteq> S' \<Longrightarrow> places ({x \<in> A. x \<notin> I \<and> x \<notin> X} \<union> F) F K P I X S'"
  by (auto simp: places_def)

lemma places_launch: "places R F K P I X S \<Longrightarrow> x \<in> R \<Longrightarrow> x \<notin> P \<Longrightarrow> places R (insert x F) (K - {x}) P I X S"
  by (auto simp: places_def)

lemma places_leave: "places R F K P I X S \<Longrightarrow> places R (F - {x}) K P I X S"
  by (auto simp: places_def)

lemma places_integrate:
  "places R F K P I X S \<Longrightarrow> x \<in> R \<Longrightarrow> x \<notin> F \<Longrightarrow> x \<notin> K \<Longrightarrow> x \<notin> P \<Longrightarrow> places (R - {x}) F K P (insert x I) X S"
  by (auto simp: places_def)

lemma places_fail:
  "places R F K P I X S \<Longrightarrow> x \<in> R \<union> K \<Longrightarrow> x \<notin> F \<Longrightarrow> x \<notin> P \<Longrightarrow> places (R - {x}) F (K - {x}) P I (insert x X) S"
  by (auto simp: places_def)

lemma places_hold:
  "places R F K P I X S \<Longrightarrow> x \<in> R \<Longrightarrow> x \<notin> F \<Longrightarrow> x \<notin> P \<Longrightarrow> places R F (insert x K) P I X S"
  by (auto simp: places_def)

lemma places_park:
  "places R F K P I X S \<Longrightarrow> A \<subseteq> R \<union> K \<union> P \<Longrightarrow> A \<inter> F = {} \<Longrightarrow> places R F (K - A) (A \<union> P) I X S"
  by (auto simp: places_def)

lemma places_unpark: "places R F K P I X S \<Longrightarrow> places R F K {} I X S"
  by (auto simp: places_def)

definition lists_ok :: "pool \<Rightarrow> bool" where
  "lists_ok s \<longleftrightarrow> distinct (pl_remaining s) \<and> distinct (pl_inFlight s) \<and> distinct (map fst (pl_deferred s)) \<and>
     finite (pl_integrated s) \<and> finite (pl_failed s) \<and> pl_blocked s = {}"

definition places_ok :: "pool \<Rightarrow> bool" where
  "places_ok s \<longleftrightarrow> places (set (pl_remaining s)) (set (pl_inFlight s)) (held_keys s) (park_items s)
     (pl_integrated s) (pl_failed s) (pl_inScope s)"

definition links_ok :: "pool \<Rightarrow> bool" where
  "links_ok s \<longleftrightarrow>
     (\<forall>x h y. (x, h) \<in> set (pl_deferred s) \<longrightarrow> y \<in> set (he_cohort h) \<longrightarrow> y \<in> set (pl_inFlight s)) \<and>
     ran (pl_claimedFiles s) \<subseteq> set (pl_inFlight s) \<and> dom (pl_finished s) \<subseteq> set (pl_inFlight s) \<and>
     (pl_holdDispatch s \<longleftrightarrow> pl_parkPending s \<noteq> None \<or> pl_sawAborted s)"

definition wf_pool :: "pool \<Rightarrow> bool" where
  "wf_pool s \<longleftrightarrow> lists_ok s \<and> places_ok s \<and> links_ok s"

lemma claim_fold [simp]: "fold (\<lambda>f m. m(f \<mapsto> x)) fs m f = (if f \<in> set fs then Some x else m f)"
  by (induction fs arbitrary: m) auto

lemma ran_claims: "ran (fold (\<lambda>f m. m(f \<mapsto> x)) fs m) \<subseteq> insert x (ran m)"
  by (auto simp: ran_def split: if_splits)

lemma key_image [simp]:
  "fst ` (\<lambda>(y, h). (y, f h)) ` A = fst ` A" "fst ` {e \<in> A. case e of (y, _) \<Rightarrow> y \<noteq> x} = fst ` A - {x}"
  "fst ` {e \<in> A. case e of (y, _) \<Rightarrow> y \<notin> B} = fst ` A - B"
  by force+

lemma map_fst_cohort [simp]: "map (fst \<circ> (\<lambda>(y, h). (y, f h))) ds = map fst ds"
  by (simp add: case_prod_beta comp_def)

lemma distinct_drop_key [simp]: "distinct (map fst ds) \<Longrightarrow> distinct (map fst (filter P ds))"
  by (rule distinct_map_filter)

section \<open>What each operation changes\<close>

named_theorems pool_simps

lemma resolve_simps [pool_simps]:
  "pl_inFlight (re_resolve inp s) = pl_inFlight s" "pl_integrated (re_resolve inp s) = pl_integrated s"
  "pl_failed (re_resolve inp s) = pl_failed s" "pl_blocked (re_resolve inp s) = pl_blocked s"
  "pl_deferred (re_resolve inp s) = pl_deferred s" "pl_parkPending (re_resolve inp s) = pl_parkPending s"
  "pl_claimedFiles (re_resolve inp s) = pl_claimedFiles s" "pl_finished (re_resolve inp s) = pl_finished s"
  "pl_holdDispatch (re_resolve inp s) = pl_holdDispatch s" "pl_sawAborted (re_resolve inp s) = pl_sawAborted s"
  "pl_released (re_resolve inp s) = pl_released s" "pl_incompleteCount (re_resolve inp s) = pl_incompleteCount s"
  "pl_writes (re_resolve inp s) = pl_writes s" "pl_activeLanes (re_resolve inp s) = pl_activeLanes s"
  "pl_laneSlots (re_resolve inp s) = pl_laneSlots s" "pl_overlapped (re_resolve inp s) = pl_overlapped s"
  "pl_systemicPauses (re_resolve inp s) = pl_systemicPauses s"
  "pl_systemicGiveUps (re_resolve inp s) = pl_systemicGiveUps s"
  by (simp_all add: re_resolve_def Let_def split: option.splits)

lemma resolve_scope: "pl_inScope s \<subseteq> pl_inScope (re_resolve inp s)"
  by (auto simp: re_resolve_def Let_def split: option.splits)

lemma resolve_remaining:
  "in_fresh inp = None \<Longrightarrow> pl_remaining (re_resolve inp s) = pl_remaining s"
  "in_fresh inp = Some fresh \<Longrightarrow> set (pl_remaining (re_resolve inp s)) =
     {x \<in> set fresh. \<not> settled s x} \<union> set (pl_inFlight s)"
  "in_fresh inp = Some fresh \<Longrightarrow> set fresh \<subseteq> pl_inScope (re_resolve inp s)"
  "distinct (pl_remaining s) \<Longrightarrow> distinct (pl_remaining (re_resolve inp s))"
  by (auto simp: re_resolve_def Let_def settled_def filter_empty_conv split: option.splits)

lemma launch_simps [pool_simps]:
  "pl_remaining (launch x s) = pl_remaining s" "pl_inFlight (launch x s) = js_add x (pl_inFlight s)"
  "pl_integrated (launch x s) = pl_integrated s" "pl_failed (launch x s) = pl_failed s"
  "pl_blocked (launch x s) = pl_blocked s" "pl_parkPending (launch x s) = pl_parkPending s"
  "pl_finished (launch x s) = pl_finished s" "pl_holdDispatch (launch x s) = pl_holdDispatch s"
  "pl_sawAborted (launch x s) = pl_sawAborted s" "pl_inScope (launch x s) = pl_inScope s"
  "pl_prereqs (launch x s) = pl_prereqs s" "pl_expectedFiles (launch x s) = pl_expectedFiles s"
  "pl_released (launch x s) = pl_released s" "pl_incompleteCount (launch x s) = pl_incompleteCount s"
  "pl_writes (launch x s) = pl_writes s @ [(x, SbRunning)]"
  "pl_systemicPauses (launch x s) = pl_systemicPauses s" "pl_systemicGiveUps (launch x s) = pl_systemicGiveUps s"
  "pl_claimedFiles (launch x s) = fold (\<lambda>f m. m(f \<mapsto> x)) (files_of s x) (pl_claimedFiles s)"
  "pl_deferred (launch x s) = map (\<lambda>(y, h). (y, h\<lparr>he_cohort := removeAll x (he_cohort h)\<rparr>))
      (filter (\<lambda>(y, _). y \<noteq> x) (pl_deferred s))"
  by (simp_all add: launch_def runLane_def driveLane_def Let_def)

lemma wf_poolI: "lists_ok s \<Longrightarrow> places_ok s \<Longrightarrow> links_ok s \<Longrightarrow> wf_pool s"
  by (simp add: wf_pool_def)

lemma wf_poolD: "wf_pool s \<Longrightarrow> lists_ok s" "wf_pool s \<Longrightarrow> places_ok s" "wf_pool s \<Longrightarrow> links_ok s"
  by (simp_all add: wf_pool_def)

lemma resolve_views [simp]:
  "park_items (re_resolve inp s) = park_items s" "held_keys (re_resolve inp s) = held_keys s"
  by (simp_all add: park_items_def held_keys_def pool_simps)

lemma launch_views [simp]:
  "park_items (launch x s) = park_items s" "held_keys (launch x s) = held_keys s - {x}"
  by (simp_all add: park_items_def held_keys_def pool_simps)

lemma leave_views [simp]:
  "park_items (leave_flight x s) = park_items s" "held_keys (leave_flight x s) = held_keys s"
  by (simp_all add: park_items_def held_keys_def leave_flight_def)

lemma wf_resolve:
  assumes wf: "wf_pool s" shows "wf_pool (re_resolve inp s)"
proof (cases "in_fresh inp")
  case None
  then have "re_resolve inp s = s" by (simp add: re_resolve_def)
  with wf show ?thesis by simp
next
  case (Some fresh)
  from wf have st: "settled s = (\<lambda>x. x \<in> pl_integrated s \<or> x \<in> pl_failed s)"
    by (auto simp: settled_def wf_pool_def lists_ok_def)
  show ?thesis
  proof (rule wf_poolI)
    show "lists_ok (re_resolve inp s)" "links_ok (re_resolve inp s)"
      using wf_poolD [OF wf] by (simp_all add: lists_ok_def links_ok_def pool_simps resolve_remaining(4))
    show "places_ok (re_resolve inp s)"
      using places_resolve [OF _ resolve_remaining(3) [OF Some] resolve_scope] wf_poolD(2) [OF wf]
      by (simp add: places_ok_def pool_simps resolve_remaining(2) [OF Some] st)
  qed
qed

lemma wf_launch:
  assumes wf: "wf_pool s" and x: "x \<in> set (pl_remaining s)" "dispatchable s x"
  shows "wf_pool (launch x s)"
proof (rule wf_poolI)
  show "lists_ok (launch x s)"
    using wf_poolD(1) [OF wf] by (simp add: lists_ok_def pool_simps)
  show "places_ok (launch x s)" using wf_poolD(2) [OF wf] x
    by (simp add: places_ok_def pool_simps dispatchable_def places_launch)
  show "links_ok (launch x s)" using wf_poolD(3) [OF wf] ran_claims [of x "files_of s x" "pl_claimedFiles s"]
    by (auto simp: links_ok_def pool_simps)
qed

lemma wf_leave: assumes wf: "wf_pool s" shows "wf_pool (leave_flight x s)"
proof (rule wf_poolI)
  show "lists_ok (leave_flight x s)"
    using wf_poolD(1) [OF wf] by (simp add: lists_ok_def leave_flight_def distinct_removeAll)
  show "places_ok (leave_flight x s)" using places_leave wf_poolD(2) [OF wf]
    by (simp add: places_ok_def, simp add: leave_flight_def)
  show "links_ok (leave_flight x s)" using wf_poolD(3) [OF wf]
    by (auto simp: links_ok_def leave_flight_def ran_def split: if_splits)
qed

text \<open>A failed settlement with or without a write.\<close>

definition fail_lane :: "string \<Rightarrow> (string \<times> SprintBatchTaskStatus) list \<Rightarrow> pool \<Rightarrow> pool" where
  "fail_lane x ws s = s\<lparr>pl_writes := pl_writes s @ ws, pl_remaining := removeAll x (pl_remaining s),
     pl_deferred := filter (\<lambda>(y, _). y \<noteq> x) (pl_deferred s), pl_failed := insert x (pl_failed s),
     pl_incompleteCount := pl_incompleteCount s + 1\<rparr>"

lemma wf_fail:
  assumes wf: "wf_pool s" and x: "x \<in> set (pl_remaining s) \<union> held_keys s" "x \<notin> set (pl_inFlight s)" "x \<notin> park_items s"
  shows "wf_pool (fail_lane x ws s)"
proof (rule wf_poolI)
  show "lists_ok (fail_lane x ws s)"
    using wf_poolD(1) [OF wf] by (simp add: lists_ok_def fail_lane_def distinct_removeAll)
  have "held_keys (fail_lane x ws s) = held_keys s - {x}" "park_items (fail_lane x ws s) = park_items s"
    by (simp_all add: held_keys_def park_items_def fail_lane_def)
  then show "places_ok (fail_lane x ws s)" using places_fail [OF _ x] wf_poolD(2) [OF wf]
    by (simp add: places_ok_def, simp add: fail_lane_def)
  show "links_ok (fail_lane x ws s)" using wf_poolD(3) [OF wf]
    by (auto simp: links_ok_def fail_lane_def)
qed

lemma no_key_filter: "x \<notin> held_keys s \<Longrightarrow> filter (\<lambda>(y, _). y \<noteq> x) (pl_deferred s) = pl_deferred s"
  by (force simp: held_keys_def filter_id_conv)

lemma markFailed_fail: "x \<notin> held_keys s \<Longrightarrow> markFailed x s = fail_lane x [(x, SbFailed)] s"
  by (simp add: markFailed_def fail_lane_def driveLane_def no_key_filter)

lemma flush_fail: "x \<in> held_keys s \<Longrightarrow> flushDeferred x True s = fail_lane x [(x, SbFailed)] s"
  by (simp add: flushDeferred_def settleFailed_def fail_lane_def driveLane_def held_keys_def)

definition hold_lane :: "string \<Rightarrow> held \<Rightarrow> pool \<Rightarrow> pool" where
  "hold_lane x h s = s\<lparr>pl_deferred := filter (\<lambda>(y, _). y \<noteq> x) (pl_deferred s) @ [(x, h)]\<rparr>"

lemma settle_failed_cases:
  "x \<notin> held_keys s \<Longrightarrow>
   settle_failed_lane x e per now s = fail_lane x (if per then [] else [(x, SbFailed)]) s \<or>
   (\<exists>t. settle_failed_lane x e per now s = hold_lane x \<lparr>he_error = t, he_cohort = pl_inFlight s, he_since = now\<rparr> s)"
  by (auto simp: settle_failed_lane_def fail_lane_def no_key_filter hold_lane_def settleFailed_def driveLane_def
      Let_def)

lemma wf_hold:
  assumes wf: "wf_pool s" and x: "loose x s" and h: "set (he_cohort h) \<subseteq> set (pl_inFlight s)"
  shows "wf_pool (hold_lane x h s)"
proof (rule wf_poolI)
  show "lists_ok (hold_lane x h s)"
    using wf_poolD(1) [OF wf] by (auto simp: lists_ok_def hold_lane_def)
  have "held_keys (hold_lane x h s) = insert x (held_keys s)" "park_items (hold_lane x h s) = park_items s"
    by (auto simp: held_keys_def park_items_def hold_lane_def)
  then show "places_ok (hold_lane x h s)"
    using places_hold [OF wf_poolD(2) [OF wf, unfolded places_ok_def], of x] x
    by (simp add: places_ok_def loose_def, simp add: hold_lane_def)
  show "links_ok (hold_lane x h s)" using wf_poolD(3) [OF wf] h
    by (auto simp: links_ok_def hold_lane_def)
qed

text \<open>A park takes a set of lanes from the holds and from the loose lanes.\<close>

definition park_lanes :: "string set \<Rightarrow> ParkPending \<Rightarrow> (string \<times> int) list \<Rightarrow> pool \<Rightarrow> pool" where
  "park_lanes A p seen s = s\<lparr>pl_deferred := filter (\<lambda>(y, _). y \<notin> A) (pl_deferred s), pl_parkPending := Some p,
     pl_systemicSeen := pl_systemicSeen s @ seen, pl_holdDispatch := True\<rparr>"

lemma wf_park:
  assumes wf: "wf_pool s" and A: "A \<subseteq> set (pl_remaining s) \<union> held_keys s \<union> park_items s" "A \<inter> set (pl_inFlight s) = {}"
    and p: "set (pp_items p) = A \<union> park_items s"
  shows "wf_pool (park_lanes A p seen s)"
proof (rule wf_poolI)
  show "lists_ok (park_lanes A p seen s)"
    using wf_poolD(1) [OF wf] by (auto simp: lists_ok_def park_lanes_def)
  have "held_keys (park_lanes A p seen s) = held_keys s - A" "park_items (park_lanes A p seen s) = A \<union> park_items s"
    using p by (auto simp: held_keys_def park_items_def park_lanes_def)
  then show "places_ok (park_lanes A p seen s)" using places_park [OF _ A] wf_poolD(2) [OF wf]
    by (simp add: places_ok_def, simp add: park_lanes_def)
  show "links_ok (park_lanes A p seen s)" using wf_poolD(3) [OF wf]
    by (auto simp: links_ok_def park_lanes_def)
qed

lemma open_park_items: "set (pp_items (open_park s)) = park_items s"
  by (simp add: open_park_def park_items_def newPark_def split: option.splits)

lemma systemic_park_lanes:
  assumes "x \<notin> held_keys s"
  shows "\<exists>p seen. settle_systemic x e orig prov r now s = park_lanes {x} p seen s \<and>
           set (pp_items p) = {x} \<union> park_items s"
  unfolding settle_systemic_def Let_def park_lanes_def
  by (rule exI, rule exI, rule conjI, (simp add: no_key_filter [OF assms]; rule refl))
    (simp add: open_park_items)

lemma park_group_lanes:
  "park_group g s = s \<or> (\<exists>p. park_group g s = park_lanes (set (fst (snd g))) p [] s \<and>
     set (pp_items p) = set (fst (snd g)) \<union> park_items s)"
  by (auto simp: park_group_def park_lanes_def Let_def open_park_items split: prod.splits)

lemma wf_integrate:
  assumes wf: "wf_pool s" and x: "loose x s"
  shows "wf_pool (settle_outcome x LaneDone now s)"
proof (rule wf_poolI)
  note wf = wf_poolD [OF wf]
  let ?t = "settle_outcome x LaneDone now s"
  show "lists_ok ?t" "links_ok ?t"
    using wf by (simp_all add: lists_ok_def links_ok_def settle_outcome_def distinct_removeAll)
  have "held_keys ?t = held_keys s" "park_items ?t = park_items s"
    by (simp_all add: held_keys_def park_items_def settle_outcome_def)
  then show "places_ok ?t"
    using places_integrate [OF wf(2) [unfolded places_ok_def], of x] x
    by (simp add: places_ok_def loose_def, simp add: settle_outcome_def)
qed

lemma wf_abort: "wf_pool s \<Longrightarrow> wf_pool (s\<lparr>pl_sawAborted := True, pl_holdDispatch := True\<rparr>)"
  by (simp add: wf_pool_def lists_ok_def places_ok_def links_ok_def held_keys_def park_items_def)

lemma wf_systemic:
  assumes "wf_pool s" and "loose x s"
  shows "wf_pool (settle_systemic x e orig prov r now s)"
proof -
  obtain q seen where q: "settle_systemic x e orig prov r now s = park_lanes {x} q seen s"
    "set (pp_items q) = {x} \<union> park_items s"
    using systemic_park_lanes [of x s e orig prov r now] assms by (auto simp: loose_def)
  show ?thesis unfolding q(1) using assms q(2) by (intro wf_park) (auto simp: loose_def)
qed

lemma wf_failed_lane:
  assumes "wf_pool s" and "loose x s"
  shows "wf_pool (settle_failed_lane x e per now s)"
proof -
  have "x \<notin> held_keys s" using assms by (simp add: loose_def)
  from settle_failed_cases [OF this, of e per now] show ?thesis
    using wf_fail [of s x] wf_hold [of s x] assms by (auto simp: loose_def)
qed

lemma leave_loose:
  assumes "wf_pool s" and "pl_finished s x = Some oc"
  shows "loose x (leave_flight x s)"
proof -
  have "x \<in> set (pl_inFlight s)" using assms wf_poolD(3) by (auto simp: links_ok_def)
  then have "x \<in> set (pl_remaining s)" "x \<notin> held_keys s" "x \<notin> park_items s"
    using wf_poolD(2) [OF assms(1)] by (auto simp: places_ok_def places_def)
  then show ?thesis by (simp add: loose_def, simp add: leave_flight_def)
qed

lemma wf_settle:
  assumes "wf_pool s" and "loose x s"
  shows "wf_pool (settle_outcome x oc now s)"
proof (cases oc)
  case LaneDone
  then show ?thesis using wf_integrate assms by blast
qed (use assms wf_abort wf_systemic wf_failed_lane in \<open>auto simp: settle_outcome_def\<close>)

lemma wf_park_group:
  assumes wf: "wf_pool s" and g: "\<forall>x \<in> set (fst (snd g)). x \<in> held_keys s \<or> parked s x"
  shows "wf_pool (park_group g s)"
proof -
  have "set (fst (snd g)) \<inter> set (pl_inFlight s) = {}"
    using g wf_poolD(2) [OF wf] by (auto simp: places_ok_def places_def)
  then have "wf_pool (park_lanes (set (fst (snd g))) p [] s)"
    if "set (pp_items p) = set (fst (snd g)) \<union> park_items s" for p
    using wf g that by (intro wf_park) auto
  then show ?thesis using park_group_lanes [of g s] wf by auto
qed

lemma wf_flush:
  assumes wf: "wf_pool s" and x: "x \<in> held_keys s"
  shows "wf_pool (flushDeferred x True s)"
proof -
  have "x \<notin> set (pl_inFlight s)" "x \<notin> park_items s"
    using x wf_poolD(2) [OF wf] by (auto simp: places_ok_def places_def)
  then show ?thesis using wf x by (simp add: flush_fail wf_fail)
qed

lemma wf_end_park: 
  assumes "wf_pool s" "\<not> pl_sawAborted s" 
  shows "wf_pool (end_park s)"
proof (rule wf_poolI)
  note wf = wf_poolD [OF assms(1)]
  show "lists_ok (end_park s)" "links_ok (end_park s)"
    using wf assms(2) by (simp_all add: lists_ok_def links_ok_def end_park_def)
  show "places_ok (end_park s)" using wf(2)
    by (auto simp: places_ok_def end_park_def held_keys_def park_items_def intro: places_unpark)
qed

lemma end_park_markFailed: "end_park (markFailed x s) = markFailed x (end_park s)"
  by (cases s) (simp add: end_park_def markFailed_def driveLane_def)

lemma end_park_remaining [simp]: "pl_remaining (end_park s) = pl_remaining s"
  by (simp add: end_park_def)

lemma end_park_fail: "end_park (fail_parked xs s) = fail_parked xs (end_park s)"
proof (induction xs arbitrary: s)
  case (Cons x xs)
  show ?case using Cons [of "markFailed x s"] Cons [of s]
    by (simp add: fail_parked_def end_park_markFailed)
qed (simp add: fail_parked_def)

text \<open>Giving up fails the parked lanes one by one; the park is already closed in the commuted form.\<close>

lemma fail_parked_induct:
  assumes "P s" and "pl_inFlight s = []" and "pl_deferred s = []" and "park_items s = {}"
    and step: "\<And>x s. P s \<Longrightarrow> x \<in> A \<Longrightarrow> loose x s \<Longrightarrow> P (fail_lane x [(x, SbFailed)] s)"
    and "set xs \<subseteq> A"
  shows "P (fail_parked xs s)"
  using assms(1-4,6)
proof (induction xs arbitrary: s)
  case (Cons x xs)
  have x: "loose x s" if "x \<in> set (pl_remaining s)" using Cons.prems that by (simp add: loose_def held_keys_def)
  have mf: "markFailed x s = fail_lane x [(x, SbFailed)] s"
    using Cons.prems by (intro markFailed_fail) (simp add: held_keys_def)
  have "P (fail_parked xs (fail_lane x [(x, SbFailed)] s))" if "x \<in> set (pl_remaining s)"
    using Cons.prems step [OF Cons.prems(1) _ x [OF that]] 
    by (intro Cons.IH) (simp_all add: fail_lane_def park_items_def)
  moreover have "P (fail_parked xs s)" using Cons by simp
  ultimately show ?case by (simp add: fail_parked_def mf)
qed (simp add: fail_parked_def)

lemma end_park_views [simp]:
  "park_items (end_park s) = {}" "held_keys (end_park s) = held_keys s"
  by (simp_all add: park_items_def held_keys_def end_park_def)

lemma wf_give_up:
  assumes "wf_pool s" "\<not> pl_sawAborted s" "pl_inFlight s = []" "pl_deferred s = []"
  shows "wf_pool (end_park (fail_parked xs s))"
  unfolding end_park_fail
  using assms wf_end_park [OF assms(1,2)]
  by (intro fail_parked_induct [where A = UNIV and P = wf_pool])
    (auto simp: loose_def wf_fail, simp_all add: end_park_def)

lemma wf_move: "pool_move cap ins s s' \<Longrightarrow> wf_pool s \<Longrightarrow> wf_pool s'"
proof (induction rule: pool_move.induct)
  case (settle s x oc now)
  then show ?case using wf_leave wf_settle leave_loose by blast
next
  case (finish x s oc)
  then show ?case
    by (simp add: wf_pool_def lists_ok_def places_ok_def links_ok_def held_keys_def park_items_def lane_finishes_def)
next
  case (release x s)
  then show ?case
    by (simp add: wf_pool_def lists_ok_def places_ok_def links_ok_def held_keys_def park_items_def lane_releases_def)
next
  case (latch s e)
  then show ?case
    by (simp add: wf_pool_def lists_ok_def places_ok_def links_ok_def held_keys_def park_items_def lane_latches_def)
next
  case (age s t)
  then show ?case
    by (simp add: wf_pool_def lists_ok_def places_ok_def links_ok_def held_keys_def park_items_def age_seen_def)
next
  case (pause s pauses giveUps)
  then show ?case
    by (simp add: wf_pool_def lists_ok_def places_ok_def links_ok_def held_keys_def park_items_def)
qed (simp_all add: wf_abort wf_resolve wf_launch wf_park_group wf_flush wf_end_park wf_give_up)

end
