(* ===== verification/LanePoolSteps.thy ===== *)
theory LanePoolSteps
  imports LanePoolMoves
begin

text \<open>
  Runs of the pool: configurations (at the loop head, at the race, returned), the step relation that
  interleaves the pool's code with the lanes' walks, and that each step is a sequence of moves. A held
  failure never outlives its cohort, so the drain finds no hold, and what it prunes has an unmet
  prerequisite.
\<close>

section \<open>Runs of the pool\<close>

datatype config = AtTop pool | Racing pool | Returned bool pool

fun pool_of :: "config \<Rightarrow> pool" where
  "pool_of (AtTop s) = s"
| "pool_of (Racing s) = s"
| "pool_of (Returned t s) = s"

inductive pool_step :: "nat \<Rightarrow> string \<Rightarrow> FanOutInnerStep list \<Rightarrow> pool_in set \<Rightarrow> config \<Rightarrow> config \<Rightarrow> bool"
  for cap stepId inner ins where
  race: "inp \<in> ins \<Longrightarrow> pool_top cap stepId inner inp s = PoolRace s' \<Longrightarrow> pool_step cap stepId inner ins (AtTop s) (Racing s')"
| again: "inp \<in> ins \<Longrightarrow> pool_top cap stepId inner inp s = PoolAgain s' \<Longrightarrow> pool_step cap stepId inner ins (AtTop s) (AtTop s')"
| return: "inp \<in> ins \<Longrightarrow> pool_top cap stepId inner inp s = PoolReturn t s' \<Longrightarrow> pool_step cap stepId inner ins (AtTop s) (Returned t s')"
| finish: "x \<in> set (pl_inFlight s) \<Longrightarrow> pl_finished s x = None \<Longrightarrow>
    pool_step cap stepId inner ins (Racing s) (Racing (lane_finishes x oc s))"
| release: "x \<in> set (pl_inFlight s) \<Longrightarrow> pl_finished s x = None \<Longrightarrow> x \<notin> pl_released s \<Longrightarrow>
    pool_step cap stepId inner ins (Racing s) (Racing (lane_releases x s))"
| latch: "pl_triageLatch s = None \<Longrightarrow> pool_step cap stepId inner ins (Racing s) (Racing (lane_latches e s))"
| settle: "pl_finished s x = Some oc \<Longrightarrow>
    pool_step cap stepId inner ins (Racing s) (AtTop (pool_settle x oc now s))"

inductive_cases pool_step_AtTop: "pool_step cap stepId inner ins (AtTop s) c"
inductive_cases pool_step_Racing: "pool_step cap stepId inner ins (Racing s) c"

section \<open>Every step is a sequence of moves\<close>

abbreviation moves :: "nat \<Rightarrow> pool_in set \<Rightarrow> pool \<Rightarrow> pool \<Rightarrow> bool" where
  "moves cap ins \<equiv> (pool_move cap ins)\<^sup>*\<^sup>*"

lemma wf_moves: "moves cap ins s s' \<Longrightarrow> wf_pool s \<Longrightarrow> wf_pool s'"
  by (induction rule: rtranclp_induct) (auto intro: wf_move)

lemma dispatch_over_moves:
  "set xs \<subseteq> set (pl_remaining s) \<Longrightarrow> \<not> pl_holdDispatch s \<Longrightarrow> moves cap ins s (dispatch_over cap xs s)"
proof (induction xs arbitrary: s)
  case (Cons x xs)
  have "moves cap ins s (launch x s)" if "dispatchable s x" "length (pl_inFlight s) < cap"
    using Cons.prems that by (intro r_into_rtranclp pool_move.launch) auto
  moreover have "moves cap ins (launch x s) (dispatch_over cap xs (launch x s))"
    using Cons.prems by (intro Cons.IH) (auto simp: pool_simps)
  ultimately show ?case using Cons by (auto intro: rtranclp_trans)
qed simp

lemma dispatch_moves: "moves cap ins s (dispatch cap s)"
  by (simp add: dispatch_def dispatch_over_moves)

lemma park_group_views:
  "held_keys s \<union> park_items s \<subseteq> held_keys (park_group g s) \<union> park_items (park_group g s)"
  using park_group_lanes [of g s] by (auto simp: park_lanes_def held_keys_def park_items_def)

definition group_items :: "group list \<Rightarrow> string set" where
  "group_items gs = set (concat (map (fst \<circ> snd) gs))"

lemma park_groups_moves:
  "group_items gs \<subseteq> held_keys s \<union> park_items s \<Longrightarrow> moves cap ins s (fold park_group gs s)"
proof (induction gs arbitrary: s)
  case (Cons g gs)
  have "pool_move cap ins s (park_group g s)"
    using Cons.prems by (intro pool_move.park) (auto simp: group_items_def)
  moreover have "group_items gs \<subseteq> held_keys s \<union> park_items s" using Cons.prems by (simp add: group_items_def)
  then have "moves cap ins (park_group g s) (fold park_group gs (park_group g s))"
    using park_group_views [of s g] by (intro Cons.IH) (rule subset_trans)
  ultimately show ?case by (simp add: converse_rtranclp_into_rtranclp)
qed simp

lemma add_to_group_items: "group_items (add_to_group t xs n gs) = set xs \<union> group_items gs"
  by (induction t xs n gs rule: add_to_group.induct) (auto simp: group_items_def)

lemma fold_held_items:
  "group_items (fold (\<lambda>(x, h). add_to_group (f h) [x] 0) hs gs) = fst ` set hs \<union> group_items gs"
  by (induction hs arbitrary: gs) (simp_all add: add_to_group_items case_prod_beta)

lemma fold_seen_items: "group_items (fold (\<lambda>(e, t). add_to_group e [] k) seen gs) = group_items gs"
  by (induction seen arbitrary: gs) (simp_all add: add_to_group_items case_prod_beta)

lemma error_groups_items: "group_items (error_groups t s) \<subseteq> held_keys s"
  unfolding error_groups_def Let_def fold_seen_items fold_held_items
  by (auto simp: held_keys_def group_items_def)

lemma corroborate_moves: "moves cap ins s (corroborate t s)"
  unfolding corroborate_def by (rule park_groups_moves) (use error_groups_items in blast)

lemma flush_move: "moves cap ins s (flushDeferred x True s)"
proof (cases "x \<in> held_keys s")
  case True
  then show ?thesis by (blast intro: pool_move.flush)
qed (simp add: flushDeferred_def held_keys_def)

lemma fold_moves: "(\<And>x s. moves cap ins s (f x s)) \<Longrightarrow> moves cap ins s (fold f xs s)"
  by (induction xs arbitrary: s) (auto intro: rtranclp_trans)

lemma flush_expired_moves: "moves cap ins s (flush_expired t s)"
  unfolding flush_expired_def by (rule fold_moves) (auto simp: flush_move)

lemma flush_unparked_moves: "moves cap ins s (flush_unparked s)"
  unfolding flush_unparked_def by (rule fold_moves) (auto simp: flush_move)

lemma settle_moves:
  assumes "pl_finished s x = Some oc"
  shows "moves cap ins s (pool_settle x oc now s)"
proof -
  let ?t = "now - SAME_ERROR_COHORT_MAX_MS"
  have "moves cap ins s (settle_outcome x oc now (leave_flight x s))"
    using assms by (blast intro: pool_move.settle)
  also have "moves cap ins \<dots> (corroborate ?t (settle_outcome x oc now (leave_flight x s)))"
    by (rule corroborate_moves)
  also have "moves cap ins \<dots> (flush_expired ?t (corroborate ?t (settle_outcome x oc now (leave_flight x s))))"
    by (rule flush_expired_moves)
  also have "moves cap ins \<dots> (age_seen ?t (flush_expired ?t (corroborate ?t (settle_outcome x oc now (leave_flight x s)))))"
    by (blast intro: pool_move.age)
  finally show ?thesis by (simp add: pool_settle_def Let_def)
qed

section \<open>No hold outlives its cohort\<close>

definition held_open :: "pool \<Rightarrow> bool" where
  "held_open s \<longleftrightarrow> (\<forall>(x, h) \<in> set (pl_deferred s). he_cohort h \<noteq> [])"

lemma flush_frame [simp]:
  "pl_inFlight (flushDeferred x c s) = pl_inFlight s" "pl_parkPending (flushDeferred x c s) = pl_parkPending s"
  "park_items (flushDeferred x c s) = park_items s"
  "pl_deferred (flushDeferred x c s) = filter (\<lambda>(y, _). y \<noteq> x) (pl_deferred s)"
  by (auto simp: flushDeferred_def settleFailed_def driveLane_def no_key_filter held_keys_def park_items_def)

lemma flush_fold_kept:
  "(y, g) \<in> set (pl_deferred (fold (\<lambda>(x, h) s. if parked s x \<or> c h then s else flushDeferred x True s) ds s)) \<Longrightarrow>
   (y, g) \<in> set (pl_deferred s) \<and> (\<forall>h. (y, h) \<in> set ds \<longrightarrow> y \<in> park_items s \<or> c h)"
proof (induction ds arbitrary: s)
  case (Cons d ds)
  obtain x h where d: "d = (x, h)" by fastforce
  show ?case
  proof (cases "x \<in> park_items s \<or> c h")
    case True
    then show ?thesis using Cons.IH [of s] Cons.prems d by auto
  next
    case False
    then show ?thesis using Cons.IH [of "flushDeferred x True s"] Cons.prems d by auto
  qed
qed simp

lemma held_open_settle:
  assumes "wf_pool s" shows "held_open (flush_expired t s)"
proof -
  have "he_cohort h \<noteq> []" if "(y, h) \<in> set (pl_deferred (flush_expired t s))" for y h
    using flush_fold_kept [OF that [unfolded flush_expired_def]] wf_poolD(2) [OF assms]
    by (force simp: places_ok_def places_def held_keys_def)
  then show ?thesis by (auto simp: held_open_def)
qed

lemma wf_pool_settle: "wf_pool s \<Longrightarrow> pl_finished s x = Some oc \<Longrightarrow> wf_pool (pool_settle x oc now s)"
  using settle_moves wf_moves by blast

lemma held_open_pool_settle:
  assumes "wf_pool s" and "pl_finished s x = Some oc"
  shows "held_open (pool_settle x oc now s)"
proof -
  let ?t = "now - SAME_ERROR_COHORT_MAX_MS"
  have "pool_move 0 UNIV s (settle_outcome x oc now (leave_flight x s))"
    using assms(2) by (rule pool_move.settle)
  then have "wf_pool (corroborate ?t (settle_outcome x oc now (leave_flight x s)))"
    using wf_move assms(1) wf_moves corroborate_moves by blast
  from held_open_settle [OF this] show ?thesis
    by (simp add: pool_settle_def Let_def held_open_def age_seen_def)
qed

lemma cohort_live: "wf_pool s \<Longrightarrow> (x, h) \<in> set (pl_deferred s) \<Longrightarrow> y \<in> set (he_cohort h) \<Longrightarrow> y \<in> set (pl_inFlight s)"
  using wf_poolD(3) by (simp add: links_ok_def)

lemma quiet_no_holds:
  assumes "wf_pool s" and "held_open s" and "pl_inFlight s = []"
  shows "pl_deferred s = []"
proof (rule ccontr)
  assume "pl_deferred s \<noteq> []"
  then obtain x h where xh: "(x, h) \<in> set (pl_deferred s)" by (cases "pl_deferred s") auto
  with assms(2) have "hd (he_cohort h) \<in> set (he_cohort h)" by (auto simp: held_open_def)
  from cohort_live [OF assms(1) xh this] assms(3) show False by simp
qed

lemma launch_keeps_holds:
  assumes "wf_pool s" and "dispatchable s x"
  shows "pl_deferred (launch x s) = pl_deferred s"
proof -
  have x: "x \<notin> held_keys s" "x \<notin> set (pl_inFlight s)" using assms(2) by (auto simp: dispatchable_def held_keys_def)
  then have "h\<lparr>he_cohort := removeAll x (he_cohort h)\<rparr> = h" if "(y, h) \<in> set (pl_deferred s)" for y h
    using cohort_live [OF assms(1) that, of x] by (cases h) (auto intro: removeAll_id)
  then have "map (\<lambda>(y, h). (y, h\<lparr>he_cohort := removeAll x (he_cohort h)\<rparr>)) (pl_deferred s) = pl_deferred s"
    by (intro map_idI) auto
  then show ?thesis using no_key_filter [OF x(1)] by (simp add: launch_simps)
qed

lemma dispatch_over_holds:
  "wf_pool s \<Longrightarrow> set xs \<subseteq> set (pl_remaining s) \<Longrightarrow> pl_deferred (dispatch_over cap xs s) = pl_deferred s"
proof (induction xs arbitrary: s)
  case (Cons x xs)
  then show ?case using wf_launch [of s x] launch_keeps_holds [of s x] by (auto simp: launch_simps)
qed simp

lemma dispatch_holds: "wf_pool s \<Longrightarrow> pl_deferred (dispatch cap s) = pl_deferred s"
  by (simp add: dispatch_def dispatch_over_holds)

section \<open>Dispatch and the drain\<close>

lemma dispatch_over_grows: "set (pl_inFlight s) \<subseteq> set (pl_inFlight (dispatch_over cap xs s))"
proof (induction xs arbitrary: s)
  case (Cons x xs)
  show ?case using Cons [of "launch x s"] Cons [of s] by (auto simp: launch_simps)
qed simp

lemma idle_dispatch:
  assumes "pl_inFlight (dispatch_over cap xs s) = []" and "0 < cap"
  shows "dispatch_over cap xs s = s \<and> (\<forall>x \<in> set xs. \<not> dispatchable s x)"
  using assms(1)
proof (induction xs)
  case (Cons x xs)
  have "pl_inFlight s = []" using dispatch_over_grows [of s cap "x # xs"] Cons.prems by auto
  moreover have "\<not> dispatchable s x"
    using Cons.prems dispatch_over_grows [of "launch x s" cap xs] \<open>pl_inFlight s = []\<close> assms(2)
    by (auto simp: launch_simps)
  ultimately show ?case using Cons assms(2) by simp
qed simp

definition stuck :: "pool \<Rightarrow> bool" where
  "stuck s \<longleftrightarrow> (\<forall>x \<in> set (pl_remaining s). \<exists>p \<in> set (prereqs_of s x). \<not> met_prereq s p)"

lemma dead_not_met: "wf_pool s \<Longrightarrow> dead_prereq s p \<Longrightarrow> \<not> met_prereq s p"
  using wf_poolD(1,2) [of s]
  by (auto simp: dead_prereq_def met_prereq_def lists_ok_def places_ok_def places_def)

lemma idle_stuck:
  assumes wf: "wf_pool s" and idle: "pl_inFlight s = []" "pl_deferred s = []" "pl_parkPending s = None"
    and no: "\<forall>x \<in> set (pl_remaining s). \<not> dispatchable s x"
  shows "stuck s"
proof -
  have "pl_claimedFiles s f = None" for f
    using wf_poolD(3) [OF wf] idle by (cases "pl_claimedFiles s f") (auto simp: links_ok_def ran_def)
  then show ?thesis using no idle dead_not_met [OF wf]
    by (fastforce simp: stuck_def dispatchable_def park_items_def list_ex_iff list_all_iff)
qed

inductive pool_block :: "pool \<Rightarrow> pool \<Rightarrow> bool" where
  "x \<in> set (pl_remaining s) \<Longrightarrow> x \<notin> pl_blocked s \<Longrightarrow> p \<in> set (prereqs_of s x) \<Longrightarrow> \<not> met_prereq s p \<Longrightarrow>
   pool_block s (markBlocked x s)"

abbreviation blocks :: "pool \<Rightarrow> pool \<Rightarrow> bool" where
  "blocks \<equiv> pool_block\<^sup>*\<^sup>*"

definition prunable :: "pool \<Rightarrow> bool" where
  "prunable s \<longleftrightarrow> stuck s \<and> distinct (pl_remaining s) \<and> set (pl_remaining s) \<inter> pl_blocked s = {}"

lemma markBlocked_met [simp]:
  "met_prereq (markBlocked x s) = met_prereq s" "prereqs_of (markBlocked x s) = prereqs_of s"
  by (auto simp: markBlocked_def driveLane_def met_prereq_def prereqs_of_def fun_eq_iff)

lemma markBlocked_block:
  assumes "prunable s" and "x \<in> set (pl_remaining s)"
  shows "pool_block s (markBlocked x s)" "prunable (markBlocked x s)"
proof -
  show "pool_block s (markBlocked x s)"
    using assms by (auto simp: prunable_def stuck_def intro: pool_block.intros)
  show "prunable (markBlocked x s)"
    using assms by (auto simp: prunable_def stuck_def) (auto simp: markBlocked_def driveLane_def distinct_removeAll)
qed

lemma prune_pass_blocks:
  "prunable s \<Longrightarrow> distinct xs \<Longrightarrow> set xs \<subseteq> set (pl_remaining s) \<Longrightarrow>
   blocks s (snd (prune_pass xs s)) \<and> prunable (snd (prune_pass xs s))"
proof (induction xs arbitrary: s)
  case (Cons x xs)
  have "set xs \<subseteq> set (pl_remaining (markBlocked x s))"
    using Cons.prems by (auto simp: markBlocked_def driveLane_def)
  then show ?case using Cons markBlocked_block [of s x]
    by (auto intro: converse_rtranclp_into_rtranclp)
qed simp

lemma prune_fix_blocks: "prunable s \<Longrightarrow> blocks s (prune_fix s) \<and> prunable (prune_fix s)"
proof (induction s rule: prune_fix.induct)
  case (1 s)
  obtain b s1 where p: "prune_pass (pl_remaining s) s = (b, s1)" by fastforce
  have *: "blocks s s1 \<and> prunable s1"
    using prune_pass_blocks [of s "pl_remaining s"] 1(2) p by (simp add: prunable_def)
  show ?case
  proof (cases "b \<and> distinct (pl_remaining s)")
    case True
    then show ?thesis using 1(1) [OF p [symmetric] True] * p
      by (subst (1 2) prune_fix.simps) (auto intro: rtranclp_trans)
  next
    case False
    then show ?thesis using * p by (subst (1 2) prune_fix.simps) auto
  qed
qed

lemma block_all: "prunable s \<Longrightarrow> distinct xs \<Longrightarrow> set xs = set (pl_remaining s) \<Longrightarrow>
   blocks s (fold markBlocked xs s) \<and> pl_remaining (fold markBlocked xs s) = []"
proof (induction xs arbitrary: s)
  case (Cons x xs)
  have "set xs = set (pl_remaining (markBlocked x s))"
    using Cons.prems by (auto simp: markBlocked_def driveLane_def)
  then show ?case using Cons markBlocked_block [of s x]
    by (auto intro: converse_rtranclp_into_rtranclp)
qed simp

lemma prune_blocks: "prunable s \<Longrightarrow> blocks s (prune s) \<and> pl_remaining (prune s) = []"
  using prune_fix_blocks [of s] block_all [of "prune_fix s" "pl_remaining (prune_fix s)"]
  by (auto simp: prune_def Let_def prunable_def intro: rtranclp_trans)

section \<open>The loop head as moves\<close>

lemma quiet_drain:
  assumes "pl_deferred s = []"
  shows "drain stepId inner inp s =
     (if pl_sawAborted s then PoolReturn True s
      else case pl_parkPending s of
             Some park \<Rightarrow> settle_park stepId inner inp park s
           | None \<Rightarrow> PoolReturn False (if pl_remaining s \<noteq> [] then prune s else s))"
  using assms by (simp add: drain_def flush_unparked_def)

lemma fail_parked_frame [simp]:
  "pl_deferred (fail_parked xs s) = pl_deferred s" "pl_inFlight (fail_parked xs s) = pl_inFlight s"
proof (induction xs arbitrary: s)
  case (Cons x xs)
  { case 1 show ?case using Cons(1) [of s] Cons(1) [of "markFailed x s"]
      by (simp add: fail_parked_def markFailed_def driveLane_def) }
  { case 2 show ?case using Cons(2) [of s] Cons(2) [of "markFailed x s"]
      by (simp add: fail_parked_def markFailed_def driveLane_def) }
qed (simp_all add: fail_parked_def)

lemma end_park_frame [simp]: "pl_deferred (end_park s) = pl_deferred s" "pl_inFlight (end_park s) = pl_inFlight s"
  by (simp_all add: end_park_def)

lemma settle_park_moves:
  assumes "\<not> pl_sawAborted s" "pl_parkPending s = Some p" "pl_inFlight s = []" "pl_deferred s = []"
  shows "case settle_park stepId inner inp p s of
      PoolRace s' \<Rightarrow> False
    | PoolAgain s' \<Rightarrow> moves cap ins s s' \<and> pl_deferred s' = []
    | PoolReturn t s' \<Rightarrow> t \<and> moves cap ins s s' \<and> pl_inFlight s' = [] \<and> pl_deferred s' = []"
proof -
  let ?b = "bump (pl_systemicPauses s) stepId"
  let ?s1 = "s\<lparr>pl_systemicPauses := ?b\<rparr>"
  let ?s2 = "?s1\<lparr>pl_systemicGiveUps := insert stepId (pl_systemicGiveUps s)\<rparr>"
  have m1: "moves cap ins s ?s1"
    using pool_move.pause [where s = s and pauses = ?b and giveUps = "pl_systemicGiveUps s"] by (auto intro: r_into_rtranclp)
  have m2: "moves cap ins s ?s2" by (intro r_into_rtranclp pool_move.pause) auto
  have g: "moves cap ins t (end_park (fail_parked (pp_items p) t))"
    if "\<not> pl_sawAborted t" "pl_parkPending t = Some p" "pl_inFlight t = []" "pl_deferred t = []" for t
    using that by (intro r_into_rtranclp pool_move.give_up)
  have r: "moves cap ins ?s1 (end_park ?s1)"
    using assms(1) by (intro r_into_rtranclp pool_move.retry) simp
  have g2: "moves cap ins ?s2 (end_park (fail_parked (pp_items p) ?s2))" using assms by (intro g) simp_all
  show ?thesis
    using assms g [OF assms] rtranclp_trans [OF m2 g2] rtranclp_trans [OF m1 r] m1
    by (simp add: settle_park_def Let_def split: option.splits)
qed

definition before_dispatch :: "pool_in \<Rightarrow> pool \<Rightarrow> pool" where
  "before_dispatch inp s =
     re_resolve inp (if in_aborted inp then s\<lparr>pl_sawAborted := True, pl_holdDispatch := True\<rparr> else s)"

lemma before_dispatch_moves: "inp \<in> ins \<Longrightarrow> moves cap ins s (before_dispatch inp s)"
proof -
  assume inp: "inp \<in> ins"
  let ?a = "s\<lparr>pl_sawAborted := True, pl_holdDispatch := True\<rparr>"
  have "moves cap ins s ?a" "moves cap ins s (re_resolve inp s)" "moves cap ins ?a (re_resolve inp ?a)"
    using inp by (blast intro: pool_move.abort pool_move.resolve)+
  then show ?thesis by (auto simp: before_dispatch_def intro: rtranclp_trans)
qed

lemma before_dispatch_holds: "held_open s \<Longrightarrow> held_open (before_dispatch inp s)"
  by (simp add: before_dispatch_def held_open_def resolve_simps)

lemma pool_top_eq:
  "pool_top cap stepId inner inp s =
     (if pl_remaining s = [] \<and> pl_inFlight s = [] then PoolReturn False s
      else if in_fresh inp \<noteq> None \<and> pl_remaining (before_dispatch inp s) = [] \<and>
              pl_inFlight (before_dispatch inp s) = []
      then PoolReturn False (before_dispatch inp s)
      else if pl_inFlight (dispatch cap (before_dispatch inp s)) = []
           then drain stepId inner inp (dispatch cap (before_dispatch inp s))
           else PoolRace (dispatch cap (before_dispatch inp s)))"
  by (auto simp: pool_top_def before_dispatch_def Let_def)

text \<open>What the loop head does, in terms of moves: it goes on to the race with lanes in flight, starts
  over, ends the canceled walk, or returns with every lane settled, the stuck ones blocked.\<close>

lemma pool_top_moves:
  assumes wf: "wf_pool s" and held: "held_open s" and cap: "0 < cap" and inp: "inp \<in> ins"
  shows "case pool_top cap stepId inner inp s of
      PoolRace s' \<Rightarrow> moves cap ins s s' \<and> held_open s' \<and> pl_inFlight s' \<noteq> []
    | PoolAgain s' \<Rightarrow> moves cap ins s s' \<and> held_open s'
    | PoolReturn True s' \<Rightarrow> moves cap ins s s' \<and> pl_inFlight s' = [] \<and> pl_deferred s' = []
    | PoolReturn False s' \<Rightarrow> (\<exists>s1. moves cap ins s s1 \<and> blocks s1 s' \<and> pl_inFlight s1 = [] \<and> pl_deferred s1 = [] \<and>
        pl_remaining s' = [])"
proof -
  let ?b = "before_dispatch inp s" and ?d = "dispatch cap (before_dispatch inp s)"
  have mb: "moves cap ins s ?b" using inp by (rule before_dispatch_moves)
  have md: "moves cap ins s ?d" using mb dispatch_moves by (rule rtranclp_trans)
  note wb = wf_moves [OF mb wf] and wd = wf_moves [OF md wf]
  have hd: "held_open ?d"
    using before_dispatch_holds [OF held] dispatch_holds [OF wb] by (simp add: held_open_def)
  show ?thesis
  proof (cases "pl_remaining s = [] \<and> pl_inFlight s = []")
    case True
    then show ?thesis using quiet_no_holds [OF wf held] by (auto simp: pool_top_eq)
  next
    case ne: False
    show ?thesis
    proof (cases "in_fresh inp \<noteq> None \<and> pl_remaining ?b = [] \<and> pl_inFlight ?b = []")
      case True
      then show ?thesis using ne mb quiet_no_holds [OF wb before_dispatch_holds [OF held]]
        by (auto simp: pool_top_eq)
    next
      case nb: False
      show ?thesis
      proof (cases "pl_inFlight ?d = []")
        case False
        then show ?thesis using ne nb md hd by (auto simp: pool_top_eq)
      next
        case idle: True
        note q = quiet_no_holds [OF wd hd idle]
        have top: "pool_top cap stepId inner inp s = drain stepId inner inp ?d"
          using ne nb idle by (auto simp: pool_top_eq)
        have st: "prunable ?d" if "\<not> pl_sawAborted ?d" "pl_parkPending ?d = None"
        proof -
          have "\<not> pl_holdDispatch ?d" using wf_poolD(3) [OF wd] that by (simp add: links_ok_def)
          then have "\<not> pl_holdDispatch ?b" by (auto simp: dispatch_def split: if_splits)
          then have "?d = ?b \<and> (\<forall>x \<in> set (pl_remaining ?b). \<not> dispatchable ?b x)"
            using idle idle_dispatch [OF _ cap] by (auto simp: dispatch_def)
          then show ?thesis using idle_stuck [OF wd idle q that(2)] wf_poolD(1) [OF wd]
            by (simp add: prunable_def lists_ok_def)
        qed
        show ?thesis
        proof (cases "pl_sawAborted ?d")
          case True
          then show ?thesis unfolding top using md idle q by (simp add: quiet_drain)
        next
          case na: False
          show ?thesis
          proof (cases "pl_parkPending ?d")
            case None
            then show ?thesis unfolding top using na md idle q prune_blocks [OF st [OF na None]]
              by (auto simp: quiet_drain)
          next
            case (Some p)
            have "drain stepId inner inp ?d = settle_park stepId inner inp p ?d"
              using na Some q by (simp add: quiet_drain)
            then show ?thesis unfolding top
              using settle_park_moves [OF na Some idle q, where stepId = stepId and inner = inner and inp = inp and cap = cap and ins = ins] rtranclp_trans [OF md]
              by (auto simp: held_open_def split: pool_next.splits bool.splits)
          qed
        qed
      qed
    qed
  qed
qed

end
