(* ===== verification/LanePoolProps.thy ===== *)
theory LanePoolProps
  imports LanePoolSteps
begin

text \<open>
  Invariants of the reachable pools. The locale \<open>pool_invariant\<close> says what an invariant has to be kept by
  (the start, each move, each block) and gives it for every reachable configuration; it is interpreted
  for the dependencies, the ledger of settlements and the crew of lanes in flight.
\<close>

section \<open>Invariants of reachable pools\<close>

abbreviation pool_reach :: "nat \<Rightarrow> string \<Rightarrow> FanOutInnerStep list \<Rightarrow> pool_in set \<Rightarrow> config \<Rightarrow> config \<Rightarrow> bool" where
  "pool_reach cap stepId inner ins \<equiv> (pool_step cap stepId inner ins)\<^sup>*\<^sup>*"

fun config_ok :: "config \<Rightarrow> bool" where
  "config_ok (AtTop s) \<longleftrightarrow> wf_pool s \<and> held_open s"
| "config_ok (Racing s) \<longleftrightarrow> wf_pool s \<and> held_open s \<and> pl_inFlight s \<noteq> []"
| "config_ok (Returned t s) \<longleftrightarrow> pl_inFlight s = [] \<and> pl_deferred s = [] \<and> (t \<or> pl_remaining s = [])"

lemma wf_init: "wf_pool (pool_init items deps files known pauses giveUps)"
  by (simp add: wf_pool_def lists_ok_def places_ok_def places_def links_ok_def pool_init_def held_keys_def park_items_def)

lemma block_frame:
  "pool_block s s' \<Longrightarrow> pl_inFlight s' = pl_inFlight s \<and> pl_deferred s' = pl_deferred s"
  by (induction rule: pool_block.induct) (simp add: markBlocked_def driveLane_def)

lemma blocks_frame: "blocks s s' \<Longrightarrow> pl_inFlight s' = pl_inFlight s \<and> pl_deferred s' = pl_deferred s"
  by (induction rule: rtranclp_induct) (auto dest: block_frame)

text \<open>How a step relates the pools of two configurations.\<close>

lemma step_moves:
  assumes "pool_step cap stepId inner ins c c'" and "config_ok c" and "0 < cap"
  shows "config_ok c' \<and> (\<exists>s1. moves cap ins (pool_of c) s1 \<and> blocks s1 (pool_of c') \<and>
           (pool_of c' \<noteq> s1 \<longrightarrow> (\<exists>s'. c' = Returned False s')))"
  using assms(1,2)
proof (cases rule: pool_step.cases)
  case (race inp s s')
  then show ?thesis using pool_top_moves [of s cap inp ins stepId inner] assms(2,3) wf_moves by auto
next
  case (again inp s s')
  then show ?thesis using pool_top_moves [of s cap inp ins stepId inner] assms(2,3) wf_moves by auto
next
  case (return inp s t s')
  then show ?thesis using pool_top_moves [of s cap inp ins stepId inner] assms(2,3)
    by (cases t) (auto dest: blocks_frame)
next
  case (finish x s oc)
  have "pool_move cap ins s (lane_finishes x oc s)" using finish by (blast intro: pool_move.finish)
  then show ?thesis using finish assms(2) wf_move [of cap ins s]
    by (auto simp: held_open_def) (auto simp: lane_finishes_def)
next
  case (release x s)
  have "pool_move cap ins s (lane_releases x s)" using release by (blast intro: pool_move.release)
  then show ?thesis using release assms(2) wf_move [of cap ins s]
    by (auto simp: held_open_def) (auto simp: lane_releases_def)
next
  case (latch s e)
  have "pool_move cap ins s (lane_latches e s)" using latch by (blast intro: pool_move.latch)
  then show ?thesis using latch assms(2) wf_move [of cap ins s]
    by (auto simp: held_open_def) (auto simp: lane_latches_def)
next
  case (settle s x oc now)
  then show ?thesis
    using settle_moves [of s x oc cap ins now] wf_pool_settle [of s x oc now] held_open_pool_settle [of s x oc now] assms(2)
    by auto
qed

locale pool_invariant =
  fixes cap :: nat and ins :: "pool_in set" and init :: "pool \<Rightarrow> bool" and inv :: "pool \<Rightarrow> bool"
  assumes init: "init (pool_init items deps files known pauses giveUps) \<Longrightarrow>
      inv (pool_init items deps files known pauses giveUps)"
    and move: "wf_pool s \<Longrightarrow> wf_pool s' \<Longrightarrow> inv s \<Longrightarrow> pool_move cap ins s s' \<Longrightarrow> inv s'"
    and block: "inv s \<Longrightarrow> pool_block s s' \<Longrightarrow> inv s'"
begin

lemma moves_keep: "moves cap ins s s' \<Longrightarrow> wf_pool s \<Longrightarrow> inv s \<Longrightarrow> inv s'"
proof (induction rule: rtranclp_induct)
  case (step t u)
  then show ?case using move wf_moves wf_move by blast
qed simp

lemma blocks_keep: "blocks s s' \<Longrightarrow> inv s \<Longrightarrow> inv s'"
  by (induction rule: rtranclp_induct) (auto intro: block)

lemma step_keeps:
  assumes "pool_step cap stepId inner ins c c'" and "config_ok c" and "0 < cap" and "inv (pool_of c)"
  shows "inv (pool_of c')"
proof -
  have "wf_pool (pool_of c)" using assms(1,2) by (cases rule: pool_step.cases) auto
  then show ?thesis using step_moves [OF assms(1-3)] assms(4) moves_keep blocks_keep by blast
qed

lemma reachable:
  assumes "pool_reach cap stepId inner ins (AtTop (pool_init items deps files known pauses giveUps)) c"
    and "0 < cap" and "init (pool_init items deps files known pauses giveUps)"
  shows "config_ok c \<and> inv (pool_of c)"
  using assms(1)
proof (induction rule: rtranclp_induct)
  case base
  then show ?case using init [OF assms(3)] wf_init by (simp add: held_open_def) (simp add: pool_init_def)
next
  case (step c d)
  then show ?case using step_moves [OF step.hyps(2) _ assms(2)] step_keeps assms(2) by blast
qed

end

text \<open>The ways one lane settles, after it has left the flight.\<close>

lemma settle_forms:
  assumes "wf_pool s" and "pl_finished s x = Some oc"
  obtains (aborted) "oc = LaneAborted"
      "settle_outcome x oc now (leave_flight x s) = (leave_flight x s)\<lparr>pl_sawAborted := True, pl_holdDispatch := True\<rparr>"
    | (parked) p seen where "settle_outcome x oc now (leave_flight x s) = park_lanes {x} p seen (leave_flight x s)"
        "set (pp_items p) = {x} \<union> park_items s"
    | (failed) e per where "oc = LaneFailed e per"
        "settle_outcome x oc now (leave_flight x s) = fail_lane x (if per then [] else [(x, SbFailed)]) (leave_flight x s)"
    | (holding) h where "settle_outcome x oc now (leave_flight x s) = hold_lane x h (leave_flight x s)"
    | (integrated) "oc = LaneDone"
        "settle_outcome x oc now (leave_flight x s) = (leave_flight x s)\<lparr>pl_remaining := removeAll x (pl_remaining (leave_flight x s)),
           pl_integrated := insert x (pl_integrated (leave_flight x s))\<rparr>"
proof -
  have k: "x \<notin> held_keys (leave_flight x s)" using leave_loose [OF assms] by (simp add: loose_def)
  show ?thesis
  proof (cases oc)
    case (LaneSystemic e orig sid prov r)
    then show ?thesis using systemic_park_lanes [OF k, of e orig prov r now] that(2)
      by (auto simp: settle_outcome_def)
  next
    case (LaneFailed e per)
    then show ?thesis using settle_failed_cases [OF k, of e per now] that(3,4) by (auto simp: settle_outcome_def)
  qed (use that in \<open>simp_all add: settle_outcome_def\<close>)
qed

section \<open>Dependencies\<close>

definition launched :: "pool \<Rightarrow> string set" where
  "launched s = {x. (x, SbRunning) \<in> set (pl_writes s)}"

definition deps_met :: "pool \<Rightarrow> bool" where
  "deps_met s \<longleftrightarrow> launched s \<subseteq> pl_inScope s \<and> (\<forall>x \<in> launched s. \<forall>p \<in> set (prereqs_of s x). met_prereq s p)"

lemma deps_met_mono:
  assumes "deps_met s" and "launched s' = launched s" and "pl_inScope s \<subseteq> pl_inScope s'"
    and "pl_integrated s \<subseteq> pl_integrated s'" and "pl_failed s \<subseteq> pl_failed s'" and "pl_released s \<subseteq> pl_released s'"
    and "\<And>x. x \<in> pl_inScope s \<Longrightarrow> prereqs_of s' x = prereqs_of s x"
  shows "deps_met s'"
  using assms unfolding deps_met_def met_prereq_def by (metis (no_types, lifting) subset_iff)

lemma deps_met_same:
  assumes "deps_met s" and "launched s' = launched s" and "pl_inScope s' = pl_inScope s"
    and "pl_integrated s \<subseteq> pl_integrated s'" and "pl_failed s \<subseteq> pl_failed s'" and "pl_released s \<subseteq> pl_released s'"
    and "pl_prereqs s' = pl_prereqs s"
  shows "deps_met s'"
  using assms by (intro deps_met_mono [OF assms(1)]) (auto simp: prereqs_of_def)

lemma set_prereqs_other: "x \<notin> set ids \<Longrightarrow> set_prereqs deps scope ids m x = m x"
  unfolding set_prereqs_def by (induction ids arbitrary: m) auto

lemma resolve_prereqs: "x \<in> pl_inScope s \<Longrightarrow> prereqs_of (re_resolve inp s) x = prereqs_of s x"
  by (auto simp: re_resolve_def prereqs_of_def lookup_list_def Let_def set_prereqs_other split: option.splits)

lemmas lane_form_defs =
  launched_def leave_flight_def park_lanes_def fail_lane_def hold_lane_def lane_finishes_def lane_releases_def
  lane_latches_def age_seen_def end_park_def

lemma deps_met_launch:
  assumes "wf_pool s" and "deps_met s" and "x \<in> set (pl_remaining s)" and "dispatchable s x"
  shows "deps_met (launch x s)"
proof -
  have "x \<in> pl_inScope s" using assms(1,3) wf_poolD(2) [of s] by (auto simp: places_ok_def places_def)
  moreover have "\<forall>p \<in> set (prereqs_of s x). met_prereq s p" using assms(4) by (simp add: dispatchable_def list_all_iff)
  ultimately show ?thesis using assms(2)
    by (auto simp: deps_met_def launched_def launch_simps met_prereq_def prereqs_of_def)
qed

interpretation deps: pool_invariant cap ins "\<lambda>_. True" deps_met for cap ins
proof
  fix items deps files known pauses giveUps
  show "deps_met (pool_init items deps files known pauses giveUps)"
    by (simp add: deps_met_def launched_def pool_init_def)
next
  fix s s' assume "deps_met s" "pool_block s s'"
  from this(2,1) show "deps_met s'"
    by (induction rule: pool_block.induct)
      (erule deps_met_same; auto simp: launched_def markBlocked_def driveLane_def)
next
  fix s s' assume wf: "wf_pool s" "wf_pool s'" and d: "deps_met s" and m: "pool_move cap ins s s'"
  from m wf d show "deps_met s'"
  proof (induction rule: pool_move.induct)
    case (resolve inp s)
    then show ?case using resolve_scope [of s inp] resolve_prereqs [of _ s inp]
      by (intro deps_met_mono [OF resolve.prems(3)]) (auto simp: launched_def resolve_simps)
  next
    case (settle s x oc now)
    from settle.prems(1) settle.hyps show ?case
      by (cases rule: settle_forms [where now = now])
        (auto intro!: deps_met_same [OF settle.prems(3)] simp: lane_form_defs)
  next
    case (park g s)
    then show ?case using park_group_lanes [of g s]
      by (intro deps_met_same [OF park.prems(3)]) (auto simp: lane_form_defs)
  next
    case (flush x s)
    then show ?case by (intro deps_met_same [OF flush.prems(3)]) (auto simp: lane_form_defs flush_fail)
  next
    case (give_up s p)
    have "deps_met (fail_parked (pp_items p) (end_park s))"
    proof (rule fail_parked_induct [where A = UNIV and P = deps_met])
      show "deps_met (end_park s)" by (rule deps_met_same [OF give_up.prems(3)]) (simp_all add: lane_form_defs)
    next
      fix x t assume "deps_met t"
      then show "deps_met (fail_lane x [(x, SbFailed)] t)"
        by (rule deps_met_same) (auto simp: lane_form_defs)
    qed (use give_up in simp_all)
    then show ?case by (simp add: end_park_fail)
  next
    case (launch x s)
    then show ?case by (simp add: deps_met_launch)
  qed (erule deps_met_same; auto simp: lane_form_defs)+
qed

section \<open>The ledger\<close>

definition started :: "pool \<Rightarrow> string set" where
  "started s = set (pl_inFlight s) \<union> held_keys s \<union> park_items s \<union> pl_integrated s \<union> pl_failed s"

definition tally :: "pool \<Rightarrow> bool" where
  "tally s \<longleftrightarrow> pl_incompleteCount s = card (pl_failed s) + card (pl_blocked s) \<and>
     started s \<subseteq> launched s \<and>
     (\<forall>x. count_list (pl_writes s) (x, SbFailed) \<le> of_bool (x \<in> pl_failed s)) \<and>
     (\<forall>x. count_list (pl_writes s) (x, SbBlocked) = of_bool (x \<in> pl_blocked s))"

definition apart :: "pool \<Rightarrow> bool" where
  "apart s \<longleftrightarrow> finite (pl_failed s) \<and> finite (pl_blocked s) \<and> pl_integrated s \<inter> pl_failed s = {} \<and>
     (pl_integrated s \<union> pl_failed s) \<inter> pl_blocked s = {} \<and>
     set (pl_remaining s) \<inter> (pl_integrated s \<union> pl_failed s \<union> pl_blocked s) = {}"

definition ledger :: "pool \<Rightarrow> bool" where
  "ledger s \<longleftrightarrow> tally s \<and> apart s"

lemma wf_apart: "wf_pool s \<Longrightarrow> apart s"
  using wf_poolD(1,2) [of s] by (auto simp: apart_def lists_ok_def places_ok_def places_def)

lemma tally_same:
  assumes "tally s" and "pl_incompleteCount s' = pl_incompleteCount s" and "pl_failed s' = pl_failed s"
    and "pl_blocked s' = pl_blocked s" and "pl_writes s' = pl_writes s" and "started s' \<subseteq> started s"
  shows "tally s'"
  using assms unfolding tally_def launched_def by auto

lemma tallyD:
  assumes "tally s"
  shows "count_list (pl_writes s) (x, SbFailed) \<le> of_bool (x \<in> pl_failed s)"
    "count_list (pl_writes s) (x, SbBlocked) = of_bool (x \<in> pl_blocked s)"
    "started s \<subseteq> launched s" "pl_incompleteCount s = card (pl_failed s) + card (pl_blocked s)"
  using assms by (simp_all add: tally_def)

lemma count_fresh: "tally s \<Longrightarrow> x \<notin> pl_failed s \<Longrightarrow> count_list (pl_writes s) (x, SbFailed) = 0"
  by (auto simp: tally_def dest: spec [of _ x])

lemma tally_fail:
  assumes t: "tally s" and x: "x \<in> launched s" "x \<notin> pl_failed s" and fin: "finite (pl_failed s)"
    and ws: "ws = [] \<or> ws = [(x, SbFailed)]"
  shows "tally (fail_lane x ws s)"
proof -
  let ?t = "fail_lane x ws s"
  have "started ?t \<subseteq> insert x (started s)"
    by (auto simp: started_def fail_lane_def held_keys_def park_items_def)
  moreover have "launched s \<subseteq> launched ?t" by (auto simp: launched_def fail_lane_def)
  ultimately have "started ?t \<subseteq> launched ?t" using t x by (auto simp: tally_def)
  moreover have "count_list (pl_writes ?t) (y, SbFailed) \<le> of_bool (y \<in> pl_failed ?t)" for y
    using tallyD(1) [OF t, of y] x count_fresh [OF t x(2)] ws by (auto simp: fail_lane_def split: if_splits)
  moreover have "count_list (pl_writes ?t) (y, SbBlocked) = of_bool (y \<in> pl_blocked ?t)" for y
    using t ws by (auto simp: tally_def fail_lane_def)
  ultimately show ?thesis using t x fin by (simp add: tally_def) (simp add: fail_lane_def)
qed

lemma tally_launch: "tally s \<Longrightarrow> tally (launch x s)"
  by (auto simp: tally_def started_def launched_def launch_simps)

lemma started_forms:
  "x \<in> set (pl_inFlight s) \<Longrightarrow> started (leave_flight x s) \<subseteq> started s"
  "started (hold_lane x h s) \<subseteq> insert x (started s)"
  "set (pp_items p) = A \<union> park_items s \<Longrightarrow> started (park_lanes A p seen s) \<subseteq> A \<union> started s"
  "started (end_park s) \<subseteq> started s"
  by (auto simp: started_def leave_flight_def hold_lane_def park_lanes_def end_park_def held_keys_def park_items_def)

lemma tally_settle:
  assumes wf: "wf_pool s" and t: "tally s" and x: "pl_finished s x = Some oc"
  shows "tally (settle_outcome x oc now (leave_flight x s))"
proof -
  have fl: "x \<in> set (pl_inFlight s)" using wf_poolD(3) [OF wf] x by (auto simp: links_ok_def)
  then have st: "x \<in> started s" by (simp add: started_def)
  let ?l = "leave_flight x s"
  have sl: "started ?l \<subseteq> started s" using fl by (rule started_forms)
  have tl: "tally ?l" by (rule tally_same [OF t]) (use sl in \<open>simp_all add: leave_flight_def\<close>)
  have nf: "x \<notin> pl_failed ?l" "finite (pl_failed ?l)" "x \<in> launched ?l"
    using wf_poolD(1,2) [OF wf] fl t st
    by (auto simp: places_ok_def places_def leave_flight_def lists_ok_def tally_def launched_def)
  from wf x show ?thesis
  proof (cases rule: settle_forms [where now = now])
    case aborted
    show ?thesis unfolding aborted(2)
      by (rule tally_same [OF tl]) (auto simp: started_def held_keys_def park_items_def)
  next
    case (parked p seen)
    have "started (park_lanes {x} p seen ?l) \<subseteq> started s"
      using started_forms(3) [of p "{x}" ?l seen] parked(2) sl st by auto
    then show ?thesis unfolding parked(1)
      by (intro tally_same [OF t]) (simp_all add: park_lanes_def leave_flight_def)
  next
    case (failed e per)
    show ?thesis unfolding failed(2) by (rule tally_fail [OF tl nf(3,1,2)]) simp
  next
    case (holding h)
    have "started (hold_lane x h ?l) \<subseteq> started s" using started_forms(2) [of x h ?l] sl st by auto
    then show ?thesis unfolding holding by (intro tally_same [OF t]) (simp_all add: hold_lane_def leave_flight_def)
  next
    case integrated
    have "started (settle_outcome x oc now ?l) \<subseteq> started s" using sl st
      by (auto simp: integrated(2) started_def held_keys_def park_items_def)
    then show ?thesis unfolding integrated(2)
      by (intro tally_same [OF t]) (simp_all add: leave_flight_def)
  qed
qed

interpretation ledger: pool_invariant cap ins "\<lambda>_. True" ledger for cap ins
proof
  fix items deps files known pauses giveUps
  show "ledger (pool_init items deps files known pauses giveUps)"
    by (simp add: ledger_def tally_def apart_def started_def pool_init_def held_keys_def park_items_def)
next
  fix s s' assume "ledger s" "pool_block s s'"
  from this(2,1) show "ledger s'"
  proof (induction rule: pool_block.induct)
    case (1 x s p)
    have "started (markBlocked x s) = started s" "launched (markBlocked x s) = launched s"
      by (auto simp: started_def launched_def markBlocked_def driveLane_def held_keys_def park_items_def)
    moreover have "tally s" "apart s" using 1 by (simp_all add: ledger_def)
    moreover have "apart (markBlocked x s)" using \<open>apart s\<close> 1 by (auto simp: apart_def markBlocked_def driveLane_def)
    moreover have "count_list (pl_writes (markBlocked x s)) (y, SbFailed) \<le> of_bool (y \<in> pl_failed (markBlocked x s))"
      "count_list (pl_writes (markBlocked x s)) (y, SbBlocked) = of_bool (y \<in> pl_blocked (markBlocked x s))" for y
      using tallyD(1,2) [OF \<open>tally s\<close>, of y] 1(2) by (auto simp: markBlocked_def driveLane_def)
    moreover have "pl_incompleteCount (markBlocked x s) = card (pl_failed (markBlocked x s)) + card (pl_blocked (markBlocked x s))"
      using tallyD(4) [OF \<open>tally s\<close>] \<open>apart s\<close> 1(2) by (simp add: markBlocked_def driveLane_def apart_def)
    ultimately show ?case by (simp add: ledger_def tally_def)
  qed
next
  fix s s' assume wf: "wf_pool s" "wf_pool s'" and d: "ledger s" and m: "pool_move cap ins s s'"
  then have "tally s" by (simp add: ledger_def)
  with m wf(1) have "tally s'"
  proof (induction rule: pool_move.induct)
    case (park g s)
    have "set (fst (snd g)) \<subseteq> started s" using park.hyps by (auto simp: started_def)
    then have "started (park_group g s) \<subseteq> started s"
      using park_group_lanes [of g s] started_forms(3) [of _ "set (fst (snd g))" s "[]"]
      by (metis Un_absorb1 order_refl)
    then show ?case using park_group_lanes [of g s]
      by (intro tally_same [OF park.prems(2)]) (auto simp: park_lanes_def)
  next
    case (flush x s)
    have "x \<notin> pl_failed s" "finite (pl_failed s)" "x \<in> launched s"
      using wf_poolD(1,2) [OF flush.prems(1)] flush by (auto simp: lists_ok_def places_ok_def places_def tally_def started_def)
    then show ?case using flush by (simp add: flush_fail tally_fail)
  next
    case (give_up s p)
    have "x \<in> launched s" if "x \<in> park_items s" for x using give_up that by (auto simp: tally_def started_def)
    let ?P = "\<lambda>t. tally t \<and> wf_pool t \<and> launched s \<subseteq> launched t"
    have "?P (fail_parked (pp_items p) (end_park s))"
    proof (rule fail_parked_induct [where A = "park_items s" and P = ?P])
      have "tally (end_park s)" using started_forms(4) [of s]
        by (intro tally_same [OF give_up.prems(2)]) (simp_all add: end_park_def)
      then show "?P (end_park s)" using give_up by (simp add: wf_end_park) (simp add: end_park_def launched_def)
    next
      fix x t assume "?P t" "x \<in> park_items s" "loose x t"
      moreover from this have "x \<in> launched t" "x \<notin> pl_failed t" "finite (pl_failed t)" 
        using give_up wf_poolD(1,2) [of t]
        by (auto simp: tally_def started_def loose_def lists_ok_def places_ok_def places_def)
      ultimately show "?P (fail_lane x [(x, SbFailed)] t)"
        by (auto simp: tally_fail wf_fail loose_def) (auto simp: fail_lane_def launched_def)
    qed (use give_up in \<open>simp_all, simp add: park_items_def\<close>)
    then show ?case by (simp add: end_park_fail)
  qed (simp_all add: tally_launch tally_settle,
       (erule tally_same; auto simp: lane_form_defs started_def held_keys_def park_items_def resolve_simps)+)
  with wf_apart [OF wf(2)] show "ledger s'" by (simp add: ledger_def)
qed

section \<open>Slots and concurrency\<close>

lemma sorted_hd_le: "sorted (xs :: nat list) \<Longrightarrow> n \<in> set xs \<Longrightarrow> hd xs \<le> n"
  by (cases xs) auto

lemma lowest_free:
  "lowestFreeLaneSlot slots \<notin> snd ` set slots" "lowestFreeLaneSlot slots \<le> length slots"
  "n < lowestFreeLaneSlot slots \<Longrightarrow> n \<in> snd ` set slots"
proof -
  let ?free = "filter (\<lambda>n. n \<notin> snd ` set slots) [0..<Suc (length slots)]"
  have "\<not> {0..<Suc (length slots)} \<subseteq> snd ` set slots"
  proof
    assume "{0..<Suc (length slots)} \<subseteq> snd ` set slots"
    then have "card {0..<Suc (length slots)} \<le> card (snd ` set slots)" by (intro card_mono) auto
    also have "\<dots> \<le> length slots" by (metis card_image_le card_length finite_set le_trans)
    finally show False by simp
  qed
  then obtain m where "m < Suc (length slots)" "m \<notin> snd ` set slots" unfolding subset_iff atLeastLessThan_iff by blast
  then have "m \<in> set ?free" by (simp del: upt_Suc)
  then have ne: "?free \<noteq> []" by (metis empty_iff empty_set)
  then have "lowestFreeLaneSlot slots \<in> set ?free" unfolding lowestFreeLaneSlot_def by (rule hd_in_set)
  then show "lowestFreeLaneSlot slots \<notin> snd ` set slots" "lowestFreeLaneSlot slots \<le> length slots"
    by (simp_all del: upt_Suc)
  assume n: "n < lowestFreeLaneSlot slots"
  show "n \<in> snd ` set slots"
  proof (rule ccontr)
    assume "n \<notin> snd ` set slots"
    with n \<open>lowestFreeLaneSlot slots \<le> length slots\<close> have "n \<in> set ?free" by auto
    moreover have "sorted ?free" by (rule sorted_wrt_filter) (rule sorted_upt)
    ultimately have "hd ?free \<le> n" by (intro sorted_hd_le)
    with n show False unfolding lowestFreeLaneSlot_def by linarith
  qed
qed

definition lanes_ok :: "nat \<Rightarrow> pool \<Rightarrow> bool" where
  "lanes_ok cap s \<longleftrightarrow> length (pl_inFlight s) \<le> cap \<and> distinct (pl_activeLanes s) \<and>
     set (pl_activeLanes s) = set (pl_inFlight s) - dom (pl_finished s) \<and>
     (2 \<le> length (pl_activeLanes s) \<longrightarrow> set (pl_activeLanes s) \<subseteq> pl_overlapped s)"

definition slots_ok :: "nat \<Rightarrow> pool \<Rightarrow> bool" where
  "slots_ok cap s \<longleftrightarrow> distinct (map fst (pl_laneSlots s)) \<and> distinct (map snd (pl_laneSlots s)) \<and>
     fst ` set (pl_laneSlots s) = set (pl_activeLanes s) \<and> (\<forall>n \<in> snd ` set (pl_laneSlots s). n < cap)"

definition crew :: "nat \<Rightarrow> pool \<Rightarrow> bool" where
  "crew cap s \<longleftrightarrow> distinct (pl_inFlight s) \<and> lanes_ok cap s \<and> slots_ok cap s"

lemma crew_same:
  assumes "crew cap s" and "pl_inFlight s' = pl_inFlight s" and "pl_activeLanes s' = pl_activeLanes s"
    and "pl_finished s' = pl_finished s" and "pl_overlapped s' = pl_overlapped s" and "pl_laneSlots s' = pl_laneSlots s"
  shows "crew cap s'"
  using assms(1) unfolding crew_def lanes_ok_def slots_ok_def assms(2-6) .

lemma launch_crew_simps:
  "pl_activeLanes (launch x s) = js_add x (pl_activeLanes s)"
  "pl_laneSlots (launch x s) = filter (\<lambda>(y, _). y \<noteq> x) (pl_laneSlots s) @ [(x, lowestFreeLaneSlot (pl_laneSlots s))]"
  "pl_overlapped (launch x s) =
     (if pl_activeLanes s = [] then pl_overlapped s else insert x (pl_overlapped s \<union> set (pl_activeLanes s)))"
  by (simp_all add: launch_def runLane_def driveLane_def Let_def)

lemma crew_launch:
  assumes wf: "wf_pool s" and c: "crew cap s" and x: "x \<notin> set (pl_inFlight s)" "length (pl_inFlight s) < cap"
  shows "crew cap (launch x s)"
proof -
  have l: "lanes_ok cap s" and k: "slots_ok cap s" and d: "distinct (pl_inFlight s)" using c by (simp_all add: crew_def)
  have fin: "x \<notin> dom (pl_finished s)" using wf_poolD(3) [OF wf] x(1) by (auto simp: links_ok_def)
  have act: "x \<notin> set (pl_activeLanes s)" using l x(1) by (auto simp: lanes_ok_def)
  have lanes: "lanes_ok cap (launch x s)"
    using l x fin act by (auto simp: lanes_ok_def launch_simps launch_crew_simps js_add_def)
  have keep: "filter (\<lambda>(y, _). y \<noteq> x) (pl_laneSlots s) = pl_laneSlots s"
    using k act by (force simp: slots_ok_def filter_id_conv)
  have "length (pl_laneSlots s) = card (fst ` set (pl_laneSlots s))"
    using k by (metis slots_ok_def distinct_card length_map set_map)
  also have "\<dots> \<le> card (set (pl_inFlight s))"
    using k l by (intro card_mono) (auto simp: slots_ok_def lanes_ok_def)
  also have "\<dots> < cap" using x(2) d by (simp add: distinct_card)
  finally have "lowestFreeLaneSlot (pl_laneSlots s) < cap" using lowest_free(2) [of "pl_laneSlots s"] by simp
  then have "slots_ok cap (launch x s)"
    using k act lowest_free(1) [of "pl_laneSlots s"]
    by (auto simp: slots_ok_def launch_crew_simps keep)
  then show ?thesis using d lanes by (simp add: crew_def launch_simps)
qed

lemma removeAll_bound: "length xs \<le> n \<Longrightarrow> length (removeAll x xs) \<le> n" "n \<le> length (removeAll x xs) \<Longrightarrow> n \<le> length xs"
  by (meson length_removeAll_less_eq le_trans)+

lemma crew_finish:
  assumes "crew cap s" and "x \<in> set (pl_inFlight s)"
  shows "crew cap (lane_finishes x oc s)"
proof -
  have "lanes_ok cap (lane_finishes x oc s)"
    using assms by (auto simp: crew_def lanes_ok_def lane_finishes_def distinct_removeAll dest: removeAll_bound)
  moreover have "distinct (map snd (filter P (pl_laneSlots s)))" for P
    using assms by (simp add: crew_def slots_ok_def distinct_map_filter)
  then have "slots_ok cap (lane_finishes x oc s)"
    using assms by (auto simp: crew_def slots_ok_def lane_finishes_def)
  ultimately show ?thesis using assms by (simp add: crew_def) (simp add: lane_finishes_def)
qed

lemma crew_leave:
  assumes "crew cap s" and "pl_finished s x = Some oc"
  shows "crew cap (leave_flight x s)"
proof -
  have "set (removeAll x (pl_inFlight s)) - dom ((pl_finished s)(x := None)) = set (pl_inFlight s) - dom (pl_finished s)"
    using assms(2) by auto
  then show ?thesis using assms unfolding crew_def lanes_ok_def slots_ok_def
    by (simp add: leave_flight_def distinct_removeAll removeAll_bound(1)) metis
qed

lemma crew_settle:
  assumes wf: "wf_pool s" and c: "crew cap s" and x: "pl_finished s x = Some oc"
  shows "crew cap (settle_outcome x oc now (leave_flight x s))"
proof (rule crew_same [OF crew_leave [OF c x]])
qed (use wf x in \<open>cases rule: settle_forms [where now = now], simp_all add: park_lanes_def fail_lane_def hold_lane_def\<close>)+

lemma fail_parked_crew [simp]:
  "pl_activeLanes (fail_parked xs s) = pl_activeLanes s" "pl_finished (fail_parked xs s) = pl_finished s"
  "pl_overlapped (fail_parked xs s) = pl_overlapped s" "pl_laneSlots (fail_parked xs s) = pl_laneSlots s"
  unfolding fail_parked_def
  by (induction xs arbitrary: s) (auto simp: markFailed_def driveLane_def)

interpretation crew: pool_invariant cap ins "\<lambda>_. True" "crew cap" for cap ins
proof
  fix items deps files known pauses giveUps
  show "crew cap (pool_init items deps files known pauses giveUps)"
    by (simp add: crew_def lanes_ok_def slots_ok_def pool_init_def)
next
  fix s s' assume "crew cap s" "pool_block s s'"
  from this(2,1) show "crew cap s'"
    by (induction rule: pool_block.induct) (erule crew_same; simp add: markBlocked_def driveLane_def)
next
  fix s s' assume wf: "wf_pool s" "wf_pool s'" and d: "crew cap s" and m: "pool_move cap ins s s'"
  from m wf(1) d show "crew cap s'"
  proof (induction rule: pool_move.induct)
    case (park g s)
    then show ?case using park_group_lanes [of g s]
      by (intro crew_same [OF park.prems(2)]) (auto simp: park_lanes_def)
  next
    case (launch x s)
    then show ?case by (auto simp: dispatchable_def intro: crew_launch)
  next
    case (flush x s)
    then show ?case by (intro crew_same [OF flush.prems(2)]) (auto simp: fail_lane_def flush_fail)
  qed (simp_all add: crew_finish crew_settle,
       (erule crew_same; simp add: lane_form_defs resolve_simps)+)
qed

end
