(* ===== verification/LanePoolRuns.thy ===== *)
theory LanePoolRuns
  imports LanePoolProps
begin

text \<open>
  Whole runs of the pool: why a lane is blocked, the batch whose item set stays the same (every item is
  remaining or settled), the measure that every step of such a batch lowers, and the expected files of
  the lanes in flight.
\<close>

section \<open>Blocked lanes\<close>

definition blocked_why :: "pool \<Rightarrow> bool" where
  "blocked_why s \<longleftrightarrow> (\<forall>x \<in> pl_blocked s. \<exists>p \<in> set (prereqs_of s x). \<not> met_prereq s p)"

interpretation why: pool_invariant cap ins "\<lambda>_. True" blocked_why for cap ins
proof
  fix items deps files known pauses giveUps
  show "blocked_why (pool_init items deps files known pauses giveUps)"
    by (simp add: blocked_why_def pool_init_def)
next
  fix s s' assume "blocked_why s" "pool_block s s'"
  from this(2,1) show "blocked_why s'"
    by (induction rule: pool_block.induct) (auto simp: blocked_why_def, auto simp: markBlocked_def driveLane_def)
next
  fix s s' assume "wf_pool s'"
  then show "blocked_why s'" using wf_poolD(1) by (auto simp: blocked_why_def lists_ok_def)
qed

section \<open>A batch whose item set does not change\<close>

definition same_items :: "string set \<Rightarrow> pool_in set" where
  "same_items A = {inp. \<forall>fresh. in_fresh inp = Some fresh \<longrightarrow> set fresh = A}"

definition settled_set :: "pool \<Rightarrow> string set" where
  "settled_set s = pl_integrated s \<union> pl_failed s \<union> pl_blocked s"

definition batch :: "string set \<Rightarrow> pool \<Rightarrow> bool" where
  "batch A s \<longleftrightarrow> pl_inScope s = A \<and> set (pl_remaining s) \<union> settled_set s = A \<and>
     (\<forall>p. pl_parkPending s = Some p \<longrightarrow> pp_items p \<noteq> [])"

lemma batch_same:
  assumes "batch A s" and "pl_inScope s' = pl_inScope s" and "set (pl_remaining s') \<union> settled_set s' = set (pl_remaining s) \<union> settled_set s"
    and "\<And>p. pl_parkPending s' = Some p \<Longrightarrow> pl_parkPending s = Some p \<or> pp_items p \<noteq> []"
  shows "batch A s'"
  using assms unfolding batch_def by metis

lemma batch_resolve:
  assumes wf: "wf_pool s" and b: "batch A s" and inp: "inp \<in> same_items A"
  shows "batch A (re_resolve inp s)"
proof (cases "in_fresh inp")
  case None
  then show ?thesis using b by (simp add: re_resolve_def)
next
  case (Some fresh)
  then have A: "set fresh = A" using inp by (simp add: same_items_def)
  then have "filter (\<lambda>x. x \<notin> pl_inScope s) fresh = []" using b by (auto simp: batch_def filter_empty_conv)
  then have "pl_inScope (re_resolve inp s) = pl_inScope s" using Some by (simp add: re_resolve_def)
  moreover have "set (pl_remaining (re_resolve inp s)) = {x \<in> A. \<not> settled s x} \<union> set (pl_inFlight s)"
    using resolve_remaining(2) [OF Some] A by simp
  moreover have "settled_set (re_resolve inp s) = settled_set s" by (simp add: settled_set_def resolve_simps)
  moreover have "set (pl_inFlight s) \<subseteq> set (pl_remaining s)"
    using wf_poolD(2) [OF wf] by (simp add: places_ok_def places_def)
  then have "{x \<in> A. \<not> settled s x} \<union> set (pl_inFlight s) \<union> settled_set s = set (pl_remaining s) \<union> settled_set s"
    using b by (auto simp: batch_def settled_set_def settled_def)
  ultimately show ?thesis by (intro batch_same [OF b]) (simp_all add: resolve_simps)
qed

lemma park_group_park:
  "pl_parkPending (park_group g s) = Some p \<Longrightarrow> pl_parkPending s = Some p \<or> pp_items p \<noteq> []"
  by (cases g) (auto simp: park_group_def Let_def simp flip: set_empty split: if_splits)

lemma batch_fail:
  assumes "batch A s" and "x \<in> set (pl_remaining s)"
  shows "batch A (fail_lane x ws s)"
  using assms(2) by (intro batch_same [OF assms(1)]) (auto simp: fail_lane_def settled_set_def)

lemma batch_settle:
  assumes wf: "wf_pool s" and b: "batch A s" and x: "pl_finished s x = Some oc"
  shows "batch A (settle_outcome x oc now (leave_flight x s))"
proof -
  have r: "x \<in> set (pl_remaining (leave_flight x s))" using leave_loose [OF wf x] by (simp add: loose_def)
  have l: "batch A (leave_flight x s)" by (rule batch_same [OF b]) (simp_all add: leave_flight_def settled_set_def)
  from wf x show ?thesis
  proof (cases rule: settle_forms [where now = now])
    case (failed e per)
    then show ?thesis using batch_fail [OF l r] by simp
  next
    case (parked p seen)
    then have "pp_items p \<noteq> []" by auto
    with parked(1) show ?thesis
      by (auto intro!: batch_same [OF l] simp: park_lanes_def settled_set_def)
  qed (use r in \<open>auto intro!: batch_same [OF l] simp: hold_lane_def settled_set_def\<close>)
qed

lemma held_remaining:
  assumes "wf_pool s" and "batch A s"
  shows "held_keys s \<subseteq> set (pl_remaining s)" "park_items s \<subseteq> set (pl_remaining s)"
  using wf_poolD(1,2) [OF assms(1)] assms(2)
  by (auto simp: places_ok_def places_def batch_def settled_set_def lists_ok_def)

interpretation batch: pool_invariant cap "same_items A" "\<lambda>s. pl_inScope s = A" "batch A" for cap A
proof
  fix items deps files known pauses giveUps assume "pl_inScope (pool_init items deps files known pauses giveUps) = A"
  then show "batch A (pool_init items deps files known pauses giveUps)"
    by (simp add: batch_def settled_set_def pool_init_def)
next
  fix s s' assume "batch A s" "pool_block s s'"
  from this(2,1) show "batch A s'"
    by (induction rule: pool_block.induct) 
      (erule batch_same; auto simp: markBlocked_def driveLane_def settled_set_def)
next
  fix s s' assume wf: "wf_pool s" and b: "batch A s" and m: "pool_move cap (same_items A) s s'"
  from m wf b show "batch A s'"
  proof (induction rule: pool_move.induct)
    case (park g s)
    have "pl_inScope (park_group g s) = pl_inScope s" "pl_remaining (park_group g s) = pl_remaining s"
      "settled_set (park_group g s) = settled_set s"
      using park_group_lanes [of g s] by (auto simp: park_lanes_def settled_set_def)
    then show ?case using park_group_park [of g s] by (intro batch_same [OF park.prems(2)]) simp_all
  next
    case (flush x s)
    then show ?case using held_remaining(1) [of s A] by (auto simp: flush_fail batch_fail)
  next
    case (give_up s p)
    have "batch A (fail_parked (pp_items p) (end_park s))"
    proof (rule fail_parked_induct [where A = UNIV and P = "batch A"])
      show "batch A (end_park s)"
        by (rule batch_same [OF give_up.prems(2)]) (simp_all add: end_park_def settled_set_def)
    next
      fix x t assume "batch A t" "loose x t"
      then show "batch A (fail_lane x [(x, SbFailed)] t)" by (simp add: batch_fail loose_def)
    qed (use give_up in simp_all)
    then show ?case by (simp add: end_park_fail)
  qed (simp_all add: batch_resolve batch_settle,
       (erule batch_same; simp add: lane_form_defs settled_set_def launch_simps)+)
qed

section \<open>Progress\<close>

text \<open>What never shrinks: the settled lanes, the pauses taken and the abort mark.\<close>

definition grows :: "pool \<Rightarrow> pool \<Rightarrow> bool" where
  "grows s s' \<longleftrightarrow> settled_set s \<subseteq> settled_set s' \<and> (pl_sawAborted s \<longrightarrow> pl_sawAborted s') \<and>
     (\<forall>k. used_of (pl_systemicPauses s) k \<le> used_of (pl_systemicPauses s') k)"

lemma grows_refl: "grows s s" and grows_trans: "grows s t \<Longrightarrow> grows t u \<Longrightarrow> grows s u"
  unfolding grows_def by (blast, meson order_trans)

lemma fail_parked_grows: "grows s (fail_parked xs s)"
  unfolding fail_parked_def
proof (induction xs arbitrary: s)
  case (Cons x xs)
  have "grows s (markFailed x s)" by (auto simp: grows_def markFailed_def driveLane_def settled_set_def)
  then show ?case using Cons grows_trans by auto
qed (simp add: grows_refl)

lemma move_grows:
  assumes "pool_move cap ins s s'" and "wf_pool s"
  shows "grows s s'"
  using assms
proof (induction rule: pool_move.induct)
  case (settle s x oc now)
  from settle.prems settle.hyps show ?case
    by (cases rule: settle_forms [where now = now])
      (auto simp: grows_def settled_set_def lane_form_defs)
next
  case (park g s)
  then show ?case using park_group_lanes [of g s] by (auto simp: grows_def settled_set_def park_lanes_def)
next
  case (give_up s p)
  have "grows t (end_park t)" for t by (auto simp: grows_def end_park_def settled_set_def)
  then show ?case using fail_parked_grows grows_trans by blast
qed (auto simp: grows_def settled_set_def lane_form_defs resolve_simps launch_simps flush_fail)

lemma moves_grow: "moves cap ins s s' \<Longrightarrow> wf_pool s \<Longrightarrow> grows s s'"
proof (induction rule: rtranclp_induct)
  case (step t u)
  then show ?case using move_grows wf_moves grows_trans by blast
qed (rule grows_refl)

text \<open>The lanes of the batch that are still to be dispatched or are in flight.\<close>

definition pending :: "string set \<Rightarrow> pool \<Rightarrow> string set" where
  "pending A s = A - settled_set s - held_keys s - park_items s"

definition budget :: "string set \<Rightarrow> string \<Rightarrow> pool \<Rightarrow> nat" where
  "budget A stepId s = card (A - settled_set s) + (MAX_SYSTEMIC_PAUSES - used_of (pl_systemicPauses s) stepId)"

definition load :: "string set \<Rightarrow> pool \<Rightarrow> nat" where
  "load A s = (if pl_sawAborted s then length (pl_inFlight s) else card (pending A s))"

definition lively :: "string set \<Rightarrow> pool \<Rightarrow> nat" where
  "lively A s = card (set (pl_inFlight s) - dom (pl_finished s)) +
     card (set (pl_inFlight s) - pl_released s) + of_bool (pl_triageLatch s = None)"

fun phase :: "string set \<Rightarrow> config \<Rightarrow> nat" where
  "phase A (AtTop s) = 2 * card A + 2"
| "phase A (Racing s) = lively A s"
| "phase A (Returned t s) = 0"

definition progress :: "string set \<Rightarrow> string \<Rightarrow> config \<Rightarrow> nat \<times> nat \<times> nat \<times> nat" where
  "progress A stepId c = (case c of Returned t s \<Rightarrow> (0, 0, 0, 0)
     | _ \<Rightarrow> (budget A stepId (pool_of c), of_bool (\<not> pl_sawAborted (pool_of c)), load A (pool_of c), phase A c))"

abbreviation lower :: "((nat \<times> nat \<times> nat \<times> nat) \<times> (nat \<times> nat \<times> nat \<times> nat)) set" where
  "lower \<equiv> less_than <*lex*> less_than <*lex*> less_than <*lex*> less_than"

lemma budget_mono: "grows s s' \<Longrightarrow> finite A \<Longrightarrow> budget A stepId s' \<le> budget A stepId s"
proof -
  assume g: "grows s s'" and "finite A"
  then have "card (A - settled_set s') \<le> card (A - settled_set s)"
    by (intro card_mono) (auto simp: grows_def)
  moreover have "used_of (pl_systemicPauses s) stepId \<le> used_of (pl_systemicPauses s') stepId"
    using g by (simp add: grows_def)
  ultimately show ?thesis by (simp add: budget_def)
qed

lemma lowerI:
  assumes "grows s s'" and "finite A" and "pl_sawAborted s' = pl_sawAborted s \<Longrightarrow> load A s' < load A s \<or>
    load A s' = load A s \<and> phase A c' < phase A c"
    and "pool_of c = s" "pool_of c' = s'" "\<And>t u. c \<noteq> Returned t u" "\<And>t u. c' \<noteq> Returned t u"
  shows "(progress A stepId c', progress A stepId c) \<in> lower"
proof -
  have "progress A stepId d = (budget A stepId (pool_of d), of_bool (\<not> pl_sawAborted (pool_of d)), load A (pool_of d), phase A d)"
    if "\<And>t u. d \<noteq> Returned t u" for d using that by (cases d) (auto simp: progress_def)
  then show ?thesis using assms budget_mono [OF assms(1,2), of stepId]
    by (auto simp: grows_def)
qed

lemma dispatch_over_frame:
  "settled_set (dispatch_over cap xs s) = settled_set s" "park_items (dispatch_over cap xs s) = park_items s"
  "pl_sawAborted (dispatch_over cap xs s) = pl_sawAborted s"
  "pl_systemicPauses (dispatch_over cap xs s) = pl_systemicPauses s"
  by (induction cap xs s rule: dispatch_over.induct) (auto simp: settled_set_def launch_simps)

lemma dispatch_frame:
  "settled_set (dispatch cap s) = settled_set s" "park_items (dispatch cap s) = park_items s"
  "pl_sawAborted (dispatch cap s) = pl_sawAborted s" "pl_systemicPauses (dispatch cap s) = pl_systemicPauses s"
  by (simp_all add: dispatch_def dispatch_over_frame)

lemma before_dispatch_frame:
  "settled_set (before_dispatch inp s) = settled_set s" "park_items (before_dispatch inp s) = park_items s"
  "held_keys (before_dispatch inp s) = held_keys s" "pl_inFlight (before_dispatch inp s) = pl_inFlight s"
  by (simp_all add: before_dispatch_def settled_set_def held_keys_def resolve_simps) (simp add: park_items_def)

lemma head_load:
  assumes wf: "wf_pool s" and inp: "inp \<in> ins" and s': "s' = dispatch cap (before_dispatch inp s)"
    and same: "pl_sawAborted s' = pl_sawAborted s"
  shows "load A s' = load A s"
proof -
  have wb: "wf_pool (before_dispatch inp s)" using wf_moves [OF before_dispatch_moves [OF inp]] wf by blast
  have "pending A s' = pending A s" unfolding pending_def s'
    using dispatch_holds [OF wb] before_dispatch_frame [of inp s] by (simp add: dispatch_frame held_keys_def)
  moreover have "pl_inFlight s' = pl_inFlight s" if "pl_sawAborted s'"
  proof -
    have "pl_sawAborted (before_dispatch inp s)" using that s' by (simp add: dispatch_frame)
    then have "pl_holdDispatch (before_dispatch inp s)" using wf_poolD(3) [OF wb] by (simp add: links_ok_def)
    then show ?thesis using s' by (simp add: dispatch_def before_dispatch_frame)
  qed
  ultimately show ?thesis using same by (simp add: load_def)
qed

lemma lively_bound:
  assumes "wf_pool s" and "batch A s" and "finite A"
  shows "lively A s < 2 * card A + 2"
proof -
  have sub: "set (pl_inFlight s) \<subseteq> A" using wf_poolD(2) [OF assms(1)] assms(2)
    by (auto simp: places_ok_def places_def batch_def)
  then have "card (set (pl_inFlight s) - B) \<le> card A" for B using assms(3) by (intro card_mono) auto
  from this [of "dom (pl_finished s)"] this [of "pl_released s"] show ?thesis by (auto simp: lively_def)
qed

lemma pool_top_race:
  "pool_top cap stepId inner inp s = PoolRace s' \<Longrightarrow> s' = dispatch cap (before_dispatch inp s)"
  by (auto simp: pool_top_eq drain_def settle_park_def Let_def split: if_splits option.splits)

lemma markFailed_frame:
  "pl_failed (markFailed x s) = insert x (pl_failed s)" "pl_remaining (markFailed x s) = removeAll x (pl_remaining s)"
  by (simp_all add: markFailed_def driveLane_def)

lemma fail_parked_mono: "pl_failed s \<subseteq> pl_failed (fail_parked xs s)"
  unfolding fail_parked_def
proof (induction xs arbitrary: s)
  case (Cons x xs)
  from Cons [of "markFailed x s"] Cons [of s] show ?case by (auto simp: markFailed_frame)
qed simp

lemma fail_parked_fails: "set xs \<inter> set (pl_remaining s) \<subseteq> pl_failed (fail_parked xs s)"
proof (induction xs arbitrary: s)
  case (Cons x xs)
  show ?case
  proof (cases "x \<in> set (pl_remaining s)")
    case True
    then have "fail_parked (x # xs) s = fail_parked xs (markFailed x s)" by (simp add: fail_parked_def)
    then show ?thesis using Cons [of "markFailed x s"] fail_parked_mono [of "markFailed x s" xs]
      by (auto simp: markFailed_frame)
  next
    case False
    then have "fail_parked (x # xs) s = fail_parked xs s" by (simp add: fail_parked_def)
    then show ?thesis using Cons [of s] False by auto
  qed
qed simp

lemma give_up_budget:
  assumes wf: "wf_pool s" and b: "batch A s" and A: "finite A" and p: "pl_parkPending s = Some p"
    and g: "grows s t" and t: "pl_remaining t = pl_remaining s"
  shows "budget A stepId (end_park (fail_parked (pp_items p) t)) < budget A stepId s"
proof -
  let ?u = "end_park (fail_parked (pp_items p) t)"
  obtain x where x: "x \<in> set (pp_items p)" using b p by (cases "pp_items p") (auto simp: batch_def)
  then have "x \<in> set (pl_remaining s)" using held_remaining(2) [OF wf b] p by (auto simp: park_items_def)
  moreover have "settled_set ?u = settled_set (fail_parked (pp_items p) t)" by (simp add: settled_set_def end_park_def)
  ultimately have "x \<in> settled_set ?u" using x fail_parked_fails [of "pp_items p" t] t by (auto simp: settled_set_def)
  moreover have "x \<in> A - settled_set s"
    using \<open>x \<in> set (pl_remaining s)\<close> wf_apart [OF wf] b by (auto simp: apart_def batch_def settled_set_def)
  moreover have gu: "grows s ?u"
    using grows_trans [OF g fail_parked_grows] by (simp add: grows_def end_park_def settled_set_def)
  ultimately have "A - settled_set ?u \<subset> A - settled_set s" by (auto simp: grows_def)
  then have "card (A - settled_set ?u) < card (A - settled_set s)" using A by (intro psubset_card_mono) auto
  moreover have "used_of (pl_systemicPauses s) stepId \<le> used_of (pl_systemicPauses ?u) stepId"
    using gu by (simp add: grows_def)
  ultimately show ?thesis by (simp add: budget_def)
qed

lemma park_budget:
  assumes wf: "wf_pool s" and b: "batch A s" and A: "finite A" and p: "pl_parkPending s = Some p"
    and again: "settle_park stepId inner inp p s = PoolAgain s'"
  shows "budget A stepId s' < budget A stepId s"
proof -
  let ?s1 = "s\<lparr>pl_systemicPauses := bump (pl_systemicPauses s) stepId\<rparr>"
  let ?s2 = "?s1\<lparr>pl_systemicGiveUps := insert stepId (pl_systemicGiveUps ?s1)\<rparr>"
  have "grows s s" "grows s ?s2" by (auto simp: grows_def settled_set_def)
  note g = give_up_budget [OF wf b A p this(1)] give_up_budget [OF wf b A p this(2)]
  have r: "budget A stepId (end_park ?s1) < budget A stepId s"
    if "used_of (pl_systemicPauses s) stepId < MAX_SYSTEMIC_PAUSES"
    using that by (simp add: budget_def settled_set_def end_park_def)
  show ?thesis using again g r
    by (auto simp: settle_park_def Let_def split: option.splits if_splits)
qed

lemma head_ok:
  assumes "wf_pool s" and "held_open s" and "inp \<in> ins"
  shows "moves cap ins s (dispatch cap (before_dispatch inp s))" "wf_pool (dispatch cap (before_dispatch inp s))"
    "held_open (dispatch cap (before_dispatch inp s))"
proof -
  have b: "moves cap ins s (before_dispatch inp s)" using assms(3) by (rule before_dispatch_moves)
  then show m: "moves cap ins s (dispatch cap (before_dispatch inp s))" using dispatch_moves by (rule rtranclp_trans)
  show "wf_pool (dispatch cap (before_dispatch inp s))" using wf_moves [OF m assms(1)] .
  show "held_open (dispatch cap (before_dispatch inp s))"
    using before_dispatch_holds [OF assms(2)] dispatch_holds [OF wf_moves [OF b assms(1)]] by (simp add: held_open_def)
qed

lemma pool_top_again:
  assumes "wf_pool s" and "held_open s" and "pool_top cap stepId inner inp s = PoolAgain s'" and "inp \<in> ins"
  obtains p where "pl_parkPending (dispatch cap (before_dispatch inp s)) = Some p"
    "settle_park stepId inner inp p (dispatch cap (before_dispatch inp s)) = PoolAgain s'"
proof -
  let ?d = "dispatch cap (before_dispatch inp s)"
  have "wf_pool ?d" "held_open ?d"
    using head_ok [OF assms(1,2,4)] by simp_all
  then have "pl_inFlight ?d = [] \<Longrightarrow> pl_deferred ?d = []" by (rule quiet_no_holds)
  then show thesis using assms(3) that
    by (auto simp: pool_top_eq quiet_drain split: if_splits option.splits)
qed

lemma park_group_pending: "pending A (park_group g s) \<subseteq> pending A s"
  using park_group_views [of s g] park_group_lanes [of g s]
  by (auto simp: pending_def settled_set_def park_lanes_def)

lemma flush_pending: "pending A (flushDeferred x True s) \<subseteq> pending A s"
proof (cases "x \<in> held_keys s")
  case True
  then show ?thesis 
    by (auto simp: flush_fail pending_def settled_set_def) (auto simp: fail_lane_def held_keys_def park_items_def)
qed (simp add: flushDeferred_def held_keys_def)

lemma fold_pending: "(\<And>x s. pending A (f x s) \<subseteq> pending A s) \<Longrightarrow> pending A (fold f xs s) \<subseteq> pending A s"
  by (induction xs arbitrary: s) (simp, metis (no_types, lifting) fold_simps(2) subset_trans)

lemma settle_tail_pending: "pending A (age_seen t (flush_expired t (corroborate t s))) \<subseteq> pending A s"
proof -
  have "pending A (age_seen t u) = pending A u" for u
    by (simp add: pending_def settled_set_def age_seen_def held_keys_def park_items_def)
  moreover have "pending A (flush_expired t u) \<subseteq> pending A u" for u
    unfolding flush_expired_def by (rule fold_pending) (auto dest: set_mp [OF flush_pending] split: if_splits)
  moreover have "pending A (corroborate t u) \<subseteq> pending A u" for u
    unfolding corroborate_def by (rule fold_pending) (rule park_group_pending)
  ultimately show ?thesis by (metis subset_trans)
qed

lemma outcome_pending:
  assumes wf: "wf_pool s" and b: "batch A s" and x: "pl_finished s x = Some oc" and oc: "oc \<noteq> LaneAborted"
  shows "pending A (settle_outcome x oc now (leave_flight x s)) \<subset> pending A s"
proof -
  have "x \<in> set (pl_inFlight s)" using wf_poolD(3) [OF wf] x by (auto simp: links_ok_def)
  then have p: "x \<in> pending A s"
    using wf_poolD(1,2) [OF wf] b by (auto simp: pending_def settled_set_def places_ok_def places_def lists_ok_def batch_def)
  have "pending A (settle_outcome x oc now (leave_flight x s)) \<subseteq> pending A s - {x}"
    using wf x
    by (cases rule: settle_forms [where now = now])
      (use oc in \<open>auto simp: pending_def settled_set_def park_lanes_def fail_lane_def hold_lane_def leave_flight_def
        held_keys_def park_items_def\<close>)
  with p show ?thesis by auto
qed

lemma settle_inFlight: "pl_inFlight (pool_settle x oc now s) = removeAll x (pl_inFlight s)"
proof -
  have f: "pl_inFlight (fold g xs t) = pl_inFlight t" if "\<And>y t. pl_inFlight (g y t) = pl_inFlight t"
    for g :: "'b \<Rightarrow> pool \<Rightarrow> pool" and xs t using that by (induction xs arbitrary: t) auto
  have "pl_inFlight (corroborate w t) = pl_inFlight t" for w t
    unfolding corroborate_def by (rule f) (auto simp: park_group_def Let_def split: prod.splits)
  moreover have "pl_inFlight (flush_expired w t) = pl_inFlight t" for w t
    unfolding flush_expired_def by (rule f) (auto simp: flush_frame)
  moreover have "pl_inFlight (settle_outcome x oc now t) = pl_inFlight t" for t
    by (auto simp: settle_outcome_def settle_systemic_def settle_failed_lane_def settleFailed_def driveLane_def Let_def
        split: LaneWalkOutcome.splits)
  ultimately show ?thesis by (simp add: pool_settle_def Let_def age_seen_def) (simp add: leave_flight_def)
qed

lemma settle_load:
  assumes wf: "wf_pool s" and b: "batch A s" and A: "finite A" and x: "pl_finished s x = Some oc"
    and same: "pl_sawAborted (pool_settle x oc now s) = pl_sawAborted s"
  shows "load A (pool_settle x oc now s) < load A s"
proof (cases "pl_sawAborted s")
  case True
  have "x \<in> set (pl_inFlight s)" using wf_poolD(3) [OF wf] x by (auto simp: links_ok_def)
  then show ?thesis using True same by (simp add: load_def settle_inFlight length_removeAll_less)
next
  case False
  let ?o = "settle_outcome x oc now (leave_flight x s)" and ?w = "now - SAME_ERROR_COHORT_MAX_MS"
  have "moves 0 {} ?o (age_seen ?w (flush_expired ?w (corroborate ?w ?o)))"
    by (meson corroborate_moves flush_expired_moves pool_move.age r_into_rtranclp rtranclp_trans)
  moreover have "wf_pool ?o" using wf_move [OF pool_move.settle [OF x] wf] .
  ultimately have "grows ?o (pool_settle x oc now s)" by (simp add: moves_grow pool_settle_def Let_def)
  then have "oc \<noteq> LaneAborted" using False same by (auto simp: grows_def settle_outcome_def)
  then have "pending A (pool_settle x oc now s) \<subset> pending A s"
    using outcome_pending [OF wf b x, of now] settle_tail_pending [of A ?w ?o] by (auto simp: pool_settle_def Let_def)
  then have "card (pending A (pool_settle x oc now s)) < card (pending A s)"
    using A by (intro psubset_card_mono) (auto simp: pending_def)
  then show ?thesis using False same by (simp add: load_def)
qed

lemma lively_finish:
  assumes "x \<in> set (pl_inFlight s)" and "pl_finished s x = None"
  shows "lively A (lane_finishes x oc s) < lively A s"
proof -
  have "card (set (pl_inFlight s) - insert x (dom (pl_finished s))) < card (set (pl_inFlight s) - dom (pl_finished s))"
    using assms by (intro psubset_card_mono) auto
  then show ?thesis by (simp add: lively_def lane_finishes_def)
qed

lemma lively_release:
  assumes "x \<in> set (pl_inFlight s)" and "x \<notin> pl_released s"
  shows "lively A (lane_releases x s) < lively A s"
proof -
  have "card (set (pl_inFlight s) - insert x (pl_released s)) < card (set (pl_inFlight s) - pl_released s)"
    using assms by (intro psubset_card_mono) auto
  then show ?thesis by (simp add: lively_def lane_releases_def)
qed

lemma lively_latch: "pl_triageLatch s = None \<Longrightarrow> lively A (lane_latches e s) < lively A s"
  by (simp add: lively_def lane_latches_def)

text \<open>Each step of a batch whose items do not change lowers the progress measure.\<close>

lemma step_lowers:
  assumes step: "pool_step cap stepId inner (same_items A) c c'" and ok: "config_ok c" and b: "batch A (pool_of c)"
    and A: "finite A" and cap: "0 < cap"
  shows "(progress A stepId c', progress A stepId c) \<in> lower"
  using step ok b
proof (cases rule: pool_step.cases)
  case (race inp s s')
  let ?d = "dispatch cap (before_dispatch inp s)"
  have s: "wf_pool s" "held_open s" "batch A s" using race ok b by simp_all
  have s': "s' = ?d" using pool_top_race race by blast
  note m = head_ok [OF s(1,2) race(3), of cap]
  have "batch A ?d" using batch.moves_keep [OF m(1) s(1,3)] .
  then have "lively A s' < 2 * card A + 2" using lively_bound m(2) A s' by blast
  moreover have "load A s' = load A s" if "pl_sawAborted s' = pl_sawAborted s"
    using head_load [OF s(1) race(3) s' that] .
  moreover have "grows s s'" using moves_grow [OF m(1) s(1)] s' by simp
  ultimately show ?thesis using race A by (intro lowerI [where s = s and s' = s']) simp_all
next
  case (again inp s s')
  let ?d = "dispatch cap (before_dispatch inp s)"
  have s: "wf_pool s" "held_open s" "batch A s" using again ok b by simp_all
  note m = head_ok [OF s(1,2) again(3), of cap]
  have bd: "batch A ?d" using batch.moves_keep [OF m(1) s(1,3)] .
  obtain p where p: "pl_parkPending ?d = Some p" "settle_park stepId inner inp p ?d = PoolAgain s'"
    using pool_top_again [OF s(1,2) again(4,3)] .
  have "budget A stepId s' < budget A stepId ?d" by (rule park_budget [OF m(2) bd A p])
  also have "\<dots> \<le> budget A stepId s" using budget_mono [OF moves_grow [OF m(1) s(1)] A] .
  finally show ?thesis using again by (simp add: progress_def)
next
  case (return inp s t s')
  then show ?thesis by (auto simp: progress_def)
next
  case (finish x s oc)
  then show ?thesis using A lively_finish [of x s A oc]
    by (intro lowerI [where s = s and s' = "lane_finishes x oc s"])
      (auto simp: grows_def lane_finishes_def settled_set_def load_def pending_def held_keys_def park_items_def)
next
  case (release x s)
  then show ?thesis using A lively_release [of x s A]
    by (intro lowerI [where s = s and s' = "lane_releases x s"])
      (auto simp: grows_def lane_releases_def settled_set_def load_def pending_def held_keys_def park_items_def)
next
  case (latch s e)
  then show ?thesis using A lively_latch [of s A e]
    by (intro lowerI [where s = s and s' = "lane_latches e s"])
      (auto simp: grows_def lane_latches_def settled_set_def load_def pending_def held_keys_def park_items_def)
next
  case (settle s x oc now)
  have s: "wf_pool s" "batch A s" using settle ok b by simp_all
  have "grows s (pool_settle x oc now s)" using moves_grow [OF settle_moves [OF settle(3)] s(1)] .
  then show ?thesis using settle A settle_load [OF s A settle(3), of now]
    by (intro lowerI [where s = s and s' = "pool_settle x oc now s"]) simp_all
qed

lemma config_moves_on:
  assumes "config_ok c" and "\<And>t s. c \<noteq> Returned t s" and "inp \<in> ins"
  shows "\<exists>c'. pool_step cap stepId inner ins c c'"
proof (cases c)
  case (AtTop s)
  then show ?thesis using assms(3) by (cases "pool_top cap stepId inner inp s") (auto intro: pool_step.intros)
next
  case (Racing s)
  then obtain x where x: "x \<in> set (pl_inFlight s)" using assms(1) by (cases "pl_inFlight s") auto
  then show ?thesis using Racing by (cases "pl_finished s x") (auto intro: pool_step.intros)
qed (use assms in simp)

section \<open>Expected files\<close>

definition files_claimed :: "pool \<Rightarrow> bool" where
  "files_claimed s \<longleftrightarrow> (\<forall>x \<in> set (pl_inFlight s). \<forall>f \<in> set (files_of s x). pl_claimedFiles s f = Some x)"

lemma files_claimed_same:
  assumes "files_claimed s" and "pl_inFlight s' = pl_inFlight s" and "pl_expectedFiles s' = pl_expectedFiles s"
    and "pl_claimedFiles s' = pl_claimedFiles s"
  shows "files_claimed s'"
  using assms by (simp add: files_claimed_def files_of_def)

lemma batch_resolve_files:
  assumes "batch A s" and "inp \<in> same_items A"
  shows "pl_expectedFiles (re_resolve inp s) = pl_expectedFiles s"
proof (cases "in_fresh inp")
  case (Some fresh)
  then have "filter (\<lambda>x. x \<notin> pl_inScope s) fresh = []"
    using assms by (auto simp: batch_def same_items_def filter_empty_conv)
  then show ?thesis using Some by (simp add: re_resolve_def)
qed (simp add: re_resolve_def)

lemma files_claimed_launch:
  assumes "files_claimed s" and "dispatchable s x"
  shows "files_claimed (launch x s)"
proof -
  have "pl_claimedFiles s f = None" if "f \<in> set (files_of s x)" for f
    using assms(2) that by (auto simp: dispatchable_def list_ex_iff)
  then show ?thesis using assms(1) by (force simp: files_claimed_def files_of_def launch_simps)
qed

lemma files_claimed_settle:
  assumes wf: "wf_pool s" and c: "files_claimed s" and x: "pl_finished s x = Some oc"
  shows "files_claimed (settle_outcome x oc now (leave_flight x s))"
proof -
  have l: "files_claimed (leave_flight x s)" using c by (auto simp: files_claimed_def files_of_def leave_flight_def)
  from wf x show ?thesis
    by (cases rule: settle_forms [where now = now])
      (simp_all add: files_claimed_same [OF l] park_lanes_def fail_lane_def hold_lane_def)
qed

lemma fail_parked_files [simp]:
  "pl_expectedFiles (fail_parked xs s) = pl_expectedFiles s" "pl_claimedFiles (fail_parked xs s) = pl_claimedFiles s"
  unfolding fail_parked_def by (induction xs arbitrary: s) (auto simp: markFailed_def driveLane_def)

interpretation files: pool_invariant cap "same_items A" "\<lambda>s. pl_inScope s = A" "\<lambda>s. batch A s \<and> files_claimed s" for cap A
proof
  fix items deps files known pauses giveUps assume "pl_inScope (pool_init items deps files known pauses giveUps) = A"
  then show "batch A (pool_init items deps files known pauses giveUps) \<and>
      files_claimed (pool_init items deps files known pauses giveUps)"
    using batch.init [of items deps files known pauses giveUps A] by (simp add: files_claimed_def) (simp add: pool_init_def)
next
  fix s s' assume "batch A s \<and> files_claimed s" and b: "pool_block s s'"
  moreover from b have "files_claimed s \<Longrightarrow> files_claimed s'"
    by (induction rule: pool_block.induct) (erule files_claimed_same; simp add: markBlocked_def driveLane_def)
  ultimately show "batch A s' \<and> files_claimed s'" using batch.block by blast
next
  fix s s' assume wf: "wf_pool s" "wf_pool s'" and b: "batch A s \<and> files_claimed s"
    and m: "pool_move cap (same_items A) s s'"
  from m wf(1) b have "files_claimed s'"
  proof (induction rule: pool_move.induct)
    case (park g s)
    have "pl_inFlight (park_group g s) = pl_inFlight s" "pl_expectedFiles (park_group g s) = pl_expectedFiles s"
      "pl_claimedFiles (park_group g s) = pl_claimedFiles s"
      using park_group_lanes [of g s] by (auto simp: park_lanes_def)
    then show ?case by (intro files_claimed_same [OF conjunct2 [OF park.prems(2)]]) simp_all
  next
    case (resolve inp s)
    then show ?case using batch_resolve_files [of A s inp]
      by (intro files_claimed_same [OF conjunct2 [OF resolve.prems(2)]]) (simp_all add: resolve_simps)
  next
    case (flush x s)
    then show ?case by (intro files_claimed_same [OF conjunct2 [OF flush.prems(2)]]) (simp_all add: fail_lane_def flush_fail)
  next
    case (give_up s p)
    then show ?case by (intro files_claimed_same [OF conjunct2 [OF give_up.prems(2)]]) (simp_all, simp_all add: end_park_def)
  qed (simp_all add: files_claimed_launch files_claimed_settle,
       (elim conjE, erule files_claimed_same; simp add: lane_form_defs)+)
  then show "batch A s' \<and> files_claimed s'" using batch.move wf m b by blast
qed

section \<open>Runs from the start\<close>

abbreviation pool_start where
  "pool_start items deps files known pauses giveUps \<equiv> AtTop (pool_init items deps files known pauses giveUps)"

lemma batch_run:
  assumes "0 < cap" and "pool_reach cap stepId inner (same_items (set items)) (pool_start items deps files known pauses giveUps) c"
  shows "config_ok c" "batch (set items) (pool_of c)"
proof -
  have "pl_inScope (pool_init items deps files known pauses giveUps) = set items" by (simp add: pool_init_def)
  then show "config_ok c" "batch (set items) (pool_of c)" using batch.reachable [OF assms(2,1)] by blast+
qed

lemma no_infinite_run:
  assumes "0 < cap"
  shows "\<nexists>run. run 0 = pool_start items deps files known pauses giveUps \<and>
     (\<forall>i. pool_step cap stepId inner (same_items (set items)) (run i) (run (Suc i)))"
proof
  assume "\<exists>run. run 0 = pool_start items deps files known pauses giveUps \<and>
     (\<forall>i. pool_step cap stepId inner (same_items (set items)) (run i) (run (Suc i)))"
  then obtain run where run: "run 0 = pool_start items deps files known pauses giveUps"
    "\<And>i. pool_step cap stepId inner (same_items (set items)) (run i) (run (Suc i))" by blast
  have r: "pool_reach cap stepId inner (same_items (set items)) (pool_start items deps files known pauses giveUps) (run i)" for i
    by (induction i) (auto simp: run(1) intro: rtranclp.rtrancl_into_rtrancl run(2))
  have "\<forall>i. (progress (set items) stepId (run (Suc i)), progress (set items) stepId (run i)) \<in> lower"
    using step_lowers [OF run(2) batch_run [OF assms r] _ assms] by simp
  then have "\<exists>f. \<forall>i. (f (Suc i), f i) \<in> lower"
    by (intro exI [of _ "\<lambda>i. progress (set items) stepId (run i)"])
  moreover have "wf lower" by (intro wf_lex_prod wf_less_than)
  ultimately show False unfolding wf_iff_no_infinite_down_chain by contradiction
qed

lemma can_return:
  assumes "0 < cap" and "pool_reach cap stepId inner (same_items (set items)) (pool_start items deps files known pauses giveUps) c"
  shows "\<exists>t s. pool_reach cap stepId inner (same_items (set items)) c (Returned t s)"
proof -
  have "wf (inv_image lower (progress (set items) stepId))" by (intro wf_inv_image wf_lex_prod wf_less_than)
  then show ?thesis using assms(2)
  proof (induction c rule: wf_induct_rule)
    case (less c)
    note ok = batch_run [OF assms(1) less.prems]
    show ?case
    proof (cases "\<exists>t s. c = Returned t s")
      case False
      have "undefined\<lparr>in_fresh := None\<rparr> \<in> same_items (set items)" by (simp add: same_items_def)
      then obtain d where d: "pool_step cap stepId inner (same_items (set items)) c d"
        using config_moves_on [OF ok(1)] False by blast
      have "(progress (set items) stepId d, progress (set items) stepId c) \<in> lower"
        using step_lowers [OF d ok _ assms(1)] by simp
      then have "(d, c) \<in> inv_image lower (progress (set items) stepId)" by (simp only: in_inv_image)
      from less.IH [OF this rtranclp.rtrancl_into_rtrancl [OF less.prems d]] show ?thesis
        using d by (blast intro: converse_rtranclp_into_rtranclp)
    qed blast
  qed
qed

lemma cap_pos: "0 < nat (effectiveMaxConcurrency fo)"
  by (simp add: effectiveMaxConcurrency_def SPRINT_BATCH_CAP_def max_def split: option.splits)

end
