(* ===== verification/LaneLife.thy ===== *)
theory LaneLife
  imports LanePoolRuns
begin

text \<open>
  The abstract view of one lane of the fan-out: the states it goes through and the edges between them,
  and that the pool of LanePool moves every lane along these edges only.
\<close>

section \<open>The life of one lane\<close>

datatype lane_state = Absent | Waiting | Running | Holding | Parked | Integrated | Failed | Blocked

inductive lane_edge :: "lane_state \<Rightarrow> lane_state \<Rightarrow> bool" where
  appears: "lane_edge Absent Waiting"
| withdrawn: "lane_edge Waiting Absent"
| dispatched: "lane_edge Waiting Running"
| blocked: "lane_edge Waiting Blocked"
| integrated: "lane_edge Running Integrated"
| failed: "lane_edge Running Failed"
| aborted: "lane_edge Running Waiting"
| held: "lane_edge Running Holding"
| parked: "lane_edge Running Parked"
| corroborated: "lane_edge Holding Parked"
| expired: "lane_edge Holding Failed"
| retried: "lane_edge Parked Waiting"
| given_up: "lane_edge Parked Failed"

inductive_cases lane_edge_cases [elim!]:
  "lane_edge Integrated b" "lane_edge Failed b" "lane_edge Blocked b"

definition lane_state :: "pool \<Rightarrow> string \<Rightarrow> lane_state" where
  "lane_state s x =
     (if x \<in> pl_integrated s then Integrated else if x \<in> pl_failed s then Failed
      else if x \<in> pl_blocked s then Blocked else if x \<in> set (pl_inFlight s) then Running
      else if x \<in> held_keys s then Holding else if x \<in> park_items s then Parked
      else if x \<in> set (pl_remaining s) then Waiting else Absent)"

abbreviation lives :: "lane_state \<Rightarrow> lane_state \<Rightarrow> bool" where
  "lives \<equiv> lane_edge\<^sup>*\<^sup>*"

lemma settled_lives: "lives a b \<Longrightarrow> a \<in> {Integrated, Failed, Blocked} \<Longrightarrow> b = a"
  by (induction rule: rtranclp_induct) auto

lemma lives_edge: "lane_edge a b \<Longrightarrow> lives a b"
  by blast

lemmas lane_lives [intro] = lane_edge.intros [THEN lives_edge]

lemma lives_unpark [intro]: "lives Parked Absent"
  by (rule rtranclp_trans [OF lane_lives(12) lane_lives(2)])

lemma finished_in_flight: "wf_pool s \<Longrightarrow> pl_finished s x = Some oc \<Longrightarrow> x \<in> set (pl_inFlight s)"
  using wf_poolD(3) [of s] by (auto simp: links_ok_def)

lemma lane_state_same:
  assumes "pl_integrated s' = pl_integrated s" "pl_failed s' = pl_failed s" "pl_blocked s' = pl_blocked s"
    "pl_inFlight s' = pl_inFlight s" "held_keys s' = held_keys s" "park_items s' = park_items s"
    "pl_remaining s' = pl_remaining s"
  shows "lane_state s' x = lane_state s x"
  using assms by (simp add: lane_state_def)

lemma lane_place:
  assumes "wf_pool s"
  shows "x \<in> set (pl_inFlight s) \<Longrightarrow> lane_state s x = Running" "x \<in> held_keys s \<Longrightarrow> lane_state s x = Holding"
    "x \<in> park_items s \<Longrightarrow> lane_state s x = Parked" "loose x s \<Longrightarrow> lane_state s x = Waiting"
  using wf_poolD(1,2) [OF assms]
  by (auto simp: lane_state_def lists_ok_def places_ok_def places_def loose_def)

lemma resolve_lives:
  assumes wf: "wf_pool s" shows "lives (lane_state s x) (lane_state (re_resolve inp s) x)"
proof (cases "lane_state s x \<in> {Waiting, Absent}")
  case True
  then have "lane_state (re_resolve inp s) x \<in> {Waiting, Absent}"
    by (auto simp: lane_state_def resolve_simps split: if_splits)
  then show ?thesis using True by auto
next
  case False
  then have "lane_state (re_resolve inp s) x = lane_state s x"
    by (auto simp: lane_state_def resolve_simps split: if_splits)
  then show ?thesis by simp
qed

lemma fail_parked_sets:
  "pl_failed (fail_parked xs s) = pl_failed s \<union> (set xs \<inter> set (pl_remaining s))"
  "set (pl_remaining (fail_parked xs s)) = set (pl_remaining s) - set xs"
  "pl_integrated (fail_parked xs s) = pl_integrated s" "pl_blocked (fail_parked xs s) = pl_blocked s"
proof (induction xs arbitrary: s)
  case (Cons x xs)
  have e: "fail_parked (x # xs) s = fail_parked xs (if x \<in> set (pl_remaining s) then markFailed x s else s)" for s
    by (simp add: fail_parked_def)
  { case 1 show ?case unfolding e Cons(1) by (auto simp: markFailed_frame) }
  { case 2 show ?case unfolding e Cons(2) by (auto simp: markFailed_frame) }
  { case 3 show ?case unfolding e Cons(3) by (simp add: markFailed_def driveLane_def) }
  { case 4 show ?case unfolding e Cons(4) by (simp add: markFailed_def driveLane_def) }
qed (simp_all add: fail_parked_def)

lemma unpark_lives:
  assumes "wf_pool s" shows "lives (lane_state s x) (lane_state (end_park s) x)"
proof (cases "x \<in> park_items s")
  case True
  then have "lane_state (end_park s) x \<in> {Waiting, Absent}" using wf_poolD(1,2) [OF assms]
    by (auto simp: lane_state_def lists_ok_def places_ok_def places_def) (auto simp: end_park_def)
  then show ?thesis using lane_place(3) [OF assms True] by auto
next
  case False
  then have "lane_state (end_park s) x = lane_state s x" by (simp add: lane_state_def) (simp add: end_park_def)
  then show ?thesis by simp
qed

lemma give_up_lives:
  assumes wf: "wf_pool s" and p: "pl_parkPending s = Some p" and idle: "pl_deferred s = []"
  shows "lives (lane_state s x) (lane_state (end_park (fail_parked (pp_items p) s)) x)"
proof (cases "x \<in> park_items s \<and> x \<in> set (pl_remaining s)")
  case True
  then have "lane_state (end_park (fail_parked (pp_items p) s)) x = Failed"
    using wf_poolD(1,2) [OF wf] p
    by (auto simp: lane_state_def lists_ok_def places_ok_def places_def park_items_def end_park_def fail_parked_sets)
  then show ?thesis using lane_place(3) [OF wf] True by auto
next
  case False
  then have "lane_state (end_park (fail_parked (pp_items p) s)) x = lane_state (end_park s) x"
    using p idle by (auto simp: lane_state_def park_items_def end_park_def fail_parked_sets held_keys_def)
  then show ?thesis using unpark_lives [OF wf] by simp
qed

lemma park_lives:
  assumes wf: "wf_pool s" and g: "\<forall>x \<in> set (fst (snd g)). x \<in> held_keys s \<or> parked s x"
  shows "lives (lane_state s x) (lane_state (park_group g s) x)"
proof (cases "park_group g s = s")
  case False
  then obtain p where e: "park_group g s = park_lanes (set (fst (snd g))) p [] s"
      "set (pp_items p) = set (fst (snd g)) \<union> park_items s" using park_group_lanes [of g s] by blast
  have v: "held_keys (park_group g s) = held_keys s - set (fst (snd g))"
    "park_items (park_group g s) = set (fst (snd g)) \<union> park_items s"
    using e(2) by (auto simp: e(1) park_lanes_def held_keys_def park_items_def)
  show ?thesis
  proof (cases "x \<in> set (fst (snd g))")
    case True
    then have "lane_state (park_group g s) x = Parked"
      using v lane_place(3) wf_park_group [OF wf g] by blast
    moreover have "lane_state s x \<in> {Holding, Parked}" using True g lane_place(2,3) [OF wf] by auto
    ultimately show ?thesis by auto
  next
    case other: False
    then have "lane_state (park_group g s) x = lane_state s x"
      using v by (simp add: lane_state_def) (simp add: e(1) park_lanes_def)
    then show ?thesis by simp
  qed
qed simp

lemma move_lives:
  assumes "pool_move cap ins s s'" and "wf_pool s"
  shows "lives (lane_state s x) (lane_state s' x)"
  using assms
proof (induction rule: pool_move.induct)
  case (resolve inp s)
  then show ?case by (simp add: resolve_lives)
next
  case (launch y s)
  then have "loose y s" by (auto simp: loose_def dispatchable_def held_keys_def)
  then have "lane_state s y = Waiting" using launch lane_place by blast
  moreover have "lane_state (launch y s) y = Running" using wf_launch [of s y] launch lane_place(1) [of "launch y s" y]
    by (simp add: launch_simps)
  moreover have "lane_state (launch y s) x = lane_state s x" if "x \<noteq> y"
    using that by (simp add: lane_state_def launch_simps)
  ultimately show ?case by (cases "x = y") auto
next
  case (settle s y oc now)
  have y: "lane_state s y = Running" using lane_place(1) finished_in_flight settle by blast
  have other: "lane_state (leave_flight y s) z = lane_state s z" if "z \<noteq> y" for z
    using that by (simp add: lane_state_def) (simp add: leave_flight_def)
  let ?s = "settle_outcome y oc now (leave_flight y s)"
  have "lane_state ?s x = lane_state (leave_flight y s) x" if "x \<noteq> y"
    using settle.prems settle.hyps
    by (cases rule: settle_forms [where now = now])
      (use that in \<open>auto simp: lane_state_def park_lanes_def fail_lane_def hold_lane_def held_keys_def park_items_def
        leave_flight_def\<close>)
  moreover have "lane_state ?s y \<in> {Waiting, Parked, Holding, Failed, Integrated}"
    using settle.prems settle.hyps
    by (cases rule: settle_forms [where now = now])
      (use leave_loose [OF settle.prems settle.hyps] wf_poolD(1) [OF wf_leave [OF settle.prems]] in \<open>auto simp: lane_state_def park_lanes_def fail_lane_def hold_lane_def held_keys_def park_items_def loose_def
        lists_ok_def\<close>)
  ultimately show ?case using y other by (cases "x = y") auto
next
  case (park g s)
  then show ?case by (simp add: park_lives)
next
  case (flush y s)
  then have "lane_state s y = Holding" using lane_place(2) by blast
  moreover have "y \<notin> pl_integrated s" using flush wf_poolD(2) [of s] by (auto simp: places_ok_def places_def)
  then have "lane_state (flushDeferred y True s) y = Failed"
    using flush by (auto simp: flush_fail lane_state_def fail_lane_def)
  moreover have "lane_state (flushDeferred y True s) x = lane_state s x" if "x \<noteq> y"
    using that flush by (simp add: flush_fail lane_state_def fail_lane_def held_keys_def park_items_def)
  ultimately show ?case by (cases "x = y") auto
next
  case (retry s)
  then show ?case by (simp add: unpark_lives)
next
  case (give_up s p)
  then show ?case by (simp add: give_up_lives)
qed (auto simp: lane_state_def lane_finishes_def lane_releases_def lane_latches_def age_seen_def held_keys_def park_items_def)

lemma moves_live: "moves cap ins s s' \<Longrightarrow> wf_pool s \<Longrightarrow> lives (lane_state s x) (lane_state s' x)"
proof (induction rule: rtranclp_induct)
  case (step t u)
  then show ?case using move_lives wf_moves rtranclp_trans by metis
qed simp

lemma block_lives:
  assumes "pool_block s s'" and "apart s" and "pl_inFlight s = []" and "pl_deferred s = []"
  shows "lives (lane_state s y) (lane_state s' y)"
  using assms
proof (induction rule: pool_block.induct)
  case (1 x s p)
  have "lane_state s x \<in> {Waiting, Parked}" "lane_state (markBlocked x s) x = Blocked"
    using 1 by (auto simp: lane_state_def markBlocked_def driveLane_def apart_def held_keys_def)
  moreover have "lane_state (markBlocked x s) y = lane_state s y" if "y \<noteq> x"
    using that by (auto simp: lane_state_def markBlocked_def driveLane_def held_keys_def park_items_def)
  moreover have "lives Parked Blocked" by (rule rtranclp_trans [OF lane_lives(12) lane_lives(4)])
  ultimately show ?case by (cases "y = x") auto
qed

lemma block_apart: "pool_block s s' \<Longrightarrow> apart s \<Longrightarrow> apart s'"
  by (induction rule: pool_block.induct) (auto simp: apart_def markBlocked_def driveLane_def)

lemma blocks_live:
  assumes "blocks s s'" and "apart s" and "pl_inFlight s = []" and "pl_deferred s = []"
  shows "lives (lane_state s x) (lane_state s' x) \<and> apart s' \<and> pl_inFlight s' = [] \<and> pl_deferred s' = []"
  using assms
proof (induction rule: rtranclp_induct)
  case (step t u)
  then show ?case using block_lives [of t u x] block_apart [of t u] block_frame [of t u] rtranclp_trans by metis
qed simp

text \<open>Every step of the pool moves each lane along the edges of its life.\<close>

lemma step_lives:
  assumes "pool_step cap stepId inner ins c c'" and "config_ok c" and "0 < cap"
  shows "lives (lane_state (pool_of c) x) (lane_state (pool_of c') x)"
proof -
  obtain s1 where s1: "moves cap ins (pool_of c) s1" "blocks s1 (pool_of c')"
      "pool_of c' \<noteq> s1 \<longrightarrow> (\<exists>s'. c' = Returned False s')" and ok: "config_ok c'"
    using step_moves [OF assms] by blast
  have wf: "wf_pool (pool_of c)" using assms(1,2) by (cases rule: pool_step.cases) auto
  have m: "lives (lane_state (pool_of c) x) (lane_state s1 x)" using moves_live [OF s1(1) wf] .
  show ?thesis
  proof (cases "pool_of c' = s1")
    case False
    then have "pl_inFlight (pool_of c') = []" "pl_deferred (pool_of c') = []" using s1(3) ok by auto
    then have "pl_inFlight s1 = []" "pl_deferred s1 = []" using blocks_frame [OF s1(2)] by auto
    then show ?thesis using blocks_live [OF s1(2) wf_apart [OF wf_moves [OF s1(1) wf]]] m rtranclp_trans by metis
  qed (use m in simp)
qed

lemma run_lives:
  assumes "0 < cap" and "pool_reach cap stepId inner ins (pool_start items deps files known pauses giveUps) c"
    and "pool_reach cap stepId inner ins c c'"
  shows "lives (lane_state (pool_of c) x) (lane_state (pool_of c') x)"
  using assms(3)
proof (induction rule: rtranclp_induct)
  case (step d e)
  have "config_ok d" using deps.reachable [OF rtranclp_trans [OF assms(2) step.hyps(1)] assms(1)] by blast
  from step_lives [OF step.hyps(2) this assms(1)] step.IH show ?case by (rule rtranclp_trans [rotated])
qed simp

end
