(* ===== verification/LanePoolClaims.thy ===== *)
theory LanePoolClaims
  imports LaneLife
begin

text \<open>
  The properties of the dispatch pool, over every run from its start, and the runs as event lists that
  the witnesses evaluate.
\<close>

section \<open>Runs as event lists\<close>

datatype pool_event =
    EvTop pool_in
  | EvFinish string LaneWalkOutcome
  | EvRelease string
  | EvLatch string
  | EvSettle string int

fun pool_exec :: "nat \<Rightarrow> string \<Rightarrow> FanOutInnerStep list \<Rightarrow> pool_event \<Rightarrow> config \<Rightarrow> config option" where
  "pool_exec cap stepId inner (EvTop inp) (AtTop s) = Some (case pool_top cap stepId inner inp s of
       PoolRace s' \<Rightarrow> Racing s' | PoolAgain s' \<Rightarrow> AtTop s' | PoolReturn t s' \<Rightarrow> Returned t s')"
| "pool_exec cap stepId inner (EvFinish x oc) (Racing s) =
     (if x \<in> set (pl_inFlight s) \<and> pl_finished s x = None then Some (Racing (lane_finishes x oc s)) else None)"
| "pool_exec cap stepId inner (EvRelease x) (Racing s) =
     (if x \<in> set (pl_inFlight s) \<and> pl_finished s x = None \<and> x \<notin> pl_released s
      then Some (Racing (lane_releases x s)) else None)"
| "pool_exec cap stepId inner (EvLatch e) (Racing s) =
     (if pl_triageLatch s = None then Some (Racing (lane_latches e s)) else None)"
| "pool_exec cap stepId inner (EvSettle x now) (Racing s) =
     (case pl_finished s x of Some oc \<Rightarrow> Some (AtTop (pool_settle x oc now s)) | None \<Rightarrow> None)"
| "pool_exec cap stepId inner _ _ = None"

fun pool_execs :: "nat \<Rightarrow> string \<Rightarrow> FanOutInnerStep list \<Rightarrow> pool_event list \<Rightarrow> config \<Rightarrow> config option" where
  "pool_execs cap stepId inner [] c = Some c"
| "pool_execs cap stepId inner (e # es) c =
     (case pool_exec cap stepId inner e c of Some c' \<Rightarrow> pool_execs cap stepId inner es c' | None \<Rightarrow> None)"

fun event_in :: "pool_in set \<Rightarrow> pool_event \<Rightarrow> bool" where
  "event_in ins (EvTop inp) = (inp \<in> ins)"
| "event_in ins _ = True"

lemma exec_step: "pool_exec cap stepId inner e c = Some c' \<Longrightarrow> event_in ins e \<Longrightarrow> pool_step cap stepId inner ins c c'"
  by (induction cap stepId inner e c rule: pool_exec.induct)
    (auto intro: pool_step.intros split: pool_next.splits if_splits option.splits)

lemma execs_reach:
  "pool_execs cap stepId inner es c = Some c' \<Longrightarrow> list_all (event_in ins) es \<Longrightarrow> pool_reach cap stepId inner ins c c'"
proof (induction es arbitrary: c)
  case (Cons e es)
  then show ?case by (auto split: option.splits intro: converse_rtranclp_into_rtranclp exec_step)
qed simp

text \<open>A batch of three items in which the second waits for the first, run to its end with two lanes; its
  inputs never re-read the item set.\<close>

definition quiet_in :: pool_in where
  "quiet_in = \<lparr>in_aborted = False, in_fresh = None, in_deps = None, in_files = None, in_pause = None,
     in_abortedAfter = False\<rparr>"

definition demo_start :: config where
  "demo_start = AtTop (pool_init [''a'', ''b'', ''c''] (Some [''b'' \<mapsto> [''a'']]) (Some [''a'' \<mapsto> [''f''], ''c'' \<mapsto> [''g'']])
     {} Map.empty {})"

definition demo_events :: "LaneWalkOutcome \<Rightarrow> pool_event list" where
  "demo_events oc = [EvTop quiet_in, EvFinish ''a'' oc, EvSettle ''a'' 0, EvTop quiet_in]"

definition demo_end :: "pool_event list" where
  "demo_end = demo_events (LaneFailed None True) @ [EvFinish ''c'' LaneDone, EvSettle ''c'' 1, EvTop quiet_in]"

lemma demo_top: "event_in (same_items A) (EvTop quiet_in)"
  by (simp add: same_items_def quiet_in_def)

lemma demo_inputs: "list_all (event_in (same_items A)) (demo_events oc)" "list_all (event_in (same_items A)) demo_end"
  by (simp_all add: demo_events_def demo_end_def demo_top del: event_in.simps(1))

definition holds_after :: "pool_event list \<Rightarrow> (config \<Rightarrow> bool) \<Rightarrow> bool" where
  "holds_after es P = (case pool_execs 2 ''exec'' [] es demo_start of Some c \<Rightarrow> P c | None \<Rightarrow> False)"

lemma holds_afterD:
  "holds_after es P \<Longrightarrow> list_all (event_in ins) es \<Longrightarrow> \<exists>c. pool_reach 2 ''exec'' [] ins demo_start c \<and> P c"
  by (auto simp: holds_after_def intro: execs_reach split: option.splits)

lemma two_pos: "0 < (2 :: nat)"
  by simp

lemmas demo_reach = holds_afterD [where ins = "same_items (set [''a'', ''b'', ''c''])", OF _ demo_inputs(1)]
  holds_afterD [where ins = "same_items (set [''a'', ''b'', ''c''])", OF _ demo_inputs(2)]

section \<open>Properties\<close>

text \<open>C9: A lane is dispatched only after each of its in-scope prerequisites was integrated, or failed
  after its code was released; and this stays so, whatever the lanes and the host answer.\<close>

theorem pool_respects_dependencies:
  assumes "0 < cap" and "pool_reach cap stepId inner ins (pool_start items deps files known pauses giveUps) c"
    and "x \<in> launched (pool_of c)" and "p \<in> set (prereqs_of (pool_of c) x)"
  shows "p \<in> pl_integrated (pool_of c) \<or> p \<in> pl_failed (pool_of c) \<and> p \<in> pl_released (pool_of c)"
  using deps.reachable [OF assms(2,1)] assms(3,4) by (auto simp: deps_met_def met_prereq_def)

theorem pool_respects_dependencies_witness:
  "\<exists>c. pool_reach 2 ''exec'' [] (same_items (set [''a'', ''b'', ''c''])) demo_start c \<and> ''b'' \<in> launched (pool_of c) \<and>
     (''a'' \<in> pl_integrated (pool_of c) \<or> ''a'' \<in> pl_failed (pool_of c) \<and> ''a'' \<in> pl_released (pool_of c))"
proof -
  have "holds_after (demo_events LaneDone)
      (\<lambda>c. (''b'', SbRunning) \<in> set (pl_writes (pool_of c)) \<and> ''a'' \<in> set (prereqs_of (pool_of c) ''b''))"
    by code_simp
  from demo_reach(1) [OF this] obtain c where
    c: "pool_reach 2 ''exec'' [] (same_items (set [''a'', ''b'', ''c''])) demo_start c" "''b'' \<in> launched (pool_of c)"
      "''a'' \<in> set (prereqs_of (pool_of c) ''b'')" by (auto simp: launched_def)
  show ?thesis using c pool_respects_dependencies [OF _ c(1) [unfolded demo_start_def] c(2,3)] by auto
qed

text \<open>A lane that the drain blocks was never dispatched, and one of its in-scope prerequisites is neither
  integrated nor failed with its code released.\<close>

theorem pool_blocks_undispatched:
  assumes "0 < cap" and "pool_reach cap stepId inner ins (pool_start items deps files known pauses giveUps) c"
    and "x \<in> pl_blocked (pool_of c)"
  shows "x \<notin> launched (pool_of c) \<and>
     (\<exists>p \<in> set (prereqs_of (pool_of c) x). p \<notin> pl_integrated (pool_of c) \<and>
        (p \<notin> pl_failed (pool_of c) \<or> p \<notin> pl_released (pool_of c)))"
proof -
  obtain p where p: "p \<in> set (prereqs_of (pool_of c) x)" "\<not> met_prereq (pool_of c) p"
    using why.reachable [OF assms(2,1)] assms(3) by (auto simp: blocked_why_def)
  moreover have "x \<notin> launched (pool_of c)" using deps.reachable [OF assms(2,1)] p by (auto simp: deps_met_def)
  ultimately show ?thesis by (auto simp: met_prereq_def)
qed

theorem pool_blocks_undispatched_witness:
  "\<exists>c. pool_reach 2 ''exec'' [] (same_items (set [''a'', ''b'', ''c''])) demo_start c \<and> ''b'' \<in> pl_blocked (pool_of c) \<and>
     ''b'' \<notin> launched (pool_of c)"
proof -
  have "holds_after demo_end (\<lambda>c. ''b'' \<in> pl_blocked (pool_of c))" by code_simp
  from demo_reach(2) [OF this] obtain c where
    c: "pool_reach 2 ''exec'' [] (same_items (set [''a'', ''b'', ''c''])) demo_start c" "''b'' \<in> pl_blocked (pool_of c)"
    by blast
  show ?thesis using c pool_blocks_undispatched [OF _ c(1) [unfolded demo_start_def] c(2)] by auto
qed



text \<open>At most \<open>cap\<close> lanes are in flight; the lanes that still walk are exactly those that hold a slot, no two
  of them the same, every slot below \<open>cap\<close>; and when two or more walk, all of them are marked as
  overlapped.\<close>

theorem pool_concurrency:
  assumes "0 < cap" and "pool_reach cap stepId inner ins (pool_start items deps files known pauses giveUps) c"
    and "s = pool_of c"
  shows "length (pl_inFlight s) \<le> cap \<and> distinct (pl_inFlight s) \<and>
     distinct (map snd (pl_laneSlots s)) \<and> (\<forall>(x, n) \<in> set (pl_laneSlots s). n < cap) \<and>
     fst ` set (pl_laneSlots s) = set (pl_inFlight s) - dom (pl_finished s) \<and>
     (2 \<le> card (set (pl_inFlight s) - dom (pl_finished s)) \<longrightarrow> set (pl_inFlight s) - dom (pl_finished s) \<subseteq> pl_overlapped s)"
proof -
  have c: "distinct (pl_inFlight s)" "lanes_ok cap s" "slots_ok cap s"
    using crew.reachable [OF assms(2,1)] assms(3) by (simp_all add: crew_def)
  have live: "set (pl_activeLanes s) = set (pl_inFlight s) - dom (pl_finished s)" using c(2) by (simp add: lanes_ok_def)
  have "card (set (pl_activeLanes s)) = length (pl_activeLanes s)" using c(2) by (intro distinct_card) (simp add: lanes_ok_def)
  then show ?thesis using c unfolding live [symmetric] lanes_ok_def slots_ok_def by auto
qed

theorem pool_concurrency_witness:
  "\<exists>s :: pool. pl_laneSlots s = [(''a'', 0), (''c'', 1)] \<and> length (pl_inFlight s) \<le> 2 \<and> set (pl_inFlight s) - dom (pl_finished s) = {''a'', ''c''}"
proof -
  have "holds_after (take 1 demo_end) (\<lambda>c. pl_laneSlots (pool_of c) = [(''a'', 0), (''c'', 1)])" by code_simp
  moreover have "list_all (event_in UNIV) (take 1 demo_end)" by (simp add: demo_end_def demo_events_def)
  ultimately obtain c where
    c: "pool_reach 2 ''exec'' [] UNIV demo_start c" "pl_laneSlots (pool_of c) = [(''a'', 0), (''c'', 1)]"
    by (blast dest: holds_afterD)
  note l = pool_concurrency [OF two_pos c(1) [unfolded demo_start_def] refl]
  then have "set (pl_inFlight (pool_of c)) - dom (pl_finished (pool_of c)) = fst ` set [(''a'', 0 :: nat), (''c'', 1)]"
    unfolding c(2) by (elim conjE) (rule sym)
  also have "\<dots> = {''a'', ''c''}" by simp
  finally show ?thesis by (intro exI [of _ "pool_of c"] conjI c(2) conjunct1 [OF l])
qed

text \<open>In a batch whose item set stays the same, two lanes in flight at the same time have no expected file
  in common.\<close>

theorem pool_files_exclusive:
  assumes "0 < cap"
    and "pool_reach cap stepId inner (same_items (set items)) (pool_start items deps files known pauses giveUps) c"
    and "x \<in> set (pl_inFlight (pool_of c))" and "y \<in> set (pl_inFlight (pool_of c))" and "x \<noteq> y"
  shows "set (files_of (pool_of c) x) \<inter> set (files_of (pool_of c) y) = {}"
proof -
  have "pl_inScope (pool_init items deps files known pauses giveUps) = set items" by (simp add: pool_init_def)
  then have "files_claimed (pool_of c)" using files.reachable [OF assms(2,1)] by blast
  then have "pl_claimedFiles (pool_of c) f = Some z" if "z \<in> set (pl_inFlight (pool_of c))" "f \<in> set (files_of (pool_of c) z)" for z f
    using that by (simp add: files_claimed_def)
  from this [OF assms(3)] this [OF assms(4)] assms(5) show ?thesis by force
qed

theorem pool_files_exclusive_witness:
  "\<exists>c. {''a'', ''c''} \<subseteq> set (pl_inFlight (pool_of c)) \<and> files_of (pool_of c) ''a'' = [''f''] \<and> files_of (pool_of c) ''c'' = [''g''] \<and>
     set (files_of (pool_of c) ''a'') \<inter> set (files_of (pool_of c) ''c'') = {}"
proof -
  have "holds_after [EvTop quiet_in] (\<lambda>c. ''a'' \<in> set (pl_inFlight (pool_of c)) \<and> ''c'' \<in> set (pl_inFlight (pool_of c)) \<and>
      files_of (pool_of c) ''a'' = [''f''] \<and> files_of (pool_of c) ''c'' = [''g''])" by code_simp
  moreover have "list_all (event_in (same_items A)) [EvTop quiet_in]" for A using demo_top by simp
  ultimately obtain c where
    c: "pool_reach 2 ''exec'' [] (same_items (set [''a'', ''b'', ''c''])) demo_start c" "''a'' \<in> set (pl_inFlight (pool_of c))"
      "''c'' \<in> set (pl_inFlight (pool_of c))" "files_of (pool_of c) ''a'' = [''f'']" "files_of (pool_of c) ''c'' = [''g'']"
    by (blast dest: holds_afterD)
  show ?thesis using c(2-5) pool_files_exclusive [OF _ c(1) [unfolded demo_start_def] c(2,3)] by auto
qed








end
