(* ===== verification/LaneTriage.thy ===== *)
theory LaneTriage
  imports LanePool
begin

text \<open>
  The state the lanes of one fan-out share (workflowController.ts, \<open>runFanOut\<close>): the rescue budgets, the
  park-epoch latch, the released prerequisites, the operator's lane rewinds and skips, the verification
  posture and the findings filed. On it: \<open>takeLaneRewind\<close>, the consults \<open>consultLaneTriage\<close> and
  \<open>consultEarly\<close>, and the posture helpers. A consult is split at its \<open>await\<close> into the part that reserves
  budget and sends the request and the part that takes the answer; \<open>None\<close> as an answer is a throw.
\<close>

section \<open>Triage values\<close>

datatype LaneTriageStage = StageEarly | StageExhausted

datatype LaneRescueOutcome =
    RescueGiveUp "bool option"
  | RescueSystemic string
  | RescueFrom string string bool "bool option"
  | RescueAccept string

datatype LaneTriageVerdict =
    VerdictRescue nat
  | VerdictAccept string
  | VerdictSystemic string
  | VerdictGiveUp
  | VerdictUnconsulted

record LaneTriageFailure =
  tf_itemId :: string
  tf_stepId :: string
  tf_attempt :: nat
  tf_failureKind :: LaneFailureKind
  tf_errorExcerpt :: string
  tf_innerStepIds :: "string list"
  tf_priorRescues :: "LanePriorRescue list option"
  tf_stage :: "LaneTriageStage option"
  tf_dependents :: "string list option"
  tf_acceptUnavailable :: "bool option"

datatype VerificationPosture = PostureDisabled | PostureAvailable | PostureUnavailable string

datatype finding = NoModality string | SkippedVerification string string

text \<open>The lane writes of a walk: status, step pointer and attempt of \<open>driveLane\<close>, or \<open>reviveLane\<close>.\<close>

datatype lane_write =
    Drive string "SprintBatchTaskStatus option" "string option" "nat option"
  | Revive string

record fan =
  fs_rescues :: LaneRescueState
  fs_latch :: "string option"
  fs_released :: "string set"
  fs_early :: "string set"
  fs_rewinds :: "string \<rightharpoonup> string"
  fs_userSkipped :: "string set"
  fs_prereqs :: "(string \<times> string list) list"
  fs_remaining :: "string set"
  fs_overlapped :: "string set"
  fs_slots :: "string \<rightharpoonup> nat"
  fs_aborted :: bool
  fs_visualActive :: bool
  fs_liveRequests :: "string set"
  fs_posture :: "VerificationPosture option"
  fs_reportedSkips :: "string set"
  fs_reportedNoModality :: bool
  fs_findings :: "finding list"
  fs_writes :: "lane_write list"

section \<open>Operator rewinds\<close>

definition inner_index :: "FanOutInnerStep list \<Rightarrow> string \<Rightarrow> nat option" where
  "inner_index inner target = find_index (\<lambda>c. fi_id c = target) inner"

definition takeLaneRewind :: "FanOutInnerStep list \<Rightarrow> string \<Rightarrow> nat \<Rightarrow> fan \<Rightarrow> nat option \<times> fan" where
  "takeLaneRewind inner x current fs =
     (case fs_rewinds fs x of
        None \<Rightarrow> (None, fs)
      | Some targetId \<Rightarrow>
          (case inner_index inner targetId of
             None \<Rightarrow> None
           | Some target \<Rightarrow> if target > current then None else Some target,
           fs\<lparr>fs_rewinds := (fs_rewinds fs)(x := None)\<rparr>))"

section \<open>Consults\<close>

definition pendingDependentsOf :: "fan \<Rightarrow> string \<Rightarrow> string list" where
  "pendingDependentsOf fs x =
     map fst (filter (\<lambda>(dependent, ps). List.member ps x \<and> dependent \<in> fs_remaining fs) (fs_prereqs fs))"

text \<open>What an exhausted consult remembers over its \<open>await\<close>.\<close>

record consult =
  cs_stepId :: string
  cs_kind :: LaneFailureKind
  cs_excerpt :: string
  cs_stage :: LaneTriageStage
  cs_used :: nat
  cs_prior :: "LanePriorRescue list"
  cs_dependents :: "string list"

definition run_cap :: "fan \<Rightarrow> int" where
  "run_cap fs = monitorRunRescueCap (int (card (ls_knownItems (fs_rescues fs))))"

definition set_budget :: "string \<Rightarrow> nat \<Rightarrow> nat \<Rightarrow> fan \<Rightarrow> fan" where
  "set_budget x used spent fs =
     fs\<lparr>fs_rescues := (fs_rescues fs)\<lparr>ls_perItem := (ls_perItem (fs_rescues fs))(x \<mapsto> used), ls_runTotal := spent\<rparr>\<rparr>"

definition some_if :: "bool \<Rightarrow> 'a \<Rightarrow> 'a option" where
  "some_if b v = (if b then Some v else None)"

text \<open>The part before the \<open>await\<close>: no request (\<open>None\<close>, the lane is not consulted about) or the request
  and what is remembered.\<close>

definition consult_exhausted ::
  "FanOutInnerStep list \<Rightarrow> string \<Rightarrow> string \<Rightarrow> nat \<Rightarrow> LaneFailureKind \<Rightarrow> string \<Rightarrow> bool \<Rightarrow> fan
     \<Rightarrow> (LaneTriageFailure \<times> consult) option \<times> fan" where
  "consult_exhausted inner x stepId attempt kind excerpt acceptUnavailable fs =
     (let usedForLane = used_of (ls_perItem (fs_rescues fs)) x;
          spent = ls_runTotal (fs_rescues fs)
      in if usedForLane \<ge> MONITOR_LANE_RESCUE_CAP \<or> int spent \<ge> run_cap fs then (None, fs)
         else
           let prior = (case ls_history (fs_rescues fs) x of None \<Rightarrow> [] | Some h \<Rightarrow> h);
               dependents = pendingDependentsOf fs x
           in (Some (\<lparr>tf_itemId = x, tf_stepId = stepId, tf_attempt = attempt, tf_failureKind = kind,
                     tf_errorExcerpt = excerpt, tf_innerStepIds = map fi_id inner,
                     tf_priorRescues = some_if (prior \<noteq> []) prior, tf_stage = None,
                     tf_dependents = some_if (dependents \<noteq> []) dependents,
                     tf_acceptUnavailable = some_if acceptUnavailable True\<rparr>,
                    \<lparr>cs_stepId = stepId, cs_kind = kind, cs_excerpt = excerpt, cs_stage = StageExhausted,
                     cs_used = usedForLane, cs_prior = prior, cs_dependents = dependents\<rparr>),
               set_budget x (usedForLane + 1) (spent + 1) fs))"

definition consult_early ::
  "FanOutInnerStep list \<Rightarrow> string \<Rightarrow> string \<Rightarrow> nat \<Rightarrow> LaneFailureKind \<Rightarrow> string \<Rightarrow> fan
     \<Rightarrow> (LaneTriageFailure \<times> consult) option \<times> fan" where
  "consult_early inner x stepId attempt kind excerpt fs =
     (if x \<in> fs_early fs then (None, fs)
      else (Some (\<lparr>tf_itemId = x, tf_stepId = stepId, tf_attempt = attempt, tf_failureKind = kind,
                  tf_errorExcerpt = excerpt, tf_innerStepIds = map fi_id inner, tf_priorRescues = None,
                  tf_stage = Some StageEarly, tf_dependents = None, tf_acceptUnavailable = None\<rparr>,
                 \<lparr>cs_stepId = stepId, cs_kind = kind, cs_excerpt = excerpt, cs_stage = StageEarly,
                  cs_used = 0, cs_prior = [], cs_dependents = []\<rparr>),
            fs\<lparr>fs_early := insert x (fs_early fs)\<rparr>))"

definition releaseReservation :: "string \<Rightarrow> consult \<Rightarrow> fan \<Rightarrow> fan" where
  "releaseReservation x cs fs = set_budget x (cs_used cs) (ls_runTotal (fs_rescues fs) - 1) fs"

definition set_guidance :: "string \<Rightarrow> string \<Rightarrow> fan \<Rightarrow> fan" where
  "set_guidance x guidance fs =
     fs\<lparr>fs_rescues := (fs_rescues fs)\<lparr>ls_guidance := (ls_guidance (fs_rescues fs))(x \<mapsto> guidance)\<rparr>\<rparr>"

definition add_history :: "string \<Rightarrow> LanePriorRescue list \<Rightarrow> fan \<Rightarrow> fan" where
  "add_history x h fs = fs\<lparr>fs_rescues := (fs_rescues fs)\<lparr>ls_history := (ls_history (fs_rescues fs))(x \<mapsto> h)\<rparr>\<rparr>"

definition refund_run :: "fan \<Rightarrow> fan" where
  "refund_run fs = fs\<lparr>fs_rescues := (fs_rescues fs)\<lparr>ls_runTotal := ls_runTotal (fs_rescues fs) - 1\<rparr>\<rparr>"

definition answer_exhausted ::
  "FanOutInnerStep list \<Rightarrow> string \<Rightarrow> consult \<Rightarrow> LaneRescueOutcome option \<Rightarrow> fan \<Rightarrow> LaneTriageVerdict \<times> fan" where
  "answer_exhausted inner x cs answer fs =
     (case answer of
        None \<Rightarrow> (VerdictUnconsulted, releaseReservation x cs fs)
      | Some (RescueSystemic e) \<Rightarrow> (VerdictSystemic e, releaseReservation x cs fs)
      | Some (RescueAccept reason) \<Rightarrow> (VerdictAccept reason, releaseReservation x cs fs)
      | Some (RescueGiveUp releaseDependents) \<Rightarrow>
          (VerdictGiveUp,
           let fs1 = releaseReservation x cs fs
           in if releaseDependents = Some True \<and> cs_dependents cs \<noteq> []
              then fs1\<lparr>fs_released := insert x (fs_released fs1)\<rparr> else fs1)
      | Some (RescueFrom targetId guidance adjusted free) \<Rightarrow>
          (case inner_index inner targetId of
             None \<Rightarrow> (VerdictGiveUp, releaseReservation x cs fs)
           | Some target \<Rightarrow>
               (VerdictRescue target,
                let fs1 = (if free = Some True then refund_run fs else fs);
                    fs2 = set_guidance x guidance fs1
                in if free = Some True then fs2
                   else add_history x (cs_prior cs @
                          [\<lparr>lp_stepId = cs_stepId cs, lp_failureKind = cs_kind cs,
                            lp_errorExcerpt = cs_excerpt cs, lp_guidance = guidance\<rparr>]) fs2)))"

definition answer_early ::
  "FanOutInnerStep list \<Rightarrow> string \<Rightarrow> LaneRescueOutcome option \<Rightarrow> fan \<Rightarrow> LaneTriageVerdict \<times> fan" where
  "answer_early inner x answer fs =
     (case answer of
        None \<Rightarrow> (VerdictUnconsulted, fs)
      | Some (RescueSystemic e) \<Rightarrow> (VerdictSystemic e, fs)
      | Some (RescueAccept reason) \<Rightarrow> (VerdictAccept reason, fs)
      | Some (RescueGiveUp _) \<Rightarrow> (VerdictGiveUp, fs)
      | Some (RescueFrom targetId guidance adjusted free) \<Rightarrow>
          (case inner_index inner targetId of
             None \<Rightarrow> (VerdictGiveUp, fs)
           | Some target \<Rightarrow> (VerdictRescue target, set_guidance x guidance fs)))"

section \<open>Verification posture\<close>

definition posture :: "fan \<Rightarrow> VerificationPosture" where
  "posture fs = (case fs_posture fs of None \<Rightarrow> PostureAvailable | Some p \<Rightarrow> p)"

fun unavailable :: "VerificationPosture \<Rightarrow> bool" where
  "unavailable (PostureUnavailable _) = True"
| "unavailable _ = False"

text \<open>\<open>isNoModalityDeclineReason\<close> of a plain reason.\<close>

definition isNoModalityDeclineReason :: "string \<Rightarrow> bool" where
  "isNoModalityDeclineReason reason =
     (let text = toLower reason
      in contains ''unsupported modality'' text \<or> contains ''verification runbook'' text \<or>
         contains ''modality is deferred'' text)"

definition declareNoVerifiableModality :: "string \<Rightarrow> fan \<Rightarrow> fan" where
  "declareNoVerifiableModality reason fs =
     (if fs_reportedNoModality fs then fs
      else fs\<lparr>fs_reportedNoModality := True, fs_findings := fs_findings fs @ [NoModality reason]\<rparr>)"

definition reportVerificationSkipped :: "string \<Rightarrow> string \<Rightarrow> fan \<Rightarrow> fan" where
  "reportVerificationSkipped x reason fs =
     (if unavailable (posture fs) then fs
      else if x \<in> fs_reportedSkips fs then fs
      else fs\<lparr>fs_reportedSkips := insert x (fs_reportedSkips fs),
              fs_findings := fs_findings fs @ [SkippedVerification x reason]\<rparr>)"

text \<open>\<open>ensureVerificationPosture\<close> with the resolver's answer: \<open>None\<close> for an absent seam, \<open>Some None\<close> for a
  throw.\<close>

definition ensureVerificationPosture :: "VerificationPosture option option \<Rightarrow> fan \<Rightarrow> fan" where
  "ensureVerificationPosture resolver fs =
     (if fs_posture fs \<noteq> None then fs
      else case resolver of
             Some (Some resolved) \<Rightarrow>
               (let fs1 = fs\<lparr>fs_posture := Some resolved\<rparr>
                in case resolved of PostureUnavailable reason \<Rightarrow> declareNoVerifiableModality reason fs1 | _ \<Rightarrow> fs1)
           | _ \<Rightarrow> fs)"

definition maybeFlipPostureUnavailable :: "string \<Rightarrow> fan \<Rightarrow> fan" where
  "maybeFlipPostureUnavailable reason fs =
     (if \<not> isNoModalityDeclineReason reason then fs
      else if posture fs \<noteq> PostureAvailable then fs
      else declareNoVerifiableModality reason (fs\<lparr>fs_posture := Some (PostureUnavailable reason)\<rparr>))"

end
