(* ===== verification/LaneWalk.thy ===== *)
theory LaneWalk
  imports LaneTriage
begin

text \<open>
  \<open>driveItem\<close> of workflowController.ts, the walk of one lane through the inner chain of a fan-out step, as
  a machine: \<open>lane_wait\<close> is the \<open>await\<close> the lane is suspended at, \<open>lane_resume\<close> runs the lane from an answer
  to the next \<open>await\<close>. Between two awaits the code is atomic, so the siblings act only between two
  resumptions, on the shared state \<open>fan\<close>. An \<open>await\<close> that no sibling and no host can observe (a loopback
  that consults nobody) is no suspension. \<open>AnThrow\<close> is the rejection of an unguarded seam, which \<open>runLane\<close>
  turns into a failed outcome. The parser of the composed visual task and the texts of the
  commit-integrity evidence are fields of the configuration.
\<close>

section \<open>Constants\<close>

definition MAX_VISUAL_LOOPBACKS :: nat where "MAX_VISUAL_LOOPBACKS = 5"
definition FAN_OUT_LANE_ATTEMPT_CAP :: nat where "FAN_OUT_LANE_ATTEMPT_CAP = 3"
definition VERIFY_DISABLED_ENQUEUE_REASON :: string where
  "VERIFY_DISABLED_ENQUEUE_REASON = ''verification-disabled''"
definition AWAITING_VERIFY_STEP :: string where "AWAITING_VERIFY_STEP = ''awaiting-verify''"
definition SPRINT_IMPLEMENT_STEP :: string where "SPRINT_IMPLEMENT_STEP = ''implement''"
definition SPRINT_CODE_REVIEW_STEP :: string where "SPRINT_CODE_REVIEW_STEP = ''code-review''"
definition SPRINT_VISUAL_VERIFY_STEP :: string where "SPRINT_VISUAL_VERIFY_STEP = ''visual-verify''"
definition SPRINT_TASK_VERIFY_STEP :: string where "SPRINT_TASK_VERIFY_STEP = ''task-verify''"

section \<open>Answers\<close>

datatype 'v visual_section = VsTask 'v | VsNotApplicable | VsMissing | VsContractError string

datatype TaskEnqueueResult = Enqueued | EnqueueSkipped string

datatype VisualGateOutcome = VgAdvance | VgLoopback int "string option" | VgFailed | VgAborted

datatype BuildSlotCheck = SlotsClean | SlotsLeak "string list" | SlotsUnknown

record CommitIntegrityReading =
  ci_headAdvanced :: bool
  ci_dirty :: bool
  ci_dirtyPaths :: "string list option"
  ci_newDirtyPaths :: "string list option"
  ci_buildSlots :: "BuildSlotCheck option"

record 'v fan_cfg =
  fc_runId :: string
  fc_over :: string
  fc_inner :: "FanOutInnerStep list"
  fc_triageSeam :: bool
  fc_enqueueSeam :: bool
  fc_reviveSeam :: bool
  fc_section :: "string \<Rightarrow> 'v visual_section"
  fc_dirtyExcerpt :: "CommitIntegrityReading \<Rightarrow> bool \<Rightarrow> string"
  fc_slotsExcerpt :: "BuildSlotCheck \<Rightarrow> bool \<Rightarrow> string"

section \<open>The state of one walk\<close>

record 'v lane =
  ln_probe :: bool
  ln_attempt :: nat
  ln_visualLoopbacks :: nat
  ln_loopbackStep :: "nat option"
  ln_task :: "'v option"
  ln_contractRetries :: nat
  ln_adopted :: bool
  ln_contractError :: "string option"
  ln_feedback :: "string option"

definition new_lane :: "'v lane" where
  "new_lane = \<lparr>ln_probe = False, ln_attempt = 1, ln_visualLoopbacks = 0, ln_loopbackStep = None, ln_task = None,
     ln_contractRetries = 0, ln_adopted = False, ln_contractError = None, ln_feedback = None\<rparr>"

record lane_ctx =
  lc_step :: WorkflowStep
  lc_attempt :: nat
  lc_item :: "string \<times> string"
  lc_spawnKey :: string
  lc_contractError :: "string option"
  lc_loopbackFeedback :: "string option"
  lc_laneGuidance :: "string option"
  lc_laneSlot :: "nat option"

text \<open>Where a lane asks for triage: an exhausted budget, or the last automatic attempt (with the target of
  the loopback it would take).\<close>

datatype site =
    StepExhausted "string option"
  | StepFinal "string option" nat
  | ReviewExhausted string
  | ReviewFinal string nat
  | VerifyExhausted string
  | VerifyFinal string nat
  | GateFailed
  | GateRefused string
  | DirtyTree string bool
  | SlotsRefused string

datatype 'v lane_wait =
    AwProbeOpen
  | AwStep nat lane_ctx
  | AwEnqueue nat 'v nat
  | AwGate nat
  | AwTurn nat site
  | AwConsult nat site LaneTriageFailure consult
  | AwProbe
  | LaneOver LaneWalkOutcome

datatype lane_answer =
    AnProbeOpen bool
  | AnStep StepRunResult
  | AnEnqueue TaskEnqueueResult
  | AnGate VisualGateOutcome
  | AnTurn
  | AnConsult "LaneRescueOutcome option"
  | AnProbe "CommitIntegrityReading option"
  | AnThrow string

type_synonym 'v lane_out = "'v lane \<times> 'v lane_wait \<times> fan"

section \<open>Lane writes and resets\<close>

definition put :: "lane_write \<Rightarrow> fan \<Rightarrow> fan" where
  "put w fs = fs\<lparr>fs_writes := fs_writes fs @ [w]\<rparr>"

definition put_status :: "string \<Rightarrow> SprintBatchTaskStatus \<Rightarrow> fan \<Rightarrow> fan" where
  "put_status x st = put (Drive x (Some st) None None)"

definition taskVerifyIndex :: "'v fan_cfg \<Rightarrow> nat option" where
  "taskVerifyIndex cfg = inner_index (fc_inner cfg) SPRINT_TASK_VERIFY_STEP"

definition clearStateForRewind :: "'v fan_cfg \<Rightarrow> nat \<Rightarrow> 'v lane \<Rightarrow> 'v lane" where
  "clearStateForRewind cfg target ln =
     ln\<lparr>ln_contractError := None, ln_feedback := None, ln_loopbackStep := None, ln_adopted := False,
        ln_contractRetries := 0, ln_visualLoopbacks := 0,
        ln_task := (case taskVerifyIndex cfg of
                      Some v \<Rightarrow> if target \<le> v then None else ln_task ln
                    | None \<Rightarrow> ln_task ln)\<rparr>"

definition loopbackIndex :: "'v fan_cfg \<Rightarrow> FanOutInnerStep \<Rightarrow> nat option" where
  "loopbackIndex cfg s = (case fi_loopback s of None \<Rightarrow> None | Some l \<Rightarrow> inner_index (fc_inner cfg) l)"

definition synthesized :: "FanOutInnerStep \<Rightarrow> WorkflowStep" where
  "synthesized s =
     \<lparr>st_id = fi_id s, st_name = (case fi_name s of None \<Rightarrow> fi_id s | Some n \<Rightarrow> n), st_agent = fi_agent s,
      st_mcps = [], st_retries = 0, st_optional = fi_optional s, st_human = None, st_gateHeader = None,
      st_loopback = None, st_desc = None, st_fanOut = None, st_outputArtifact = None,
      st_consumesPriorStepOutput = None, st_consumesBlockingReviewItems = None\<rparr>"

section \<open>From one position to the next await\<close>

definition spawn :: "'v fan_cfg \<Rightarrow> string \<Rightarrow> nat \<Rightarrow> FanOutInnerStep \<Rightarrow> 'v lane \<Rightarrow> fan \<Rightarrow> 'v lane_out" where
  "spawn cfg x k s ln fs =
     (ln\<lparr>ln_loopbackStep := None, ln_contractError := None, ln_feedback := None\<rparr>,
      AwStep k \<lparr>lc_step = synthesized s, lc_attempt = ln_attempt ln, lc_item = (x, fc_over cfg),
                lc_spawnKey = fc_runId cfg @ '':'' @ x,
                lc_contractError = ln_contractError ln, lc_loopbackFeedback = ln_feedback ln,
                lc_laneGuidance = ls_guidance (fs_rescues fs) x, lc_laneSlot = fs_slots fs x\<rparr>,
      put (Drive x None (Some (fi_id s)) (if ln_loopbackStep ln = Some k then Some (ln_attempt ln) else None)) fs)"

definition park_lane :: "string \<Rightarrow> nat \<Rightarrow> 'v lane \<Rightarrow> fan \<Rightarrow> 'v lane_out" where
  "park_lane x k ln fs = (ln, AwGate k, put (Drive x None (Some AWAITING_VERIFY_STEP) None) fs)"

definition declined :: "string \<Rightarrow> string \<Rightarrow> fan \<Rightarrow> fan" where
  "declined x reason fs =
     (if reason \<noteq> VERIFY_DISABLED_ENQUEUE_REASON
      then reportVerificationSkipped x reason (maybeFlipPostureUnavailable reason fs) else fs)"

definition integrate :: "string \<Rightarrow> 'v lane \<Rightarrow> fan \<Rightarrow> 'v lane_out" where
  "integrate x ln fs = (ln, LaneOver LaneDone, put_status x SbIntegrated fs)"

definition fail_now :: "string \<Rightarrow> 'v lane \<Rightarrow> fan \<Rightarrow> 'v lane_out" where
  "fail_now x ln fs = (ln, LaneOver (LaneFailed None True), put_status x SbFailed fs)"

lemma takeLaneRewind_taken: "fs_rewinds (snd (takeLaneRewind inner x k fs)) x = None"
  by (auto simp: takeLaneRewind_def split: option.splits)

lemma takeLaneRewind_none: "fs_rewinds fs x = None \<Longrightarrow> takeLaneRewind inner x k fs = (None, fs)"
  by (simp add: takeLaneRewind_def)

lemma declined_rewinds: "fs_rewinds (declined x r fs) = fs_rewinds fs"
  by (simp add: declined_def reportVerificationSkipped_def maybeFlipPostureUnavailable_def declareNoVerifiableModality_def)

text \<open>The loop of \<open>driveItem\<close> from index \<open>k\<close>. A rewind is consumed when it is read, so the loop ends.\<close>

function lane_from :: "'v fan_cfg \<Rightarrow> string \<Rightarrow> nat \<Rightarrow> 'v lane \<Rightarrow> fan \<Rightarrow> 'v lane_out" where
  "lane_from cfg x k ln fs =
     (if fs_aborted fs then (ln, LaneOver LaneAborted, fs)
      else if k \<ge> length (fc_inner cfg) then
        (if ln_probe ln then (ln, AwProbe, fs) else integrate x ln fs)
      else
        case takeLaneRewind (fc_inner cfg) x k fs of
          (Some target, fs1) \<Rightarrow> lane_from cfg x target (clearStateForRewind cfg target ln) fs1
        | (None, fs1) \<Rightarrow>
            let s = fc_inner cfg ! k in
            if fi_id s \<in> fs_userSkipped fs1 then lane_from cfg x (Suc k) ln fs1
            else if fi_id s \<noteq> SPRINT_VISUAL_VERIFY_STEP then spawn cfg x k s ln fs1
            else if \<not> fs_visualActive fs1 then lane_from cfg x (Suc k) ln fs1
            else if unavailable (posture fs1) then lane_from cfg x (Suc k) ln fs1
            else case ln_task ln of
                   None \<Rightarrow> if ln_adopted ln then park_lane x k ln fs1 else lane_from cfg x (Suc k) ln fs1
                 | Some task \<Rightarrow>
                     if fc_enqueueSeam cfg then (ln, AwEnqueue k task (ln_attempt ln), fs1)
                     else lane_from cfg x (Suc k) ln (declined x ''no-enqueue-capability'' fs1))"
  by pat_completeness auto
termination
proof (relation "measures [\<lambda>(cfg, x, k, ln, fs). if fs_rewinds fs x = None then 0 else 1,
    \<lambda>(cfg, x, k, ln, fs). length (fc_inner cfg) - k]", goal_cases)
  case 1
  show ?case by simp
qed (auto simp: takeLaneRewind_def declined_rewinds split: option.splits if_splits)

declare lane_from.simps [simp del]

section \<open>Answers of a step\<close>

definition loop_back :: "'v fan_cfg \<Rightarrow> string \<Rightarrow> nat \<Rightarrow> 'v lane \<Rightarrow> fan \<Rightarrow> 'v lane_out" where
  "loop_back cfg x target ln fs =
     lane_from cfg x target (ln\<lparr>ln_attempt := ln_attempt ln + 1, ln_loopbackStep := Some target\<rparr>) fs"

definition rewound :: "'v fan_cfg \<Rightarrow> string \<Rightarrow> nat \<Rightarrow> fan \<Rightarrow> nat option \<times> fan" where
  "rewound cfg x k fs = (if fs_aborted fs then (None, fs) else takeLaneRewind (fc_inner cfg) x k fs)"

text \<open>A loopback asks for a steer only before the last automatic attempt.\<close>

definition final_attempt :: "'v lane \<Rightarrow> bool" where
  "final_attempt ln \<longleftrightarrow> ln_attempt ln = FAN_OUT_LANE_ATTEMPT_CAP - 1"

definition step_defect ::
  "'v fan_cfg \<Rightarrow> string \<Rightarrow> nat \<Rightarrow> (nat \<Rightarrow> site) \<Rightarrow> site \<Rightarrow> string option \<Rightarrow> 'v lane \<Rightarrow> fan \<Rightarrow> 'v lane_out" where
  "step_defect cfg x k final exhausted feedback ln fs =
     (case loopbackIndex cfg (fc_inner cfg ! k) of
        Some target \<Rightarrow>
          if ln_attempt ln < FAN_OUT_LANE_ATTEMPT_CAP then
            (if final_attempt ln then (ln, AwTurn k (final target), fs)
             else loop_back cfg x target (ln\<lparr>ln_feedback := (case feedback of None \<Rightarrow> ln_feedback ln | Some f \<Rightarrow> Some f)\<rparr>) fs)
          else (ln, AwTurn k exhausted, fs)
      | None \<Rightarrow> (ln, AwTurn k exhausted, fs))"

definition step_failed_lane :: "'v fan_cfg \<Rightarrow> string \<Rightarrow> nat \<Rightarrow> StepRunResult \<Rightarrow> 'v lane \<Rightarrow> fan \<Rightarrow> 'v lane_out" where
  "step_failed_lane cfg x k r ln fs =
     (let s = fc_inner cfg ! k
      in if rr_systemic r = Some True then
           (ln, LaneOver (LaneSystemic (rr_error r) FromStep (Some (fi_id s)) (truthy (rr_provider r)) (truthy (rr_runtime r))), fs)
         else if fi_optional s = Some True then lane_from cfg x (Suc k) ln fs
         else step_defect cfg x k (StepFinal (rr_error r)) (StepExhausted (rr_error r)) None ln fs)"

definition review_blocks :: "string \<Rightarrow> bool" where
  "review_blocks text \<longleftrightarrow>
     parseCodeReviewVerdict text = Some RBlocking \<or>
     (parseCodeReviewVerdict text = None \<and> extractBlockingSection text \<noteq> None)"

definition blocking_excerpt :: "string \<Rightarrow> string" where
  "blocking_excerpt text = (case extractBlockingSection text of None \<Rightarrow> text | Some section \<Rightarrow> section)"

definition no_result_text :: string where
  "no_result_text = ''the task-verify step produced no result text, so no verification task could be composed''"

definition no_section_error :: string where
  "no_section_error = ''no \"## Visual verification task\" section and no VISUAL-VERIFICATION: NOT-APPLICABLE line''"

definition task_verified :: "'v fan_cfg \<Rightarrow> string \<Rightarrow> nat \<Rightarrow> string \<Rightarrow> 'v lane \<Rightarrow> fan \<Rightarrow> 'v lane_out" where
  "task_verified cfg x k text ln fs =
     (if \<not> fs_visualActive fs then lane_from cfg x (Suc k) ln fs
      else case fc_section cfg text of
             VsTask task \<Rightarrow> lane_from cfg x (Suc k) (ln\<lparr>ln_task := Some task\<rparr>) fs
           | VsNotApplicable \<Rightarrow> lane_from cfg x (Suc k) (ln\<lparr>ln_task := None\<rparr>) fs
           | defect \<Rightarrow>
               if x \<in> fs_liveRequests fs then lane_from cfg x (Suc k) (ln\<lparr>ln_adopted := True\<rparr>) fs
               else if ln_contractRetries ln \<ge> 1 then fail_now x ln fs
               else lane_from cfg x k
                      (ln\<lparr>ln_contractRetries := ln_contractRetries ln + 1,
                          ln_contractError := Some (case defect of VsContractError e \<Rightarrow> e | _ \<Rightarrow> no_section_error)\<rparr>) fs)"

definition after_task_verify :: "'v fan_cfg \<Rightarrow> string \<Rightarrow> nat \<Rightarrow> string option \<Rightarrow> 'v lane \<Rightarrow> fan \<Rightarrow> 'v lane_out" where
  "after_task_verify cfg x k resultText ln0 fs =
     (let ln = ln0\<lparr>ln_adopted := False\<rparr>
      in case resultText of
           None \<Rightarrow>
             if fs_visualActive fs
             then lane_from cfg x (Suc k) (ln\<lparr>ln_task := None\<rparr>) (reportVerificationSkipped x no_result_text fs)
             else lane_from cfg x (Suc k) ln fs
         | Some text \<Rightarrow>
             if parseTaskVerifyVerdict text = Some VFail
             then step_defect cfg x k (VerifyFinal text) (VerifyExhausted text) None ln fs
             else task_verified cfg x k text ln fs)"

definition step_ok :: "'v fan_cfg \<Rightarrow> string \<Rightarrow> nat \<Rightarrow> StepRunResult \<Rightarrow> 'v lane \<Rightarrow> fan \<Rightarrow> 'v lane_out" where
  "step_ok cfg x k r ln fs =
     (let s = fc_inner cfg ! k
      in if fi_id s = SPRINT_CODE_REVIEW_STEP then
           (case rr_resultText r of
              Some text \<Rightarrow>
                if review_blocks text
                then step_defect cfg x k (ReviewFinal (blocking_excerpt text)) (ReviewExhausted (blocking_excerpt text))
                       (Some (blocking_excerpt text)) ln fs
                else lane_from cfg x (Suc k) ln fs
            | None \<Rightarrow> lane_from cfg x (Suc k) ln fs)
         else if fi_id s = SPRINT_TASK_VERIFY_STEP then after_task_verify cfg x k (rr_resultText r) ln fs
         else lane_from cfg x (Suc k) ln fs)"

definition after_step :: "'v fan_cfg \<Rightarrow> string \<Rightarrow> nat \<Rightarrow> StepRunResult \<Rightarrow> 'v lane \<Rightarrow> fan \<Rightarrow> 'v lane_out" where
  "after_step cfg x k r ln fs =
     (case rewound cfg x k fs of
        (Some target, fs1) \<Rightarrow> lane_from cfg x target (clearStateForRewind cfg target ln) fs1
      | (None, fs1) \<Rightarrow>
          (case rr_status r of
             StAborted \<Rightarrow> (ln, LaneOver LaneAborted, fs1)
           | StFailed \<Rightarrow> step_failed_lane cfg x k r ln fs1
           | StOk \<Rightarrow> step_ok cfg x k r ln fs1))"

section \<open>The merge gate and the lane end\<close>

definition refused_excerpt :: "int \<Rightarrow> 'v lane \<Rightarrow> string" where
  "refused_excerpt a ln =
     ''the visual merge gate loopback was refused (attempt '' @ int_text a @ '', lane attempt '' @
     nat_text (ln_attempt ln) @ '', '' @ nat_text (ln_visualLoopbacks ln) @ '' visual loopback(s) used)''"

definition gate_target :: "'v fan_cfg \<Rightarrow> nat \<Rightarrow> nat option" where
  "gate_target cfg k =
     (case loopbackIndex cfg (fc_inner cfg ! k) of
        Some t \<Rightarrow> Some t
      | None \<Rightarrow> inner_index (fc_inner cfg) SPRINT_IMPLEMENT_STEP)"

definition gate_loopback ::
  "'v fan_cfg \<Rightarrow> string \<Rightarrow> nat \<Rightarrow> int \<Rightarrow> string option \<Rightarrow> 'v lane \<Rightarrow> fan \<Rightarrow> 'v lane_out" where
  "gate_loopback cfg x k a feedback ln0 fs =
     (let ln = ln0\<lparr>ln_visualLoopbacks := ln_visualLoopbacks ln0 + 1\<rparr>
      in case gate_target cfg k of
           Some target \<Rightarrow>
             if ln_visualLoopbacks ln > MAX_VISUAL_LOOPBACKS \<or> a \<le> int (ln_attempt ln) \<or>
                a > int FAN_OUT_LANE_ATTEMPT_CAP
             then (ln, AwTurn k (GateRefused (refused_excerpt a ln)), fs)
             else lane_from cfg x target
                    (ln\<lparr>ln_attempt := nat a, ln_loopbackStep := Some target, ln_feedback := feedback\<rparr>) fs
         | None \<Rightarrow> (ln, AwTurn k (GateRefused (refused_excerpt a ln)), fs))"

definition after_gate :: "'v fan_cfg \<Rightarrow> string \<Rightarrow> nat \<Rightarrow> VisualGateOutcome \<Rightarrow> 'v lane \<Rightarrow> fan \<Rightarrow> 'v lane_out" where
  "after_gate cfg x k oc ln fs =
     (case rewound cfg x k fs of
        (Some target, fs1) \<Rightarrow> lane_from cfg x target (clearStateForRewind cfg target ln) fs1
      | (None, fs1) \<Rightarrow>
          (case oc of
             VgAborted \<Rightarrow> (ln, LaneOver LaneAborted, fs1)
           | VgFailed \<Rightarrow> (ln, AwTurn k GateFailed, fs1)
           | VgLoopback a feedback \<Rightarrow> gate_loopback cfg x k a feedback ln fs1
           | VgAdvance \<Rightarrow> lane_from cfg x (Suc k) ln fs1))"

definition checkCommitIntegrity ::
  "'v fan_cfg \<Rightarrow> string \<Rightarrow> CommitIntegrityReading option \<Rightarrow> 'v lane \<Rightarrow> fan \<Rightarrow> 'v lane_out" where
  "checkCommitIntegrity cfg x answer ln fs =
     (case answer of
        None \<Rightarrow> integrate x ln fs
      | Some reading \<Rightarrow>
          let n = length (fc_inner cfg); shared = (x \<in> fs_overlapped fs)
          in case ci_buildSlots reading of
               Some (SlotsLeak paths) \<Rightarrow> (ln, AwTurn n (SlotsRefused (fc_slotsExcerpt cfg (SlotsLeak paths) shared)), fs)
             | Some SlotsUnknown \<Rightarrow> (ln, AwTurn n (SlotsRefused (fc_slotsExcerpt cfg SlotsUnknown shared)), fs)
             | _ \<Rightarrow>
                 if ci_headAdvanced reading \<or> \<not> ci_dirty reading then integrate x ln fs
                 else if ci_newDirtyPaths reading = Some [] then integrate x ln fs
                 else (ln, AwTurn n (DirtyTree (fc_dirtyExcerpt cfg reading shared) shared), fs))"

section \<open>Triage\<close>

definition site_step_id :: "'v fan_cfg \<Rightarrow> nat \<Rightarrow> string" where
  "site_step_id cfg k =
     (if k < length (fc_inner cfg) then fi_id (fc_inner cfg ! k) else fi_id (last (fc_inner cfg)))"

definition error_text :: "string option \<Rightarrow> string" where
  "error_text e = (case e of None \<Rightarrow> ''(no error text)'' | Some t \<Rightarrow> t)"

fun site_kind :: "site \<Rightarrow> LaneFailureKind \<times> string" where
  "site_kind (StepExhausted e) = (LfInnerStep, error_text e)"
| "site_kind (StepFinal e _) = (LfInnerStep, error_text e)"
| "site_kind (ReviewExhausted t) = (LfCodeReview, t)"
| "site_kind (ReviewFinal t _) = (LfCodeReview, t)"
| "site_kind (VerifyExhausted t) = (LfTaskVerify, t)"
| "site_kind (VerifyFinal t _) = (LfTaskVerify, t)"
| "site_kind GateFailed = (LfMergeGate, ''the visual merge gate rejected this lane at its attempt cap'')"
| "site_kind (GateRefused t) = (LfMergeGate, t)"
| "site_kind (DirtyTree t _) = (LfCommitIntegrity, t)"
| "site_kind (SlotsRefused t) = (LfCommitIntegrity, t)"

fun site_early :: "site \<Rightarrow> bool" where
  "site_early (StepFinal _ _) = True"
| "site_early (ReviewFinal _ _) = True"
| "site_early (VerifyFinal _ _) = True"
| "site_early _ = False"

fun needsRevive :: "site \<Rightarrow> bool" where
  "needsRevive GateFailed = True"
| "needsRevive (GateRefused _) = True"
| "needsRevive _ = False"

fun acceptUnavailable :: "site \<Rightarrow> bool" where
  "acceptUnavailable (SlotsRefused _) = True"
| "acceptUnavailable _ = False"

definition revive :: "'v fan_cfg \<Rightarrow> string \<Rightarrow> site \<Rightarrow> fan \<Rightarrow> fan" where
  "revive cfg x st fs = (if needsRevive st \<and> fc_reviveSeam cfg then put (Revive x) fs else fs)"

definition triage_parks :: "string \<Rightarrow> string \<Rightarrow> 'v lane \<Rightarrow> fan \<Rightarrow> 'v lane_out" where
  "triage_parks e stepId ln fs = (ln, LaneOver (LaneSystemic (Some e) FromTriage (Some stepId) None None), fs)"

text \<open>What each site does with a verdict.\<close>

fun settle_site ::
  "'v fan_cfg \<Rightarrow> string \<Rightarrow> nat \<Rightarrow> site \<Rightarrow> LaneTriageVerdict \<Rightarrow> 'v lane \<Rightarrow> fan \<Rightarrow> 'v lane_out" where
  "settle_site cfg x k (StepFinal e target) v ln fs =
     (case v of VerdictRescue t \<Rightarrow> loop_back cfg x t ln fs
      | VerdictAccept _ \<Rightarrow> lane_from cfg x (Suc k) ln fs
      | _ \<Rightarrow> loop_back cfg x target ln fs)"
| "settle_site cfg x k (ReviewFinal text target) v ln fs =
     (case v of VerdictRescue t \<Rightarrow> loop_back cfg x t (ln\<lparr>ln_feedback := Some text\<rparr>) fs
      | VerdictAccept _ \<Rightarrow> lane_from cfg x (Suc k) ln fs
      | _ \<Rightarrow> loop_back cfg x target (ln\<lparr>ln_feedback := Some text\<rparr>) fs)"
| "settle_site cfg x k (VerifyFinal text target) v ln fs =
     (case v of VerdictRescue t \<Rightarrow> loop_back cfg x t ln fs
      | VerdictAccept _ \<Rightarrow> lane_from cfg x (Suc k) (ln\<lparr>ln_task := None\<rparr>) fs
      | _ \<Rightarrow> loop_back cfg x target ln fs)"
| "settle_site cfg x k (StepExhausted e) v ln fs =
     (case v of VerdictRescue t \<Rightarrow> lane_from cfg x t ln fs
      | VerdictAccept _ \<Rightarrow> lane_from cfg x (Suc k) ln fs
      | VerdictSystemic s \<Rightarrow> triage_parks s (site_step_id cfg k) ln fs
      | _ \<Rightarrow> (ln, LaneOver (LaneFailed e False), fs))"
| "settle_site cfg x k (ReviewExhausted text) v ln fs =
     (case v of VerdictRescue t \<Rightarrow> lane_from cfg x t ln fs
      | VerdictAccept _ \<Rightarrow> lane_from cfg x (Suc k) ln fs
      | VerdictSystemic s \<Rightarrow> triage_parks s (site_step_id cfg k) ln fs
      | _ \<Rightarrow> fail_now x ln fs)"
| "settle_site cfg x k (VerifyExhausted text) v ln fs =
     (case v of VerdictRescue t \<Rightarrow> lane_from cfg x t ln fs
      | VerdictAccept _ \<Rightarrow> lane_from cfg x (Suc k) (ln\<lparr>ln_task := None\<rparr>) fs
      | VerdictSystemic s \<Rightarrow> triage_parks s (site_step_id cfg k) ln fs
      | _ \<Rightarrow> fail_now x ln fs)"
| "settle_site cfg x k (DirtyTree _ shared) v ln fs =
     (case v of VerdictRescue t \<Rightarrow> lane_from cfg x t ln fs
      | VerdictSystemic s \<Rightarrow> triage_parks s (site_step_id cfg k) ln fs
      | VerdictAccept _ \<Rightarrow> integrate x ln fs
      | VerdictUnconsulted \<Rightarrow> if shared then integrate x ln fs else fail_now x ln fs
      | VerdictGiveUp \<Rightarrow> fail_now x ln fs)"
| "settle_site cfg x k (SlotsRefused _) v ln fs =
     (case v of VerdictRescue t \<Rightarrow> lane_from cfg x t ln fs
      | VerdictSystemic s \<Rightarrow> triage_parks s (site_step_id cfg k) ln fs
      | _ \<Rightarrow> fail_now x ln fs)"
| "settle_site cfg x k gate v ln fs =
     (case v of VerdictAccept _ \<Rightarrow> lane_from cfg x (Suc k) ln fs
      | VerdictRescue t \<Rightarrow>
          lane_from cfg x t (ln\<lparr>ln_attempt := ln_attempt ln + 1, ln_loopbackStep := Some t\<rparr>) fs
      | _ \<Rightarrow> fail_now x ln fs)"

definition triaged :: "'v fan_cfg \<Rightarrow> string \<Rightarrow> nat \<Rightarrow> site \<Rightarrow> LaneTriageVerdict \<Rightarrow> 'v lane \<Rightarrow> fan \<Rightarrow> 'v lane_out" where
  "triaged cfg x k st v ln fs =
     (case v of
        VerdictAccept _ \<Rightarrow> settle_site cfg x k st v ln (revive cfg x st fs)
      | VerdictRescue t \<Rightarrow> settle_site cfg x k st v (clearStateForRewind cfg t ln) (revive cfg x st fs)
      | _ \<Rightarrow> settle_site cfg x k st v ln fs)"

definition consult_at ::
  "'v fan_cfg \<Rightarrow> string \<Rightarrow> nat \<Rightarrow> site \<Rightarrow> 'v lane \<Rightarrow> fan \<Rightarrow> (LaneTriageFailure \<times> consult) option \<times> fan" where
  "consult_at cfg x k st ln fs =
     (let inner = fc_inner cfg; sid = site_step_id cfg k; kind = fst (site_kind st); excerpt = snd (site_kind st)
      in if \<not> fc_triageSeam cfg then (None, fs)
         else if site_early st then consult_early inner x sid (ln_attempt ln) kind excerpt fs
         else consult_exhausted inner x sid (ln_attempt ln) kind excerpt (acceptUnavailable st) fs)"

definition answer_at ::
  "'v fan_cfg \<Rightarrow> string \<Rightarrow> consult \<Rightarrow> LaneRescueOutcome option \<Rightarrow> fan \<Rightarrow> LaneTriageVerdict \<times> fan" where
  "answer_at cfg x cs answer fs =
     (if cs_stage cs = StageEarly then answer_early (fc_inner cfg) x answer fs
      else answer_exhausted (fc_inner cfg) x cs answer fs)"

text \<open>The lane's turn in the consult chain.\<close>

definition triage_turn :: "'v fan_cfg \<Rightarrow> string \<Rightarrow> nat \<Rightarrow> site \<Rightarrow> 'v lane \<Rightarrow> fan \<Rightarrow> 'v lane_out" where
  "triage_turn cfg x k st ln fs =
     (case fs_latch fs of
        Some e \<Rightarrow> triaged cfg x k st (VerdictSystemic e) ln fs
      | None \<Rightarrow>
          (case consult_at cfg x k st ln fs of
             (None, fs1) \<Rightarrow> triaged cfg x k st VerdictUnconsulted ln fs1
           | (Some (request, cs), fs1) \<Rightarrow> (ln, AwConsult k st request cs, fs1)))"

definition triage_answer ::
  "'v fan_cfg \<Rightarrow> string \<Rightarrow> nat \<Rightarrow> site \<Rightarrow> consult \<Rightarrow> LaneRescueOutcome option \<Rightarrow> 'v lane \<Rightarrow> fan \<Rightarrow> 'v lane_out" where
  "triage_answer cfg x k st cs answer ln fs =
     (case answer_at cfg x cs answer fs of
        (v, fs1) \<Rightarrow>
          triaged cfg x k st v ln (case v of VerdictSystemic e \<Rightarrow> fs1\<lparr>fs_latch := Some e\<rparr> | _ \<Rightarrow> fs1))"

section \<open>The machine\<close>

text \<open>An empty chain makes the first statement throw.\<close>

definition no_inner_error :: string where
  "no_inner_error = ''Cannot read properties of undefined (reading '' @ [CHR 0x27] @ ''id'' @ [CHR 0x27] @ '')''"

definition lane_start :: "'v fan_cfg \<Rightarrow> string \<Rightarrow> fan \<Rightarrow> 'v lane_out" where
  "lane_start cfg x fs =
     (case fc_inner cfg of
        [] \<Rightarrow> (new_lane, LaneOver (LaneFailed (Some no_inner_error) False), fs)
      | s # _ \<Rightarrow> (new_lane, AwProbeOpen, put (Drive x (Some SbRunning) (Some (fi_id s)) None) fs))"

fun lane_resume :: "'v fan_cfg \<Rightarrow> string \<Rightarrow> 'v lane_wait \<Rightarrow> lane_answer \<Rightarrow> 'v lane \<Rightarrow> fan \<Rightarrow> 'v lane_out option" where
  "lane_resume cfg x AwProbeOpen (AnProbeOpen b) ln fs = Some (lane_from cfg x 0 (ln\<lparr>ln_probe := b\<rparr>) fs)"
| "lane_resume cfg x (AwStep k ctx) (AnStep r) ln fs = Some (after_step cfg x k r ln fs)"
| "lane_resume cfg x (AwEnqueue k task a) (AnEnqueue e) ln fs =
     Some (case e of
             Enqueued \<Rightarrow> park_lane x k ln fs
           | EnqueueSkipped reason \<Rightarrow> lane_from cfg x (Suc k) ln (declined x reason fs))"
| "lane_resume cfg x (AwGate k) (AnGate oc) ln fs = Some (after_gate cfg x k oc ln fs)"
| "lane_resume cfg x (AwTurn k st) AnTurn ln fs = Some (triage_turn cfg x k st ln fs)"
| "lane_resume cfg x (AwConsult k st request cs) (AnConsult answer) ln fs =
     Some (triage_answer cfg x k st cs answer ln fs)"
| "lane_resume cfg x AwProbe (AnProbe answer) ln fs = Some (checkCommitIntegrity cfg x answer ln fs)"
| "lane_resume cfg x (AwStep k ctx) (AnThrow e) ln fs = Some (ln, LaneOver (LaneFailed (Some e) False), fs)"
| "lane_resume cfg x (AwEnqueue k task a) (AnThrow e) ln fs = Some (ln, LaneOver (LaneFailed (Some e) False), fs)"
| "lane_resume cfg x (AwGate k) (AnThrow e) ln fs = Some (ln, LaneOver (LaneFailed (Some e) False), fs)"
| "lane_resume cfg x _ _ ln fs = None"

end
