(* ===== verification/LaneLoop.thy ===== *)
theory LaneLoop
  imports LaneWalk
begin

text \<open>
  The loop of \<open>driveItem\<close> between two awaits: an induction rule over \<open>lane_from\<close> with one case per exit,
  the part of the shared state that only the triage changes (\<open>kept\<close>), the status writes
  (\<open>statuses\<close>, \<open>final_status\<close>), and what every run of the loop keeps and writes (\<open>lane_from_out\<close>).
\<close>

section \<open>Runs of the loop\<close>

lemma lane_from_rule [case_names aborted probe ending rewind next_step spawned parked enqueue]:
  assumes aborted: "\<And>k ln fs. fs_aborted fs \<Longrightarrow> P k ln fs (ln, LaneOver LaneAborted, fs)"
    and probe: "\<And>k ln fs. \<lbrakk>\<not> fs_aborted fs; k \<ge> length (fc_inner cfg); ln_probe ln\<rbrakk> \<Longrightarrow> P k ln fs (ln, AwProbe, fs)"
    and ending: "\<And>k ln fs. \<lbrakk>\<not> fs_aborted fs; k \<ge> length (fc_inner cfg); \<not> ln_probe ln\<rbrakk> \<Longrightarrow> P k ln fs (integrate x ln fs)"
    and rewind: "\<And>k ln fs t fs1 out. \<lbrakk>k < length (fc_inner cfg); takeLaneRewind (fc_inner cfg) x k fs = (Some t, fs1);
        P t (clearStateForRewind cfg t ln) fs1 out\<rbrakk> \<Longrightarrow> P k ln fs out"
    and next_step: "\<And>k ln fs fs1 fs2 out. \<lbrakk>k < length (fc_inner cfg); takeLaneRewind (fc_inner cfg) x k fs = (None, fs1);
        fi_id (fc_inner cfg ! k) \<in> fs_userSkipped fs1 \<or> fi_id (fc_inner cfg ! k) = SPRINT_VISUAL_VERIFY_STEP;
        fs2 = fs1 \<or> (\<exists>r. fs2 = declined x r fs1); P (Suc k) ln fs2 out\<rbrakk> \<Longrightarrow> P k ln fs out"
    and spawned: "\<And>k ln fs fs1. \<lbrakk>k < length (fc_inner cfg); takeLaneRewind (fc_inner cfg) x k fs = (None, fs1);
        fi_id (fc_inner cfg ! k) \<notin> fs_userSkipped fs1; fi_id (fc_inner cfg ! k) \<noteq> SPRINT_VISUAL_VERIFY_STEP\<rbrakk> \<Longrightarrow>
        P k ln fs (spawn cfg x k (fc_inner cfg ! k) ln fs1)"
    and parked: "\<And>k ln fs fs1. \<lbrakk>k < length (fc_inner cfg); takeLaneRewind (fc_inner cfg) x k fs = (None, fs1);
        fi_id (fc_inner cfg ! k) = SPRINT_VISUAL_VERIFY_STEP\<rbrakk> \<Longrightarrow> P k ln fs (park_lane x k ln fs1)"
    and enqueue: "\<And>k ln fs fs1 task. \<lbrakk>k < length (fc_inner cfg); takeLaneRewind (fc_inner cfg) x k fs = (None, fs1);
        fi_id (fc_inner cfg ! k) = SPRINT_VISUAL_VERIFY_STEP\<rbrakk> \<Longrightarrow> P k ln fs (ln, AwEnqueue k task (ln_attempt ln), fs1)"
  shows "P k ln fs (lane_from cfg x k ln fs)"
proof -
  have "cfg' = cfg \<Longrightarrow> x' = x \<Longrightarrow> P k ln fs (lane_from cfg' x' k ln fs)" for cfg' x'
  proof (induction cfg' x' k ln fs rule: lane_from.induct)
    case (1 cfg' x' k ln fs)
    note eq = "1.prems"
    obtain t fs1 where t: "takeLaneRewind (fc_inner cfg) x k fs = (t, fs1)" by fastforce
    let ?s = "fc_inner cfg ! k"
    consider (stop) "fs_aborted fs \<or> k \<ge> length (fc_inner cfg)"
      | (rewind) target where "\<not> fs_aborted fs" "k < length (fc_inner cfg)" "t = Some target"
      | (go) "\<not> fs_aborted fs" "k < length (fc_inner cfg)" "t = None" by (cases t) fastforce+
    then show ?case
    proof cases
      case stop
      then show ?thesis using aborted [of fs] probe [of fs k ln] ending [of fs k ln] eq by (subst lane_from.simps) auto
    next
      case (rewind target)
      then have "P target (clearStateForRewind cfg target ln) fs1 (lane_from cfg x target (clearStateForRewind cfg target ln) fs1)"
        using "1.IH"(6) [of t fs1 target] t eq by simp
      moreover have "lane_from cfg x k ln fs = lane_from cfg x target (clearStateForRewind cfg target ln) fs1"
        using rewind t by (subst lane_from.simps) simp
      ultimately show ?thesis using assms(4) t rewind eq by simp
    next
      case go
      have eqn: "lane_from cfg x k ln fs =
          (if fi_id ?s \<in> fs_userSkipped fs1 then lane_from cfg x (Suc k) ln fs1
            else if fi_id ?s \<noteq> SPRINT_VISUAL_VERIFY_STEP then spawn cfg x k ?s ln fs1
            else if \<not> fs_visualActive fs1 then lane_from cfg x (Suc k) ln fs1
            else if unavailable (posture fs1) then lane_from cfg x (Suc k) ln fs1
            else case ln_task ln of
                   None \<Rightarrow> if ln_adopted ln then park_lane x k ln fs1 else lane_from cfg x (Suc k) ln fs1
                 | Some task \<Rightarrow>
                     if fc_enqueueSeam cfg then (ln, AwEnqueue k task (ln_attempt ln), fs1)
                     else lane_from cfg x (Suc k) ln (declined x ''no-enqueue-capability'' fs1))"
        using go t by (subst lane_from.simps) simp
      have n: "P k ln fs out" if "fi_id ?s \<in> fs_userSkipped fs1 \<or> fi_id ?s = SPRINT_VISUAL_VERIFY_STEP"
        "fs2 = fs1 \<or> (\<exists>r. fs2 = declined x r fs1)" "P (Suc k) ln fs2 out" for fs2 out
        using assms(5) [OF go(2), of fs fs1] t go that by blast
      have n2: "P k ln fs out" if "fi_id ?s = SPRINT_VISUAL_VERIFY_STEP" "P (Suc k) ln (declined x r fs1) out" for r out
        using n that by blast
      have sp: "P k ln fs (spawn cfg x k ?s ln fs1)" if "fi_id ?s \<notin> fs_userSkipped fs1" "fi_id ?s \<noteq> SPRINT_VISUAL_VERIFY_STEP"
        using spawned [OF go(2), of fs fs1] t go that by blast
      have pk: "P k ln fs (park_lane x k ln fs1)" "P k ln fs (ln, AwEnqueue k task (ln_attempt ln), fs1)"
        if "fi_id ?s = SPRINT_VISUAL_VERIFY_STEP" for task
        using parked [OF go(2), of fs fs1] enqueue [OF go(2), of fs fs1] t go that by blast+
      have i1: "P (Suc k) ln fs1 (lane_from cfg x (Suc k) ln fs1)"
        if "fi_id ?s \<in> fs_userSkipped fs1 \<or> fi_id ?s = SPRINT_VISUAL_VERIFY_STEP \<and>
          (\<not> fs_visualActive fs1 \<or> unavailable (posture fs1) \<or> ln_task ln = None \<and> \<not> ln_adopted ln)"
        using "1.IH"(1-4) [of t fs1 ?s] go t eq that
        by (cases "fi_id ?s \<in> fs_userSkipped fs1"; cases "fs_visualActive fs1"; cases "unavailable (posture fs1)"; simp)
      have i2: "P (Suc k) ln (declined x ''no-enqueue-capability'' fs1)
          (lane_from cfg x (Suc k) ln (declined x ''no-enqueue-capability'' fs1))"
        if "fi_id ?s \<notin> fs_userSkipped fs1" "fi_id ?s = SPRINT_VISUAL_VERIFY_STEP" "fs_visualActive fs1"
          "\<not> unavailable (posture fs1)" "ln_task ln = Some task" "\<not> fc_enqueueSeam cfg" for task
        using "1.IH"(5) [of t fs1 ?s task] go t eq that by auto
      show ?thesis unfolding eq eqn
        using n [OF _ _ i1] n2 [OF _ i2] sp pk by (simp split: option.splits)
    qed
  qed
  then show ?thesis by simp
qed

section \<open>What a resumption keeps\<close>

lemma rewind_frame:
  assumes "takeLaneRewind inner x k fs = (t, fs1)"
  shows "fs1 = fs \<or> fs1 = fs\<lparr>fs_rewinds := (fs_rewinds fs)(x := None)\<rparr>"
  using assms by (auto simp: takeLaneRewind_def split: option.splits)

lemma declined_frame [simp]:
  "fs_rescues (declined x r fs) = fs_rescues fs" "fs_latch (declined x r fs) = fs_latch fs"
  "fs_released (declined x r fs) = fs_released fs" "fs_early (declined x r fs) = fs_early fs"
  "fs_userSkipped (declined x r fs) = fs_userSkipped fs" "fs_aborted (declined x r fs) = fs_aborted fs"
  "fs_writes (declined x r fs) = fs_writes fs" "fs_overlapped (declined x r fs) = fs_overlapped fs"
  by (simp_all add: declined_def reportVerificationSkipped_def maybeFlipPostureUnavailable_def
      declareNoVerifiableModality_def)

text \<open>The shared state that only the triage changes.\<close>

definition kept :: "string \<Rightarrow> fan \<Rightarrow> fan \<Rightarrow> bool" where
  "kept x fs fs' \<longleftrightarrow> fs_rescues fs' = fs_rescues fs \<and> fs_latch fs' = fs_latch fs \<and> fs_released fs' = fs_released fs \<and>
     fs_early fs' = fs_early fs \<and> fs_userSkipped fs' = fs_userSkipped fs \<and>
     (\<forall>y. fs_rewinds fs' y = fs_rewinds fs y \<or> y = x \<and> fs_rewinds fs' y = None)"

lemma kept_trans: "kept x fs fs1 \<Longrightarrow> kept x fs1 fs2 \<Longrightarrow> kept x fs fs2"
  unfolding kept_def by metis

lemma kept_simps [simp]:
  "kept x fs fs" "kept x fs (put w fs)" "kept x fs (declined y r fs)" "kept x fs (put_status y st fs)"
  "kept x fs (reportVerificationSkipped y r fs)" "kept x fs (revive cfg y site fs)"
  by (simp_all add: declined_rewinds kept_def put_def put_status_def revive_def reportVerificationSkipped_def)

lemma kept_rewind: "takeLaneRewind inner x k fs = (t, fs1) \<Longrightarrow> kept x fs fs1"
  using rewind_frame [of inner x k fs t fs1] by (auto simp: kept_def split: if_splits)

fun statuses :: "lane_write list \<Rightarrow> (string \<times> SprintBatchTaskStatus) list" where
  "statuses [] = []"
| "statuses (Drive x (Some st) _ _ # ws) = (x, st) # statuses ws"
| "statuses (_ # ws) = statuses ws"

lemma statuses_append [simp]: "statuses (xs @ ys) = statuses xs @ statuses ys"
  by (induction xs rule: statuses.induct) auto

text \<open>The status a lane that ends this way has written.\<close>

fun final_status :: "string \<Rightarrow> 'v lane_wait \<Rightarrow> (string \<times> SprintBatchTaskStatus) list" where
  "final_status x (LaneOver LaneDone) = [(x, SbIntegrated)]"
| "final_status x (LaneOver (LaneFailed _ persisted)) = (if persisted then [(x, SbFailed)] else [])"
| "final_status x _ = []"

definition wrote :: "string \<Rightarrow> fan \<Rightarrow> 'v lane_wait \<Rightarrow> fan \<Rightarrow> bool" where
  "wrote x fs w fs' \<longleftrightarrow> (\<exists>ws. fs_writes fs' = fs_writes fs @ ws \<and> statuses ws = final_status x w)"

lemma wrote_after: "fs_writes fs1 = fs_writes fs \<Longrightarrow> wrote x fs1 w fs' \<Longrightarrow> wrote x fs w fs'"
  by (simp add: wrote_def)

text \<open>A run of the loop: it keeps the triage state, the attempt and the probe, it stops at an await of the
  chain or at the end, and it writes what that end stands for.\<close>

fun loop_stop :: "'v fan_cfg \<Rightarrow> bool \<Rightarrow> 'v lane_wait \<Rightarrow> bool" where
  "loop_stop cfg probe (AwStep k _) = (k < length (fc_inner cfg) \<and> fi_id (fc_inner cfg ! k) \<noteq> SPRINT_VISUAL_VERIFY_STEP)"
| "loop_stop cfg probe (AwEnqueue k _ _) = (k < length (fc_inner cfg) \<and> fi_id (fc_inner cfg ! k) = SPRINT_VISUAL_VERIFY_STEP)"
| "loop_stop cfg probe (AwGate k) = (k < length (fc_inner cfg) \<and> fi_id (fc_inner cfg ! k) = SPRINT_VISUAL_VERIFY_STEP)"
| "loop_stop cfg probe AwProbe = probe"
| "loop_stop cfg probe (LaneOver oc) = (oc = LaneAborted \<or> oc = LaneDone \<and> \<not> probe)"
| "loop_stop cfg probe _ = False"

definition loop_out :: "'v fan_cfg \<Rightarrow> string \<Rightarrow> 'v lane \<Rightarrow> fan \<Rightarrow> 'v lane_out \<Rightarrow> bool" where
  "loop_out cfg x ln fs out \<longleftrightarrow>
     (case out of (ln', w, fs') \<Rightarrow>
        kept x fs fs' \<and> ln_attempt ln' = ln_attempt ln \<and> ln_probe ln' = ln_probe ln \<and>
        loop_stop cfg (ln_probe ln) w \<and> wrote x fs w fs')"

lemma clear_frame [simp]:
  "ln_attempt (clearStateForRewind cfg t ln) = ln_attempt ln" "ln_probe (clearStateForRewind cfg t ln) = ln_probe ln"
  by (simp_all add: clearStateForRewind_def)

lemma loop_out_step:
  assumes "loop_out cfg x ln1 fs1 out" and "kept x fs fs1" and "fs_writes fs1 = fs_writes fs"
    and "ln_attempt ln1 = ln_attempt ln" and "ln_probe ln1 = ln_probe ln"
  shows "loop_out cfg x ln fs out"
  using assms kept_trans wrote_after unfolding loop_out_def by (auto split: prod.splits)

lemma rewind_writes: "takeLaneRewind inner x k fs = (t, fs1) \<Longrightarrow> fs_writes fs1 = fs_writes fs"
  using rewind_frame [of inner x k fs t fs1] by auto

lemma loop_out_put:
  assumes "takeLaneRewind inner x k fs = (t, fs1)" and "ln_attempt ln' = ln_attempt ln" and "ln_probe ln' = ln_probe ln"
    and "loop_stop cfg (ln_probe ln) w" and "final_status x w = []"
  shows "loop_out cfg x ln fs (ln', w, put (Drive x None p a) fs1)" "loop_out cfg x ln fs (ln', w, fs1)"
  using assms kept_rewind [OF assms(1)] rewind_writes [OF assms(1)] kept_trans [of x fs fs1]
  by (auto simp: loop_out_def wrote_def put_def kept_def)

lemma lane_from_out: "loop_out cfg x ln fs (lane_from cfg x k ln fs)"
proof (induction rule: lane_from_rule)
  case (aborted k ln fs)
  then show ?case by (simp add: loop_out_def wrote_def)
next
  case (probe k ln fs)
  then show ?case by (simp add: loop_out_def wrote_def)
next
  case (ending k ln fs)
  then show ?case by (simp add: loop_out_def wrote_def integrate_def put_status_def put_def kept_def)
next
  case (rewind k ln fs t fs1 out)
  then show ?case using kept_rewind rewind_writes by (intro loop_out_step [OF rewind(3)]) auto
next
  case (next_step k ln fs fs1 fs2 out)
  have "kept x fs fs2 \<and> fs_writes fs2 = fs_writes fs"
    using kept_rewind [OF next_step(2)] rewind_writes [OF next_step(2)] next_step(4) kept_trans [OF _ kept_simps(3)] by auto
  then show ?case by (intro loop_out_step [OF next_step(5)]) auto
next
  case (spawned k ln fs fs1)
  then show ?case unfolding spawn_def by (intro loop_out_put(1) [OF spawned(2)]) simp_all
next
  case (parked k ln fs fs1)
  then show ?case unfolding park_lane_def by (intro loop_out_put(1) [OF parked(2)]) simp_all
next
  case (enqueue k ln fs fs1 task)
  then show ?case by (intro loop_out_put(2) [OF enqueue(2)]) simp_all
qed

end
