(* ===== verification/LaneContract.thy ===== *)
theory LaneContract
  imports LaneLoop
begin

text \<open>
  Contracts of a resumption. A predicate that holds of every run of the loop, of both settling writes and
  of every outcome without a status write, and that a change outside the triage state cannot break, holds of
  the answer to every \<open>await\<close> but the two of the triage (locale \<open>lane_contract\<close>). The instances: the
  status writes match the outcome (\<open>wrote_out\<close>), and the triage state is untouched (\<open>kept_out\<close>).
\<close>

section \<open>The contract\<close>

definition quiet :: "fan \<Rightarrow> fan \<Rightarrow> bool" where
  "quiet fs fs' \<longleftrightarrow> (\<exists>ws. fs_writes fs' = fs_writes fs @ ws \<and> statuses ws = [])"

lemma quiet_same: "fs_writes fs' = fs_writes fs \<Longrightarrow> quiet fs fs'"
  by (simp add: quiet_def)

lemma quiet_revive: "quiet fs (revive cfg x st fs)"
  by (simp add: quiet_def revive_def put_def)

text \<open>The two awaits of the triage.\<close>

fun in_turn :: "'v lane_wait \<Rightarrow> bool" where
  "in_turn (AwTurn _ _) = True"
| "in_turn _ = False"

fun in_consult :: "'v lane_wait \<Rightarrow> bool" where
  "in_consult (AwConsult _ _ _ _) = True"
| "in_consult _ = False"

locale lane_contract =
  fixes holds :: "string \<Rightarrow> fan \<Rightarrow> 'v lane_out \<Rightarrow> bool"
  assumes loops: "holds x fs (lane_from cfg x k ln fs)"
    and settles: "holds x fs (integrate x ln fs)" "holds x fs (fail_now x ln fs)"
    and waits: "final_status x w = [] \<Longrightarrow> \<not> in_consult w \<Longrightarrow> holds x fs (ln, w, fs)"
    and later: "kept x fs fs1 \<Longrightarrow> quiet fs fs1 \<Longrightarrow> holds x fs1 out \<Longrightarrow> holds x fs out"
begin

lemma step_defects:
  "holds x fs (loop_back cfg x t ln fs)" "holds x fs (triage_parks e sid ln fs)"
  "holds x fs (step_defect cfg x k f g fb ln fs)" "holds x fs (task_verified cfg x k text ln fs)"
  using loops settles waits
  by (simp_all add: loop_back_def triage_parks_def step_defect_def task_verified_def split: option.splits visual_section.splits)

lemma verified: "holds x fs (after_task_verify cfg x k res ln fs)"
proof -
  have "holds x fs (lane_from cfg x j l (reportVerificationSkipped x no_result_text fs))" for j l
    by (rule later [OF _ _ loops]) (simp, simp add: quiet_same reportVerificationSkipped_def)
  then show ?thesis using loops step_defects by (simp add: after_task_verify_def Let_def split: option.splits)
qed

lemma rewinds:
  assumes "rewound cfg x k fs = (t, fs1)" and "holds x fs1 out" shows "holds x fs out"
proof -
  have "kept x fs fs1 \<and> fs_writes fs1 = fs_writes fs"
    using assms(1) rewind_writes kept_rewind by (auto simp: rewound_def split: if_splits)
  then show ?thesis using later [OF _ quiet_same assms(2)] by blast
qed

lemma after_steps: "holds x fs (after_step cfg x k r ln fs)"
proof -
  obtain t fs1 where t: "rewound cfg x k fs = (t, fs1)" by fastforce
  have "holds x fs1 (step_failed_lane cfg x k r ln fs1)" "holds x fs1 (step_ok cfg x k r ln fs1)"
    using loops waits step_defects verified by (simp_all add: step_failed_lane_def step_ok_def Let_def split: option.splits)
  then show ?thesis using t loops waits
    by (intro rewinds [OF t]) (simp add: after_step_def split: option.splits StepRunStatus.splits)
qed

lemma after_gates: "holds x fs (after_gate cfg x k oc ln fs)"
proof -
  obtain t fs1 where t: "rewound cfg x k fs = (t, fs1)" by fastforce
  have "holds x fs1 (gate_loopback cfg x k a fb ln fs1)" for a fb
    using loops waits by (simp add: gate_loopback_def Let_def split: option.splits)
  then show ?thesis using t loops waits
    by (intro rewinds [OF t]) (simp add: after_gate_def split: option.splits VisualGateOutcome.splits)
qed

lemma probes: "holds x fs (checkCommitIntegrity cfg x answer ln fs)"
  using loops settles waits
  by (simp add: checkCommitIntegrity_def Let_def split: option.splits BuildSlotCheck.splits)

lemma sites: "holds x fs (settle_site cfg x k st v ln fs)"
  using loops settles waits step_defects by (cases st; cases v; simp)

lemma triage: "holds x fs (triaged cfg x k st v ln fs)"
proof -
  have "holds x fs (settle_site cfg x k st u l (revive cfg x st fs))" for u l
    by (rule later [OF _ quiet_revive sites]) simp
  then show ?thesis using sites by (simp add: triaged_def split: LaneTriageVerdict.splits)
qed

lemma enqueues:
  "holds x fs (case e of Enqueued \<Rightarrow> park_lane x k ln fs
     | EnqueueSkipped reason \<Rightarrow> lane_from cfg x (Suc k) ln (declined x reason fs))"
proof (cases e)
  case Enqueued
  have "holds x fs (ln, AwGate k, put (Drive x None (Some AWAITING_VERIFY_STEP) None) fs)"
    by (rule later [OF _ _ waits]) (simp, simp add: quiet_def put_def, simp_all)
  then show ?thesis using Enqueued by (simp add: park_lane_def)
next
  case (EnqueueSkipped reason)
  have "holds x fs (lane_from cfg x (Suc k) ln (declined x reason fs))"
    by (rule later [OF _ _ loops]) (simp_all add: quiet_same)
  then show ?thesis using EnqueueSkipped by simp
qed

lemma resumes:
  assumes "lane_resume cfg x w ans ln fs = Some out"
    and "\<not> in_turn w" "\<not> in_consult w"
  shows "holds x fs out"
  using assms loops waits after_steps after_gates probes enqueues by (cases w; cases ans; fastforce)

end

section \<open>Status writes\<close>

definition wrote_out :: "string \<Rightarrow> fan \<Rightarrow> 'v lane_out \<Rightarrow> bool" where
  "wrote_out x fs out \<longleftrightarrow> (case out of (ln, w, fs') \<Rightarrow> wrote x fs w fs')"

lemma wrote_quiet:
  assumes "quiet fs fs1" and "wrote_out x fs1 out" shows "wrote_out x fs out"
proof -
  obtain ws where ws: "fs_writes fs1 = fs_writes fs @ ws" "statuses ws = []" using assms(1) by (auto simp: quiet_def)
  obtain ln w fs' where out: "out = (ln, w, fs')" by (cases out) auto
  obtain vs where "fs_writes fs' = fs_writes fs1 @ vs" "statuses vs = final_status x w"
    using assms(2) by (auto simp: out wrote_out_def wrote_def)
  then have "fs_writes fs' = fs_writes fs @ (ws @ vs) \<and> statuses (ws @ vs) = final_status x w" using ws by simp
  then show ?thesis unfolding out wrote_out_def wrote_def by blast
qed

interpretation status: lane_contract wrote_out
proof (unfold_locales, goal_cases)
  case (1 x fs cfg k ln)
  then show ?case using lane_from_out [of cfg x ln fs k] by (simp add: loop_out_def wrote_out_def split: prod.splits)
next
  case (5 fs fs1 x out)
  then show ?case using wrote_quiet by blast
qed (simp_all add: wrote_out_def wrote_def integrate_def fail_now_def put_status_def put_def)

section \<open>The triage state\<close>

definition kept_out :: "string \<Rightarrow> fan \<Rightarrow> 'v lane_out \<Rightarrow> bool" where
  "kept_out x fs out \<longleftrightarrow> (case out of (ln, w, fs') \<Rightarrow> kept x fs fs' \<and> \<not> in_consult w)"

interpretation budget: lane_contract kept_out
proof (unfold_locales, goal_cases)
  case (1 x fs cfg k ln)
  have "loop_stop cfg p w \<Longrightarrow> \<not> in_consult w" for p and w :: "'a lane_wait" by (cases w) simp_all
  then show ?case using lane_from_out [of cfg x ln fs k] by (auto simp: loop_out_def kept_out_def split: prod.splits)
next
  case (5 fs fs1 x out)
  then show ?case using kept_trans by (auto simp: kept_out_def)
qed (simp_all add: kept_out_def integrate_def fail_now_def)

section \<open>The two awaits of the triage\<close>

lemma consult_writes:
  "fs_writes (snd (consult_early inner x sid a kind t fs)) = fs_writes fs"
  "fs_writes (snd (consult_exhausted inner x sid a kind t u fs)) = fs_writes fs"
  "fs_writes (snd (answer_early inner x answer fs)) = fs_writes fs"
  "fs_writes (snd (answer_exhausted inner x cs answer fs)) = fs_writes fs"
  by (auto simp: consult_early_def consult_exhausted_def answer_early_def answer_exhausted_def Let_def set_budget_def
      releaseReservation_def set_guidance_def add_history_def refund_run_def split: option.splits LaneRescueOutcome.splits)

lemma consult_at_writes: "consult_at cfg x k st ln fs = (c, fs1) \<Longrightarrow> fs_writes fs1 = fs_writes fs"
  using consult_writes(1,2) by (auto simp: consult_at_def Let_def dest!: arg_cong [where f = snd] split: if_splits)

lemma answer_at_writes: "answer_at cfg x cs answer fs = (v, fs1) \<Longrightarrow> fs_writes fs1 = fs_writes fs"
  using consult_writes(3,4) by (auto simp: answer_at_def dest!: arg_cong [where f = snd] split: if_splits)

lemma wrote_turn: "wrote_out x fs (triage_turn cfg x k st ln fs)"
proof -
  obtain c fs1 where c: "consult_at cfg x k st ln fs = (c, fs1)" by fastforce
  then have q: "quiet fs fs1" by (intro quiet_same consult_at_writes)
  then have "wrote_out x fs (triaged cfg x k st v ln fs1)" for v by (rule wrote_quiet) (rule status.triage)
  moreover have "wrote_out x fs (ln, AwConsult k st rq cs, fs1)" for rq cs
    using q by (rule wrote_quiet) (simp add: wrote_out_def wrote_def)
  ultimately show ?thesis using status.triage [of x fs cfg k st _ ln]
    by (simp add: triage_turn_def c split: option.splits prod.splits)
qed

lemma wrote_answer: "wrote_out x fs (triage_answer cfg x k st cs answer ln fs)"
proof -
  obtain v fs1 where c: "answer_at cfg x cs answer fs = (v, fs1)" by fastforce
  have "quiet fs (case v of VerdictSystemic e \<Rightarrow> fs1\<lparr>fs_latch := Some e\<rparr> | _ \<Rightarrow> fs1)"
    using answer_at_writes [OF c] by (auto intro!: quiet_same split: LaneTriageVerdict.splits)
  from wrote_quiet [OF this status.triage] show ?thesis by (simp add: triage_answer_def c)
qed

lemma resume_wrote:
  assumes "lane_resume cfg x w ans ln fs = Some out" shows "wrote_out x fs out"
  using assms status.resumes [OF assms] wrote_turn wrote_answer by (cases w; cases ans; fastforce)

end
