(* ===== verification/LaneBounds.thy ===== *)
theory LaneBounds
  imports LaneContract
begin

text \<open>
  The bounds of one walk. \<open>lane_ok\<close>: what a suspended lane keeps of its position, its attempt and its
  reserved rescue. \<open>weight\<close>: a number that every resumption without an operator rewind lowers; a loopback,
  a rescue and a contract retry each pay with a counter, a step forward with the position.
\<close>

section \<open>What a suspended lane keeps\<close>

definition used :: "fan \<Rightarrow> string \<Rightarrow> nat" where
  "used fs x = used_of (ls_perItem (fs_rescues fs)) x"

fun at_end :: "site \<Rightarrow> bool" where
  "at_end (DirtyTree _ _) = True"
| "at_end (SlotsRefused _) = True"
| "at_end _ = False"

definition site_ok :: "'v fan_cfg \<Rightarrow> nat \<Rightarrow> site \<Rightarrow> 'v lane \<Rightarrow> bool" where
  "site_ok cfg k st ln \<longleftrightarrow>
     (if at_end st then k = length (fc_inner cfg) else k < length (fc_inner cfg)) \<and> (site_early st \<longrightarrow> final_attempt ln)"

fun wait_ok :: "'v fan_cfg \<Rightarrow> 'v lane_wait \<Rightarrow> 'v lane \<Rightarrow> bool" where
  "wait_ok cfg (AwStep k _) ln = (k < length (fc_inner cfg))"
| "wait_ok cfg (AwEnqueue k _ _) ln = (k < length (fc_inner cfg))"
| "wait_ok cfg (AwGate k) ln = (k < length (fc_inner cfg))"
| "wait_ok cfg (AwTurn k st) ln = site_ok cfg k st ln"
| "wait_ok cfg (AwConsult k st _ cs) ln = (site_ok cfg k st ln \<and> (cs_stage cs = StageEarly \<longleftrightarrow> site_early st))"
| "wait_ok cfg _ ln = True"

text \<open>The rescue a lane has reserved for the consult it waits for.\<close>

fun reserved :: "'v lane_wait \<Rightarrow> nat" where
  "reserved (AwConsult _ _ _ cs) = (if cs_stage cs = StageExhausted then 1 else 0)"
| "reserved _ = 0"

fun reservation_ok :: "'v lane_wait \<Rightarrow> nat \<Rightarrow> bool" where
  "reservation_ok (AwConsult _ _ _ cs) n = (cs_stage cs = StageExhausted \<longrightarrow> n = Suc (cs_used cs))"
| "reservation_ok _ n = True"

definition lane_ok :: "'v fan_cfg \<Rightarrow> string \<Rightarrow> 'v lane_out \<Rightarrow> bool" where
  "lane_ok cfg x out \<longleftrightarrow>
     (case out of (ln, w, fs) \<Rightarrow>
        wait_ok cfg w ln \<and> reservation_ok w (used fs x) \<and> used fs x \<le> MONITOR_LANE_RESCUE_CAP \<and>
        ln_attempt ln + reserved w \<le> FAN_OUT_LANE_ATTEMPT_CAP + used fs x)"

section \<open>The weight of a lane\<close>

fun rank :: "nat \<Rightarrow> 'v lane_wait \<Rightarrow> nat" where
  "rank n AwProbeOpen = 5 * n + 5"
| "rank n (AwStep k _) = 5 * (n - k) + 4"
| "rank n (AwEnqueue k _ _) = 5 * (n - k) + 4"
| "rank n (AwGate k) = 5 * (n - k) + 3"
| "rank n AwProbe = 4"
| "rank n (AwTurn k _) = 5 * (n - k) + 2"
| "rank n (AwConsult k _ _ _) = 5 * (n - k) + 1"
| "rank n (LaneOver _) = 0"

definition fuel :: "nat \<Rightarrow> 'v lane \<Rightarrow> nat" where
  "fuel c ln = 2 * ((MONITOR_LANE_RESCUE_CAP - c) + (FAN_OUT_LANE_ATTEMPT_CAP - ln_attempt ln)) + (1 - ln_contractRetries ln)"

definition weight :: "'v fan_cfg \<Rightarrow> string \<Rightarrow> 'v lane_out \<Rightarrow> nat" where
  "weight cfg x out =
     (case out of (ln, w, fs) \<Rightarrow>
        fuel (used fs x - reserved w) ln * (5 * length (fc_inner cfg) + 6) + rank (length (fc_inner cfg)) w)"

lemmas cap_defs = MONITOR_LANE_RESCUE_CAP_def FAN_OUT_LANE_ATTEMPT_CAP_def

text \<open>The outcome of an operation that starts with \<open>c\<close> rescues spent: it keeps the lane well formed, and
  without a pending rewind (\<open>still\<close>) it weighs less than \<open>n\<close>.\<close>

definition within :: "'v fan_cfg \<Rightarrow> string \<Rightarrow> bool \<Rightarrow> nat \<Rightarrow> nat \<Rightarrow> 'v lane_out \<Rightarrow> bool" where
  "within cfg x still c n out \<longleftrightarrow>
     lane_ok cfg x out \<and> (case out of (ln, w, fs) \<Rightarrow> used fs x = c) \<and> (still \<longrightarrow> weight cfg x out < n)"

definition base :: "'v fan_cfg \<Rightarrow> nat \<Rightarrow> 'v lane \<Rightarrow> nat" where
  "base cfg c ln = fuel c ln * (5 * length (fc_inner cfg) + 6)"

lemma fuel_lower:
  assumes "fuel c' ln' < fuel c ln" and "r < 5 * length (fc_inner cfg) + 6"
  shows "base cfg c' ln' + r < base cfg c ln"
proof -
  have "Suc (fuel c' ln') * (5 * length (fc_inner cfg) + 6) \<le> fuel c ln * (5 * length (fc_inner cfg) + 6)"
    using assms(1) by (intro mult_le_mono1) simp
  then show ?thesis using assms(2) by (simp add: base_def)
qed

section \<open>The loop\<close>

text \<open>Without a rewind the loop only moves forward and leaves the retry counter alone.\<close>

fun ahead :: "nat \<Rightarrow> 'v lane_wait \<Rightarrow> bool" where
  "ahead k (AwStep j _) = (k \<le> j)"
| "ahead k (AwEnqueue j _ _) = (k \<le> j)"
| "ahead k (AwGate j) = (k \<le> j)"
| "ahead k _ = True"

lemma ahead_le: "ahead (Suc k) w \<Longrightarrow> ahead k w"
  by (cases w) auto

lemma declined_rewinds_of [simp]: "fs_rewinds (declined x r fs) = fs_rewinds fs"
  by (rule declined_rewinds)

lemma lane_from_ahead:
  "fs_rewinds fs x = None \<Longrightarrow>
     (case lane_from cfg x k ln fs of (ln', w, fs') \<Rightarrow> ln_contractRetries ln' = ln_contractRetries ln \<and> ahead k w)"
proof (induction rule: lane_from_rule)
  case (rewind k ln fs t fs1 out)
  then show ?case by (simp add: takeLaneRewind_none)
next
  case (next_step k ln fs fs1 fs2 out)
  then have "fs_rewinds fs2 x = None" by (auto simp: takeLaneRewind_none)
  then show ?case using next_step.IH ahead_le by (auto split: prod.splits)
qed (simp_all add: integrate_def spawn_def park_lane_def)

lemma loop_rank:
  "loop_stop cfg p w \<Longrightarrow> ahead k w \<Longrightarrow> rank (length (fc_inner cfg)) w \<le> 5 * (length (fc_inner cfg) - k) + 4"
  by (cases w) auto

lemma loop_wait: "loop_stop cfg p w \<Longrightarrow> wait_ok cfg w ln \<and> reserved w = 0 \<and> reservation_ok w n"
  by (cases w) auto

lemma from_within:
  assumes "used fs x = c" and "c \<le> MONITOR_LANE_RESCUE_CAP" and "ln_attempt ln \<le> FAN_OUT_LANE_ATTEMPT_CAP + c"
    and "still \<Longrightarrow> fs_rewinds fs x = None \<and> base cfg c ln + 5 * (length (fc_inner cfg) - k) + 4 < n"
  shows "within cfg x still c n (lane_from cfg x k ln fs)"
proof -
  obtain ln' w fs' where out: "lane_from cfg x k ln fs = (ln', w, fs')" by (cases "lane_from cfg x k ln fs") auto
  then have o: "kept x fs fs'" "ln_attempt ln' = ln_attempt ln" "loop_stop cfg (ln_probe ln) w"
    using lane_from_out [of cfg x ln fs k] by (simp_all add: loop_out_def)
  then have u: "used fs' x = c" using assms(1) by (simp add: kept_def used_def)
  have "weight cfg x (ln', w, fs') < n" if still
  proof -
    have "ln_contractRetries ln' = ln_contractRetries ln" "ahead k w"
      using lane_from_ahead [where cfg = cfg and x = x and k = k and ln = ln and fs = fs] assms(4) that out by simp_all
    then have "weight cfg x (ln', w, fs') \<le> base cfg c ln + (5 * (length (fc_inner cfg) - k) + 4)"
      using loop_rank [OF o(3)] loop_wait [OF o(3)] u o(2) by (simp add: weight_def base_def fuel_def)
    then show ?thesis using assms(4) that by simp
  qed
  then show ?thesis using loop_wait [OF o(3)] u o(2) assms(2,3) by (simp add: within_def out lane_ok_def)
qed

text \<open>A jump that pays with a counter, wherever it lands.\<close>

lemma from_lower:
  assumes "used fs x = c" and "c \<le> MONITOR_LANE_RESCUE_CAP" and "ln_attempt ln \<le> FAN_OUT_LANE_ATTEMPT_CAP + c"
    and "still \<Longrightarrow> fs_rewinds fs x = None \<and> fuel c ln < f" and "f * (5 * length (fc_inner cfg) + 6) \<le> n"
  shows "within cfg x still c n (lane_from cfg x k ln fs)"
proof (rule from_within [OF assms(1-3)])
  assume s: still
  have "Suc (fuel c ln) * (5 * length (fc_inner cfg) + 6) \<le> f * (5 * length (fc_inner cfg) + 6)"
    using assms(4) s by (intro mult_le_mono1) simp
  then show "fs_rewinds fs x = None \<and> base cfg c ln + 5 * (length (fc_inner cfg) - k) + 4 < n"
    using assms(4,5) s by (simp add: base_def)
qed

end
