(* ===== verification/LaneSteps.thy ===== *)
theory LaneSteps
  imports LaneBounds
begin

text \<open>
  Every resumption keeps \<open>lane_ok\<close> and, while no operator rewind is pending for the lane, lowers its
  \<open>weight\<close>: first each operation of the walk from a state with enough room, then the machine.
\<close>

section \<open>Room for a step forward\<close>

definition room :: "'v fan_cfg \<Rightarrow> string \<Rightarrow> bool \<Rightarrow> nat \<Rightarrow> nat \<Rightarrow> nat \<Rightarrow> 'v lane \<Rightarrow> fan \<Rightarrow> bool" where
  "room cfg x still c n k ln fs \<longleftrightarrow>
     used fs x = c \<and> c \<le> MONITOR_LANE_RESCUE_CAP \<and> ln_attempt ln \<le> FAN_OUT_LANE_ATTEMPT_CAP + c \<and>
     (still \<longrightarrow> fs_rewinds fs x = None \<and> base cfg c ln + 5 * (length (fc_inner cfg) - k) < n)"

lemma room_fs:
  "room cfg x still c n k ln fs \<Longrightarrow> used fs' x = used fs x \<Longrightarrow> fs_rewinds fs' = fs_rewinds fs \<Longrightarrow> room cfg x still c n k ln fs'"
  by (simp add: room_def)

lemma base_cong:
  "ln_attempt ln' = ln_attempt ln \<Longrightarrow> ln_contractRetries ln' = ln_contractRetries ln \<Longrightarrow> base cfg c ln' = base cfg c ln"
  by (simp add: base_def fuel_def)

lemma weight_base:
  "weight cfg x (ln, w, fs) = base cfg (used fs x - reserved w) ln + rank (length (fc_inner cfg)) w"
  by (simp add: weight_def base_def)

lemma next_within:
  assumes "room cfg x still c n k ln fs" and "k < length (fc_inner cfg)"
    and "ln_attempt ln' = ln_attempt ln" and "ln_contractRetries ln' = ln_contractRetries ln"
  shows "within cfg x still c n (lane_from cfg x (Suc k) ln' fs)"
proof (rule from_within)
  assume still
  moreover have "base cfg c ln' = base cfg c ln" using assms(3,4) by (rule base_cong)
  moreover have "length (fc_inner cfg) - k = Suc (length (fc_inner cfg) - Suc k)" using assms(2) by simp
  ultimately show "fs_rewinds fs x = None \<and> base cfg c ln' + 5 * (length (fc_inner cfg) - Suc k) + 4 < n"
    using assms(1,2) by (simp add: room_def)
qed (use assms in \<open>simp_all add: room_def\<close>)

lemma jump_within:
  assumes "room cfg x still c n k ln fs" and "fuel c ln' < fuel c ln" and "ln_attempt ln' \<le> FAN_OUT_LANE_ATTEMPT_CAP + c"
  shows "within cfg x still c n (lane_from cfg x t ln' fs)"
proof (cases still)
  case True
  then show ?thesis using assms
    by (intro from_lower [where f = "fuel c ln"]) (auto simp: room_def base_def)
next
  case False
  then show ?thesis using assms by (intro from_within) (auto simp: room_def)
qed

lemma over_within:
  assumes "room cfg x still c n k ln fs" and "ln_attempt ln' = ln_attempt ln" and "ln_contractRetries ln' = ln_contractRetries ln"
    and "used fs' x = used fs x"
  shows "within cfg x still c n (ln', LaneOver oc, fs')"
  using assms base_cong [OF assms(2,3), of cfg c] by (auto simp: within_def lane_ok_def weight_base room_def)

lemma turn_within:
  assumes "room cfg x still c n k ln fs" and "site_ok cfg k st ln'" and "ln_attempt ln' = ln_attempt ln"
    and "ln_contractRetries ln' = ln_contractRetries ln"
    and "still \<Longrightarrow> base cfg c ln + 5 * (length (fc_inner cfg) - k) + 2 < n"
  shows "within cfg x still c n (ln', AwTurn k st, fs)"
  using assms base_cong [OF assms(3,4), of cfg c] by (auto simp: within_def lane_ok_def weight_base room_def)

lemma settle_within:
  assumes "room cfg x still c n k ln fs"
  shows "within cfg x still c n (integrate x ln fs)" "within cfg x still c n (fail_now x ln fs)"
    "within cfg x still c n (triage_parks e sid ln fs)"
  using over_within [OF assms] by (simp_all add: integrate_def fail_now_def triage_parks_def used_def put_status_def put_def)

section \<open>The answer of a step\<close>

lemma step_defect_within:
  assumes r: "room cfg x still c n k ln fs" and k: "k < length (fc_inner cfg)"
    and st: "\<And>t. site_early (f t) \<and> \<not> at_end (f t)" "\<not> site_early g \<and> \<not> at_end g"
    and n: "still \<Longrightarrow> base cfg c ln + 5 * (length (fc_inner cfg) - k) + 2 < n"
  shows "within cfg x still c n (step_defect cfg x k f g fb ln fs)"
proof -
  have t: "within cfg x still c n (ln, AwTurn k g, fs)"
    using st k n by (intro turn_within [OF r]) (simp_all add: site_ok_def)
  have e: "within cfg x still c n (ln, AwTurn k (f u), fs)" if "final_attempt ln" for u
    using st k n that by (intro turn_within [OF r]) (simp_all add: site_ok_def)
  have j: "within cfg x still c n (loop_back cfg x u (ln\<lparr>ln_feedback := w\<rparr>) fs)"
    if "ln_attempt ln < FAN_OUT_LANE_ATTEMPT_CAP" for u w
    using that unfolding loop_back_def by (intro jump_within [OF r]) (simp_all add: fuel_def cap_defs)
  show ?thesis using t e j by (simp add: step_defect_def split: option.splits)
qed

lemma task_verified_within:
  assumes r: "room cfg x still c n k ln fs" and k: "k < length (fc_inner cfg)"
  shows "within cfg x still c n (task_verified cfg x k text ln fs)"
proof -
  have n: "within cfg x still c n (lane_from cfg x (Suc k) ln' fs)"
    if "ln_attempt ln' = ln_attempt ln" "ln_contractRetries ln' = ln_contractRetries ln" for ln'
    using next_within [OF r k that] .
  have j: "within cfg x still c n (lane_from cfg x k (ln\<lparr>ln_contractRetries := Suc (ln_contractRetries ln), ln_contractError := e\<rparr>) fs)"
    if "\<not> ln_contractRetries ln \<ge> 1" for e
    using that r by (intro jump_within [OF r]) (simp_all add: fuel_def room_def)
  show ?thesis using n j settle_within(2) [OF r] by (simp add: task_verified_def split: visual_section.splits)
qed

lemma after_task_verify_within:
  assumes r: "room cfg x still c n k ln fs" and k: "k < length (fc_inner cfg)"
    and n: "still \<Longrightarrow> base cfg c ln + 5 * (length (fc_inner cfg) - k) + 2 < n"
  shows "within cfg x still c n (after_task_verify cfg x k res ln fs)"
proof -
  let ?l = "ln\<lparr>ln_adopted := False\<rparr>"
  have b: "base cfg c ?l = base cfg c ln" by (simp add: base_def fuel_def)
  have r1: "room cfg x still c n k ?l fs" using r b by (simp add: room_def)
  have r2: "room cfg x still c n k ?l (reportVerificationSkipped x no_result_text fs)"
    using r1 by (rule room_fs) (simp_all add: used_def reportVerificationSkipped_def)
  have "within cfg x still c n (lane_from cfg x (Suc k) (?l\<lparr>ln_task := None\<rparr>) (reportVerificationSkipped x no_result_text fs))"
    by (rule next_within [OF r2 k]) simp_all
  moreover have "within cfg x still c n (step_defect cfg x k (VerifyFinal u) (VerifyExhausted u) None ?l fs)" for u
    using b n by (intro step_defect_within [OF r1 k]) simp_all
  moreover have "within cfg x still c n (lane_from cfg x (Suc k) ?l fs)" by (rule next_within [OF r1 k]) simp_all
  ultimately show ?thesis using task_verified_within [OF r1 k]
    by (simp add: after_task_verify_def Let_def split: option.splits)
qed

text \<open>A pending rewind is consumed at the answer, so nothing is claimed of the weight then.\<close>

lemma rewound_frame:
  assumes "rewound cfg x k fs = (t, fs1)"
  shows "used fs1 x = used fs x" "fs_rewinds fs x = None \<Longrightarrow> t = None \<and> fs1 = fs"
  using assms rewind_frame [of "fc_inner cfg" x k fs t fs1]
  by (auto simp: rewound_def used_def takeLaneRewind_none split: if_splits)

lemma rewind_within:
  assumes "room cfg x False c n k ln fs"
  shows "within cfg x False c n (lane_from cfg x t (clearStateForRewind cfg t ln) fs)"
  using assms by (intro from_within) (simp_all add: room_def)

lemma after_rewound:
  assumes r: "room cfg x still c n k ln fs"
    and go: "\<And>s fs1. room cfg x s c n k ln fs1 \<Longrightarrow> (s \<Longrightarrow> still) \<Longrightarrow> within cfg x s c n (f fs1)"
  shows "within cfg x still c n
     (case rewound cfg x k fs of (Some t, fs1) \<Rightarrow> lane_from cfg x t (clearStateForRewind cfg t ln) fs1 | (None, fs1) \<Rightarrow> f fs1)"
proof -
  obtain t fs1 where t: "rewound cfg x k fs = (t, fs1)" by fastforce
  note fr = rewound_frame [OF t]
  show ?thesis
  proof (cases still)
    case True
    then have "t = None \<and> fs1 = fs" using fr(2) r by (simp add: room_def)
    then show ?thesis using go [OF r] t by simp
  next
    case False
    have "room cfg x False c n k ln fs1" using r fr(1) by (simp add: room_def)
    then show ?thesis using rewind_within go [of False fs1] False t by (auto split: option.splits)
  qed
qed

lemma after_step_within:
  assumes r: "room cfg x still c n k ln fs" and k: "k < length (fc_inner cfg)"
    and n: "still \<Longrightarrow> base cfg c ln + 5 * (length (fc_inner cfg) - k) + 2 < n"
  shows "within cfg x still c n (after_step cfg x k r' ln fs)"
  unfolding after_step_def
proof (rule after_rewound [OF r])
  fix s fs1 assume r1: "room cfg x s c n k ln fs1" and s: "s \<Longrightarrow> still"
  have n1: "base cfg c ln + 5 * (length (fc_inner cfg) - k) + 2 < n" if s using n s that by blast
  have nx: "within cfg x s c n (lane_from cfg x (Suc k) ln fs1)" by (rule next_within [OF r1 k]) simp_all
  have d: "within cfg x s c n (step_defect cfg x k (StepFinal e) (StepExhausted e) None ln fs1)" for e
    using n1 by (intro step_defect_within [OF r1 k]) simp_all
  have rd: "within cfg x s c n (step_defect cfg x k (ReviewFinal t) (ReviewExhausted t) fb ln fs1)" for t fb
    using n1 by (intro step_defect_within [OF r1 k]) simp_all
  have o: "within cfg x s c n (ln, LaneOver oc, fs1)" for oc by (rule over_within [OF r1]) simp_all
  have "within cfg x s c n (step_failed_lane cfg x k r' ln fs1)"
    using nx d o by (simp add: step_failed_lane_def Let_def)
  moreover have "within cfg x s c n (step_ok cfg x k r' ln fs1)"
    using nx rd after_task_verify_within [OF r1 k n1] by (simp add: step_ok_def Let_def split: option.splits)
  ultimately show "within cfg x s c n (case rr_status r' of StAborted \<Rightarrow> (ln, LaneOver LaneAborted, fs1)
      | StFailed \<Rightarrow> step_failed_lane cfg x k r' ln fs1 | StOk \<Rightarrow> step_ok cfg x k r' ln fs1)"
    using o by (simp split: StepRunStatus.splits)
qed

section \<open>The gate and the lane end\<close>

lemma gate_loopback_within:
  assumes r: "room cfg x still c n k ln fs" and k: "k < length (fc_inner cfg)"
    and n: "still \<Longrightarrow> base cfg c ln + 5 * (length (fc_inner cfg) - k) + 2 < n"
  shows "within cfg x still c n (gate_loopback cfg x k a fb ln fs)"
proof -
  let ?l = "ln\<lparr>ln_visualLoopbacks := Suc (ln_visualLoopbacks ln)\<rparr>"
  have "within cfg x still c n (?l, AwTurn k (GateRefused e), fs)" for e
    using k n by (intro turn_within [OF r]) (simp_all add: site_ok_def)
  moreover have "within cfg x still c n
      (lane_from cfg x t (?l\<lparr>ln_attempt := nat a, ln_loopbackStep := u, ln_feedback := fb\<rparr>) fs)"
    if "\<not> a \<le> int (ln_attempt ln)" "\<not> a > int FAN_OUT_LANE_ATTEMPT_CAP" for t u
    using that by (intro jump_within [OF r]) (simp_all add: fuel_def cap_defs)
  ultimately show ?thesis by (simp add: gate_loopback_def Let_def split: option.splits)
qed

lemma after_gate_within:
  assumes r: "room cfg x still c n k ln fs" and k: "k < length (fc_inner cfg)"
    and n: "still \<Longrightarrow> base cfg c ln + 5 * (length (fc_inner cfg) - k) + 2 < n"
  shows "within cfg x still c n (after_gate cfg x k oc ln fs)"
  unfolding after_gate_def
proof (rule after_rewound [OF r])
  fix s fs1 assume r1: "room cfg x s c n k ln fs1" and s: "s \<Longrightarrow> still"
  have n1: "base cfg c ln + 5 * (length (fc_inner cfg) - k) + 2 < n" if s using n s that by blast
  have "within cfg x s c n (lane_from cfg x (Suc k) ln fs1)" by (rule next_within [OF r1 k]) simp_all
  moreover have "within cfg x s c n (ln, LaneOver e, fs1)" for e by (rule over_within [OF r1]) simp_all
  moreover have "within cfg x s c n (ln, AwTurn k GateFailed, fs1)"
    using k n1 by (intro turn_within [OF r1]) (simp_all add: site_ok_def)
  ultimately show "within cfg x s c n (case oc of VgAborted \<Rightarrow> (ln, LaneOver LaneAborted, fs1)
      | VgFailed \<Rightarrow> (ln, AwTurn k GateFailed, fs1) | VgLoopback a fb \<Rightarrow> gate_loopback cfg x k a fb ln fs1
      | VgAdvance \<Rightarrow> lane_from cfg x (Suc k) ln fs1)"
    using gate_loopback_within [OF r1 k n1] by (simp split: VisualGateOutcome.splits)
qed

lemma probe_within:
  assumes r: "room cfg x still c n (length (fc_inner cfg)) ln fs" and n: "still \<Longrightarrow> base cfg c ln + 2 < n"
  shows "within cfg x still c n (checkCommitIntegrity cfg x answer ln fs)"
proof -
  have "within cfg x still c n (ln, AwTurn (length (fc_inner cfg)) st, fs)" if "at_end st \<and> \<not> site_early st" for st
    using n that by (intro turn_within [OF r]) (simp_all add: site_ok_def)
  then show ?thesis using settle_within [OF r]
    by (simp add: checkCommitIntegrity_def Let_def split: option.splits BuildSlotCheck.splits)
qed

section \<open>The triage\<close>

lemma revive_frame [simp]: "used (revive cfg x st fs) y = used fs y" "fs_rewinds (revive cfg x st fs) = fs_rewinds fs"
  by (simp_all add: used_def revive_def put_def)

lemma settled_within:
  assumes r: "room cfg x still c n k ln fs" and st: "site_ok cfg k st ln" and v: "\<And>t. v \<noteq> VerdictRescue t"
  shows "within cfg x still c n (triaged cfg x k st v ln fs)"
proof -
  have nx: "within cfg x still c n (lane_from cfg x (Suc k) l fs1)"
    if "\<not> at_end st" "ln_attempt l = ln_attempt ln" "ln_contractRetries l = ln_contractRetries ln"
      "fs1 = fs \<or> fs1 = revive cfg x st fs" for l fs1
    using st that room_fs [OF r, of fs1] by (intro next_within) (auto simp: site_ok_def)
  have j: "within cfg x still c n (loop_back cfg x t (ln\<lparr>ln_feedback := fb\<rparr>) fs)" if "site_early st" for t fb
    using st that unfolding loop_back_def site_ok_def final_attempt_def
    by (intro jump_within [OF r]) (simp_all add: fuel_def cap_defs)
  have f: "within cfg x still c n (integrate x ln (revive cfg x st fs))"
    by (rule settle_within(1) [OF room_fs [OF r]]) simp_all
  have o: "within cfg x still c n (ln, LaneOver oc, fs)" for oc by (rule over_within [OF r]) simp_all
  have rr: "room cfg x still c n k ln (revive cfg x st fs)" by (rule room_fs [OF r]) simp_all
  note all = nx j [of _ "ln_feedback ln"] j f o settle_within [OF r] settle_within [OF rr]
  show ?thesis
  proof (cases v)
    case (VerdictAccept e)
    then show ?thesis using all by (cases st) (auto simp: triaged_def)
  next
    case (VerdictSystemic e)
    then show ?thesis using all by (cases st) (auto simp: triaged_def)
  next
    case VerdictGiveUp
    then show ?thesis using all by (cases st) (auto simp: triaged_def)
  next
    case VerdictUnconsulted
    then show ?thesis using all by (cases st) (auto simp: triaged_def)
  qed (use v in simp)
qed

lemma clear_retries: "ln_contractRetries (clearStateForRewind cfg t ln) = 0"
  by (simp add: clearStateForRewind_def)

lemma steered_within:
  assumes r: "room cfg x still c n k ln fs" and st: "site_ok cfg k st ln" and e: "site_early st"
  shows "within cfg x still c n (triaged cfg x k st (VerdictRescue t) ln fs)"
proof -
  have "within cfg x still c n (loop_back cfg x t ((clearStateForRewind cfg t ln)\<lparr>ln_feedback := fb\<rparr>) (revive cfg x st fs))" for fb
    using st e unfolding loop_back_def site_ok_def final_attempt_def
    by (intro jump_within [OF room_fs [OF r]]) (simp_all add: fuel_def cap_defs clear_retries)
  from this this [of "ln_feedback (clearStateForRewind cfg t ln)"]
  show ?thesis using e by (cases st) (simp_all add: triaged_def)
qed

lemma rescued_within:
  assumes u: "used fs x = Suc c" "Suc c \<le> MONITOR_LANE_RESCUE_CAP" "ln_attempt ln \<le> FAN_OUT_LANE_ATTEMPT_CAP + c"
    and s: "still \<Longrightarrow> fs_rewinds fs x = None \<and> base cfg c ln \<le> n" and e: "\<not> site_early st"
  shows "within cfg x still (Suc c) n (triaged cfg x k st (VerdictRescue t) ln fs)"
proof -
  have f: "within cfg x still (Suc c) n (lane_from cfg x t ((clearStateForRewind cfg t ln)\<lparr>ln_attempt := a, ln_loopbackStep := l\<rparr>) (revive cfg x st fs))"
    if a: "a = ln_attempt ln \<or> a = Suc (ln_attempt ln)" for a l
  proof (rule from_within)
    assume still
    let ?l = "(clearStateForRewind cfg t ln)\<lparr>ln_attempt := a, ln_loopbackStep := l\<rparr>"
    have "fuel (Suc c) ?l < fuel c ln" using a u(2) by (auto simp: fuel_def clear_retries)
    moreover have "5 * (length (fc_inner cfg) - t) + 4 < 5 * length (fc_inner cfg) + 6"
      using diff_le_self [of "length (fc_inner cfg)" t] by linarith
    ultimately have "base cfg (Suc c) ?l + (5 * (length (fc_inner cfg) - t) + 4) < base cfg c ln" by (rule fuel_lower)
    then    show "fs_rewinds (revive cfg x st fs) x = None \<and>
        base cfg (Suc c) ?l + 5 * (length (fc_inner cfg) - t) + 4 < n" using s \<open>still\<close> by simp
  qed (use u a in auto)
  let ?l = "clearStateForRewind cfg t ln"
  have "?l\<lparr>ln_attempt := ln_attempt ln, ln_loopbackStep := ln_loopbackStep ?l\<rparr> = ?l" by (rule lane.equality) simp_all
  with f [of "ln_attempt ln" "ln_loopbackStep ?l"]
  have g: "within cfg x still (Suc c) n (lane_from cfg x t ?l (revive cfg x st fs))" by simp
  show ?thesis using e f g by (cases st) (simp_all add: triaged_def)
qed

lemma used_set_budget [simp]: "used (set_budget x n m fs) y = (if y = x then n else used fs y)"
  by (simp add: used_def set_budget_def used_of_def)

lemma consult_frame:
  assumes "consult_at cfg x k st ln fs = (c, fs1)"
  shows "fs_rewinds fs1 = fs_rewinds fs" and "c = None \<Longrightarrow> fs1 = fs"
    and "c = Some (rq, cs) \<Longrightarrow> cs_stage cs = (if site_early st then StageEarly else StageExhausted)"
    and "c = Some (rq, cs) \<Longrightarrow> site_early st \<Longrightarrow> used fs1 x = used fs x"
    and "c = Some (rq, cs) \<Longrightarrow> \<not> site_early st \<Longrightarrow>
      used fs1 x = Suc (used fs x) \<and> cs_used cs = used fs x \<and> used fs x < MONITOR_LANE_RESCUE_CAP"
  using assms
  by (auto simp: consult_at_def consult_early_def consult_exhausted_def Let_def set_budget_def used_def used_of_def
      split: if_splits)

lemma answer_frame:
  assumes "answer_at cfg x cs answer fs = (v, fs1)"
  shows "fs_rewinds fs1 = fs_rewinds fs" and "cs_stage cs = StageEarly \<Longrightarrow> used fs1 x = used fs x"
    and "cs_stage cs = StageExhausted \<Longrightarrow> used fs1 x = (case v of VerdictRescue _ \<Rightarrow> used fs x | _ \<Rightarrow> cs_used cs)"
  using assms
  by (auto simp: answer_at_def answer_early_def answer_exhausted_def Let_def set_budget_def used_def used_of_def
      releaseReservation_def set_guidance_def add_history_def refund_run_def
      split: if_splits option.splits LaneRescueOutcome.splits)

lemma turn_within_lane:
  assumes ok: "lane_ok cfg x (ln, AwTurn k st, fs)"
  shows "lane_ok cfg x (triage_turn cfg x k st ln fs) \<and>
    (fs_rewinds fs x = None \<longrightarrow> weight cfg x (triage_turn cfg x k st ln fs) < weight cfg x (ln, AwTurn k st, fs))"
proof -
  let ?n = "weight cfg x (ln, AwTurn k st, fs)"
  let ?still = "fs_rewinds fs x = None"
  have st: "site_ok cfg k st ln" and u: "used fs x \<le> MONITOR_LANE_RESCUE_CAP"
      "ln_attempt ln \<le> FAN_OUT_LANE_ATTEMPT_CAP + used fs x" using ok by (simp_all add: lane_ok_def)
  have r: "room cfg x ?still (used fs x) ?n k ln fs" using u by (simp add: room_def weight_base)
  have t: "within cfg x ?still (used fs x) ?n (triaged cfg x k st v ln fs)" if "\<And>t. v \<noteq> VerdictRescue t" for v
    using settled_within [OF r st that] .
  obtain c fs1 where c: "consult_at cfg x k st ln fs = (c, fs1)" by fastforce
  have a: "lane_ok cfg x (ln, AwConsult k st rq cs, fs1) \<and> weight cfg x (ln, AwConsult k st rq cs, fs1) < ?n"
    if "c = Some (rq, cs)" for rq cs
    using consult_frame [OF c] that st u
    by (cases "site_early st") (simp_all add: lane_ok_def weight_base site_ok_def)
  show ?thesis
  proof (cases "fs_latch fs")
    case None
    then show ?thesis using t [of VerdictUnconsulted] a c consult_frame(2) [OF c]
      by (cases c) (auto simp: triage_turn_def within_def)
  next
    case (Some e)
    then show ?thesis using t [of "VerdictSystemic e"] by (simp add: triage_turn_def within_def)
  qed
qed

lemma answer_within_lane:
  assumes ok: "lane_ok cfg x (ln, AwConsult k st rq cs, fs)"
  shows "lane_ok cfg x (triage_answer cfg x k st cs answer ln fs) \<and>
    (fs_rewinds fs x = None \<longrightarrow>
       weight cfg x (triage_answer cfg x k st cs answer ln fs) < weight cfg x (ln, AwConsult k st rq cs, fs))"
proof -
  let ?n = "weight cfg x (ln, AwConsult k st rq cs, fs)"
  let ?still = "fs_rewinds fs x = None"
  let ?c = "used fs x - (if cs_stage cs = StageExhausted then 1 else 0)"
  obtain v fs1 where v: "answer_at cfg x cs answer fs = (v, fs1)" by fastforce
  define fs2 where "fs2 = (case v of VerdictSystemic e \<Rightarrow> fs1\<lparr>fs_latch := Some e\<rparr> | _ \<Rightarrow> fs1)"
  have eq: "triage_answer cfg x k st cs answer ln fs = triaged cfg x k st v ln fs2"
    by (simp add: triage_answer_def v fs2_def)
  have fs2: "used fs2 x = used fs1 x" "fs_rewinds fs2 = fs_rewinds fs"
    using answer_frame(1) [OF v] by (simp_all add: fs2_def used_def split: LaneTriageVerdict.splits)
  have st: "site_ok cfg k st ln" "cs_stage cs = StageEarly \<longleftrightarrow> site_early st" using ok by (simp_all add: lane_ok_def)
  have u: "?c \<le> MONITOR_LANE_RESCUE_CAP" "ln_attempt ln \<le> FAN_OUT_LANE_ATTEMPT_CAP + ?c"
      "cs_stage cs = StageExhausted \<Longrightarrow> used fs x = Suc (cs_used cs) \<and> used fs x \<le> MONITOR_LANE_RESCUE_CAP"
    using ok by (auto simp: lane_ok_def)
  have n: "base cfg ?c ln + 5 * (length (fc_inner cfg) - k) < ?n" by (simp add: weight_base)
  have ex: "cs_stage cs = StageExhausted \<longleftrightarrow> cs_stage cs \<noteq> StageEarly" by (cases "cs_stage cs") auto
  have r: "room cfg x ?still ?c ?n k ln fs2" if "used fs1 x = ?c" using that u(1,2) n fs2 by (simp add: room_def)
  have "\<exists>c. within cfg x ?still c ?n (triaged cfg x k st v ln fs2)"
  proof (cases "\<exists>t. v = VerdictRescue t")
    case True
    then obtain t where t: "v = VerdictRescue t" by blast
    show ?thesis
    proof (cases "site_early st")
      case True
      then have "used fs1 x = ?c" using answer_frame(2) [OF v] st(2) by simp
      from steered_within [OF r [OF this] st(1) True] show ?thesis unfolding t by blast
    next
      case False
      then have "cs_stage cs = StageExhausted" using st(2) ex by blast
      then have "used fs2 x = Suc (cs_used cs)" "?c = cs_used cs" using u(3) answer_frame(3) [OF v] t fs2 by simp_all
      then have "within cfg x ?still (Suc (cs_used cs)) ?n (triaged cfg x k st (VerdictRescue t) ln fs2)"
        using u n fs2 False \<open>cs_stage cs = StageExhausted\<close> by (intro rescued_within) auto
      then show ?thesis unfolding t by blast
    qed
  next
    case False
    then have "used fs1 x = ?c" using answer_frame(2,3) [OF v] u(3) ex
      by (cases "cs_stage cs"; cases v) auto
    from settled_within [OF r [OF this] st(1)] False show ?thesis by blast
  qed
  then show ?thesis unfolding eq within_def by blast
qed

section \<open>A resumption\<close>

lemma enqueue_within:
  assumes r: "room cfg x still c n k ln fs" and k: "k < length (fc_inner cfg)"
    and n: "still \<Longrightarrow> base cfg c ln + 5 * (length (fc_inner cfg) - k) + 3 < n"
  shows "within cfg x still c n (case e of Enqueued \<Rightarrow> park_lane x k ln fs
     | EnqueueSkipped reason \<Rightarrow> lane_from cfg x (Suc k) ln (declined x reason fs))"
proof (cases e)
  case Enqueued
  then show ?thesis using r k n
    by (auto simp: park_lane_def within_def lane_ok_def weight_base room_def put_def used_def)
next
  case (EnqueueSkipped reason)
  have "room cfg x still c n k ln (declined x reason fs)" by (rule room_fs [OF r]) (simp_all add: used_def)
  then show ?thesis using EnqueueSkipped k by (simp add: next_within)
qed

theorem resume_lowers:
  assumes "lane_resume cfg x w ans ln fs = Some out" and ok: "lane_ok cfg x (ln, w, fs)"
  shows "lane_ok cfg x out \<and> (fs_rewinds fs x = None \<longrightarrow> weight cfg x out < weight cfg x (ln, w, fs))"
proof -
  let ?n = "weight cfg x (ln, w, fs)"
  let ?still = "fs_rewinds fs x = None"
  have goal: ?thesis if "within cfg x ?still c ?n out" for c using that by (simp add: within_def)
  have r: "room cfg x ?still (used fs x) ?n k ln fs"
    if "reserved w = 0" "5 * (length (fc_inner cfg) - k) < rank (length (fc_inner cfg)) w" for k
    using ok that by (simp add: lane_ok_def room_def weight_base)
  have over: "within cfg x ?still (used fs x) ?n (ln, LaneOver oc, fs)"
    if "reserved w = 0" "0 < rank (length (fc_inner cfg)) w" for oc
    using that by (intro over_within [OF r [of "length (fc_inner cfg)"]]) simp_all
  show ?thesis
  proof (cases w)
    case AwProbeOpen
    moreover from this ok have "within cfg x ?still (used fs x) ?n (lane_from cfg x 0 (ln\<lparr>ln_probe := b\<rparr>) fs)" for b
      by (intro from_within) (simp_all add: lane_ok_def weight_base base_def fuel_def)
    ultimately show ?thesis using assms(1) goal by (cases ans) auto
  next
    case (AwStep k ctx)
    moreover have "within cfg x ?still (used fs x) ?n (after_step cfg x k rs ln fs)" for rs
      using AwStep ok by (intro after_step_within r) (simp_all add: lane_ok_def weight_base)
    ultimately show ?thesis using assms(1) over goal by (cases ans) auto
  next
    case (AwEnqueue k task a)
    note e = enqueue_within [where cfg = cfg and x = x and still = ?still and c = "used fs x" and n = ?n and k = k and ln = ln and fs = fs]
    have "within cfg x ?still (used fs x) ?n (case e of Enqueued \<Rightarrow> park_lane x k ln fs
       | EnqueueSkipped reason \<Rightarrow> lane_from cfg x (Suc k) ln (declined x reason fs))" for e
      using AwEnqueue ok by (intro e r) (simp_all add: lane_ok_def weight_base)
    then show ?thesis using AwEnqueue assms(1) over goal by (cases ans) auto
  next
    case (AwGate k)
    moreover have "within cfg x ?still (used fs x) ?n (after_gate cfg x k oc ln fs)" for oc
      using AwGate ok by (intro after_gate_within r) (simp_all add: lane_ok_def weight_base)
    ultimately show ?thesis using assms(1) over goal by (cases ans) auto
  next
    case (AwTurn k st)
    then show ?thesis using assms turn_within_lane [of cfg x ln k st fs] by (cases ans) auto
  next
    case (AwConsult k st rq cs)
    then show ?thesis using assms answer_within_lane [of cfg x ln k st rq cs fs] by (cases ans) auto
  next
    case AwProbe
    moreover have "within cfg x ?still (used fs x) ?n (checkCommitIntegrity cfg x answer ln fs)" for answer
      using AwProbe by (intro probe_within r) (simp_all add: weight_base)
    ultimately show ?thesis using assms(1) goal by (cases ans) auto
  next
    case (LaneOver oc)
    then show ?thesis using assms(1) by (cases ans) auto
  qed
qed

end
