(* ===== verification/LaneCrew.thy ===== *)
theory LaneCrew
  imports LaneSteps
begin

text \<open>
  The lanes of one fan-out together. A crew is the suspended lanes and the state they share; an event starts
  a lane, resumes one with an answer, or is an action from outside the lanes: an operator's rewind or skip,
  an abort, the wave loop's bookkeeping. The consult chain of \<open>triageLane\<close> lets a lane's turn start
  only when no other lane is consulting.
\<close>

section \<open>Events\<close>

datatype outside =
    SetRewind string string
  | SkipStep string
  | AbortRun
  | SetVisualActive bool
  | SetLiveRequests "string set"
  | SetPosture "VerificationPosture option"
  | KnowItems "string list"
  | EndPark
  | MarkOverlap "string set"
  | TakeSlot string nat
  | FreeSlot string
  | SetRemaining "string set"

fun outside_step :: "outside \<Rightarrow> fan \<Rightarrow> fan" where
  "outside_step (SetRewind x t) fs = fs\<lparr>fs_rewinds := (fs_rewinds fs)(x \<mapsto> t)\<rparr>"
| "outside_step (SkipStep s) fs = fs\<lparr>fs_userSkipped := insert s (fs_userSkipped fs)\<rparr>"
| "outside_step AbortRun fs = fs\<lparr>fs_aborted := True\<rparr>"
| "outside_step (SetVisualActive b) fs = fs\<lparr>fs_visualActive := b\<rparr>"
| "outside_step (SetLiveRequests xs) fs = fs\<lparr>fs_liveRequests := xs\<rparr>"
| "outside_step (SetPosture p) fs = fs\<lparr>fs_posture := p\<rparr>"
| "outside_step (KnowItems xs) fs =
     fs\<lparr>fs_rescues := (fs_rescues fs)\<lparr>ls_knownItems := ls_knownItems (fs_rescues fs) \<union> set xs\<rparr>\<rparr>"
| "outside_step EndPark fs = fs\<lparr>fs_latch := None\<rparr>"
| "outside_step (MarkOverlap xs) fs = fs\<lparr>fs_overlapped := fs_overlapped fs \<union> xs\<rparr>"
| "outside_step (TakeSlot x n) fs = fs\<lparr>fs_slots := (fs_slots fs)(x \<mapsto> n)\<rparr>"
| "outside_step (FreeSlot x) fs = fs\<lparr>fs_slots := (fs_slots fs)(x := None)\<rparr>"
| "outside_step (SetRemaining xs) fs = fs\<lparr>fs_remaining := xs\<rparr>"

datatype crew_event = StartLane string | ResumeLane string lane_answer | Outside outside

record 'v crew =
  cr_lanes :: "string \<rightharpoonup> 'v lane \<times> 'v lane_wait"
  cr_fan :: fan

text \<open>A lane starts when it has no walk, or again when its walk ended without settling it: parked, or failed
  with nothing persisted.\<close>

fun restartable :: "'v lane_wait \<Rightarrow> bool" where
  "restartable (LaneOver (LaneSystemic _ _ _ _ _)) = True"
| "restartable (LaneOver (LaneFailed _ persisted)) = (\<not> persisted)"
| "restartable _ = False"

definition consulting :: "'v crew \<Rightarrow> string \<Rightarrow> bool" where
  "consulting s x = (case cr_lanes s x of None \<Rightarrow> False | Some (_, w) \<Rightarrow> in_consult w)"

text \<open>The lane that holds the consult chain.\<close>

definition chain_free :: "string list \<Rightarrow> 'v crew \<Rightarrow> bool" where
  "chain_free items s = (\<not> list_ex (consulting s) items)"

definition set_lane :: "string \<Rightarrow> 'v lane_out \<Rightarrow> 'v crew \<Rightarrow> 'v crew" where
  "set_lane x out s = (case out of (ln, w, fs) \<Rightarrow> \<lparr>cr_lanes = (cr_lanes s)(x \<mapsto> (ln, w)), cr_fan = fs\<rparr>)"

fun crew_step :: "'v fan_cfg \<Rightarrow> string list \<Rightarrow> crew_event \<Rightarrow> 'v crew \<Rightarrow> 'v crew option" where
  "crew_step cfg items (StartLane x) s =
     (if x \<in> set items \<and> (case cr_lanes s x of None \<Rightarrow> True | Some (_, w) \<Rightarrow> restartable w)
      then Some (set_lane x (lane_start cfg x (cr_fan s)) s) else None)"
| "crew_step cfg items (ResumeLane x ans) s =
     (case cr_lanes s x of
        None \<Rightarrow> None
      | Some (ln, w) \<Rightarrow>
          if in_turn w \<and> \<not> chain_free items s then None
          else map_option (\<lambda>out. set_lane x out s) (lane_resume cfg x w ans ln (cr_fan s)))"
| "crew_step cfg items (Outside a) s = Some (s\<lparr>cr_fan := outside_step a (cr_fan s)\<rparr>)"

fun crew_run :: "'v fan_cfg \<Rightarrow> string list \<Rightarrow> crew_event list \<Rightarrow> 'v crew \<Rightarrow> 'v crew option" where
  "crew_run cfg items [] s = Some s"
| "crew_run cfg items (e # es) s =
     (case crew_step cfg items e s of None \<Rightarrow> None | Some s' \<Rightarrow> crew_run cfg items es s')"

text \<open>Before any lane starts: nothing spent, nothing written, the items known.\<close>

definition init_fan :: "string list \<Rightarrow> (string \<times> string list) list \<Rightarrow> bool \<Rightarrow> fan" where
  "init_fan items deps visual =
     \<lparr>fs_rescues = newLaneRescueState\<lparr>ls_knownItems := set items\<rparr>, fs_latch = None, fs_released = {}, fs_early = {},
      fs_rewinds = (\<lambda>_. None), fs_userSkipped = {}, fs_prereqs = deps, fs_remaining = set items, fs_overlapped = {},
      fs_slots = (\<lambda>_. None), fs_aborted = False, fs_visualActive = visual, fs_liveRequests = {}, fs_posture = None,
      fs_reportedSkips = {}, fs_reportedNoModality = False, fs_findings = [], fs_writes = []\<rparr>"

definition init_crew :: "fan \<Rightarrow> 'v crew" where
  "init_crew fs = \<lparr>cr_lanes = (\<lambda>_. None), cr_fan = fs\<rparr>"

section \<open>A lane leaves its siblings alone\<close>

text \<open>What a resumption of \<open>x\<close> guarantees to the other lanes.\<close>

definition spares :: "string \<Rightarrow> fan \<Rightarrow> fan \<Rightarrow> bool" where
  "spares x fs fs' \<longleftrightarrow>
     (\<forall>y. y \<noteq> x \<longrightarrow> used fs' y = used fs y) \<and> ls_knownItems (fs_rescues fs') = ls_knownItems (fs_rescues fs) \<and>
     (\<forall>y. fs_rewinds fs' y = fs_rewinds fs y \<or> y = x \<and> fs_rewinds fs' y = None)"

lemma spares_kept: "kept x fs fs' \<Longrightarrow> spares x fs fs'"
  by (simp add: kept_def spares_def used_def)

lemma spares_trans: "spares x fs fs1 \<Longrightarrow> spares x fs1 fs2 \<Longrightarrow> spares x fs fs2"
  unfolding spares_def by metis

lemma consult_spares: "consult_at cfg x k st ln fs = (c, fs1) \<Longrightarrow> spares x fs fs1"
  by (auto simp: consult_at_def consult_early_def consult_exhausted_def Let_def spares_def set_budget_def
      used_def used_of_def split: if_splits)

lemma answer_spares: "answer_at cfg x cs answer fs = (v, fs1) \<Longrightarrow> spares x fs fs1"
  by (auto simp: answer_at_def answer_early_def answer_exhausted_def Let_def spares_def set_budget_def used_def
      used_of_def releaseReservation_def set_guidance_def add_history_def refund_run_def
      split: if_splits option.splits LaneRescueOutcome.splits)

lemma kept_triaged: "triaged cfg x k st v ln fs = (ln', w', fs') \<Longrightarrow> kept x fs fs' \<and> \<not> in_consult w'"
  using budget.triage [of x fs cfg k st v ln] by (simp add: kept_out_def)

lemma resume_kept:
  assumes "lane_resume cfg x w ans ln fs = Some (ln', w', fs')" and "\<not> in_turn w" "\<not> in_consult w"
  shows "kept x fs fs'" "\<not> in_consult w'"
  using budget.resumes [OF assms] by (simp_all add: kept_out_def)

text \<open>A turn either consults or settles, an answer settles; the triage state changes only before that.\<close>

lemma turn_cases:
  assumes "triage_turn cfg x k st ln fs = (ln', w', fs')"
  obtains (consults) rq cs where "consult_at cfg x k st ln fs = (Some (rq, cs), fs')" "w' = AwConsult k st rq cs" "ln' = ln"
    | (settles) "kept x fs fs'" "\<not> in_consult w'"
proof (cases "fs_latch fs")
  case None
  obtain c fs1 where c: "consult_at cfg x k st ln fs = (c, fs1)" by fastforce
  show ?thesis
  proof (cases c)
    case n: None
    then have "fs1 = fs" using consult_frame(2) [OF c] by simp
    then have "triaged cfg x k st VerdictUnconsulted ln fs = (ln', w', fs')"
      using assms None c n by (simp add: triage_turn_def)
    from kept_triaged [OF this] show ?thesis by (intro settles) simp_all
  next
    case (Some r)
    obtain rq cs where r: "r = (rq, cs)" by fastforce
    have "(ln', w', fs') = (ln, AwConsult k st rq cs, fs1)" using assms None c Some r by (simp add: triage_turn_def)
    then show ?thesis using c Some r by (intro consults [of rq cs]) simp_all
  qed
next
  case (Some e)
  then have "triaged cfg x k st (VerdictSystemic e) ln fs = (ln', w', fs')" using assms by (simp add: triage_turn_def)
  from kept_triaged [OF this] show ?thesis by (intro settles) simp_all
qed

lemma answer_kept:
  assumes "triage_answer cfg x k st cs answer ln fs = (ln', w', fs')"
  obtains v fs1 fs2 where "answer_at cfg x cs answer fs = (v, fs1)" "fs_rescues fs2 = fs_rescues fs1"
    "fs_rewinds fs2 = fs_rewinds fs1" "kept x fs2 fs'" "\<not> in_consult w'"
proof -
  obtain v fs1 where v: "answer_at cfg x cs answer fs = (v, fs1)" by fastforce
  let ?fs2 = "case v of VerdictSystemic e \<Rightarrow> fs1\<lparr>fs_latch := Some e\<rparr> | _ \<Rightarrow> fs1"
  have "triaged cfg x k st v ln ?fs2 = (ln', w', fs')" using assms by (simp add: triage_answer_def v)
  from kept_triaged [OF this] that [OF v, of ?fs2] show ?thesis by (simp split: LaneTriageVerdict.splits)
qed

lemma resume_spares:
  assumes "lane_resume cfg x w ans ln fs = Some (ln', w', fs')" shows "spares x fs fs'"
proof -
  consider (turn) k st where "w = AwTurn k st" | (answer) k st rq cs where "w = AwConsult k st rq cs"
    | (other) "\<not> in_turn w" "\<not> in_consult w" by (cases w) auto
  then show ?thesis
  proof cases
    case turn
    then have "triage_turn cfg x k st ln fs = (ln', w', fs')" using assms by (cases ans) auto
    then show ?thesis by (rule turn_cases) (auto intro: consult_spares spares_kept)
  next
    case answer
    then obtain a where "triage_answer cfg x k st cs a ln fs = (ln', w', fs')" using assms by (cases ans) auto
    then obtain v fs1 fs2 where "answer_at cfg x cs a fs = (v, fs1)" "fs_rescues fs2 = fs_rescues fs1"
      "fs_rewinds fs2 = fs_rewinds fs1" "kept x fs2 fs'" by (rule answer_kept)
    moreover from this(2,3) have "spares x fs1 fs2" by (simp add: spares_def used_def)
    ultimately show ?thesis using answer_spares spares_kept spares_trans by metis
  next
    case other
    then show ?thesis using resume_kept [OF assms] spares_kept by blast
  qed
qed

end
