(* ===== verification/LaneCrewProps.thy ===== *)
theory LaneCrewProps
  imports LaneCrew
begin

text \<open>
  Properties of the lanes of a fan-out, over every run of a crew: the rescue budgets, the attempts, the
  number of resumptions, the status writes, and what an integration rests on.
\<close>

section \<open>The invariant\<close>

definition lanes_ok :: "'v fan_cfg \<Rightarrow> 'v crew \<Rightarrow> bool" where
  "lanes_ok cfg s \<longleftrightarrow> (\<forall>x ln w. cr_lanes s x = Some (ln, w) \<longrightarrow> lane_ok cfg x (ln, w, cr_fan s))"

definition budgets_ok :: "'v crew \<Rightarrow> bool" where
  "budgets_ok s \<longleftrightarrow>
     (\<forall>x. used (cr_fan s) x \<le> MONITOR_LANE_RESCUE_CAP) \<and>
     int (ls_runTotal (fs_rescues (cr_fan s))) \<le> run_cap (cr_fan s) \<and> finite (ls_knownItems (fs_rescues (cr_fan s)))"

definition chain_ok :: "string list \<Rightarrow> 'v crew \<Rightarrow> bool" where
  "chain_ok items s \<longleftrightarrow>
     dom (cr_lanes s) \<subseteq> set items \<and> (\<forall>x y. consulting s x \<longrightarrow> consulting s y \<longrightarrow> x = y) \<and>
     (\<forall>x ln w. cr_lanes s x = Some (ln, w) \<longrightarrow> reserved w \<le> ls_runTotal (fs_rescues (cr_fan s)))"

definition crew_ok :: "'v fan_cfg \<Rightarrow> string list \<Rightarrow> 'v crew \<Rightarrow> bool" where
  "crew_ok cfg items s \<longleftrightarrow> lanes_ok cfg s \<and> budgets_ok s \<and> chain_ok items s"

lemma lane_ok_used: "used fs' x = used fs x \<Longrightarrow> lane_ok cfg x (ln, w, fs') = lane_ok cfg x (ln, w, fs)"
  by (simp add: lane_ok_def)

lemma no_reserve: "\<not> in_consult w \<Longrightarrow> reserved w = 0"
  by (cases w) auto

lemma run_cap_known: "ls_knownItems (fs_rescues fs') = ls_knownItems (fs_rescues fs) \<Longrightarrow> run_cap fs' = run_cap fs"
  by (simp add: run_cap_def)

text \<open>The run's rescue total over a resumption.\<close>

definition spent :: "fan \<Rightarrow> nat" where "spent fs = ls_runTotal (fs_rescues fs)"

lemma consult_spent:
  assumes "consult_at cfg x k st ln fs = (Some (rq, cs), fs1)" and "int (spent fs) \<le> run_cap fs"
  shows "spent fs \<le> spent fs1" "int (spent fs1) \<le> run_cap fs" "cs_stage cs = StageExhausted \<Longrightarrow> spent fs1 = Suc (spent fs)"
  using assms by (auto simp: consult_at_def consult_early_def consult_exhausted_def Let_def set_budget_def spent_def split: if_splits)

lemma answer_spent: "answer_at cfg x cs answer fs = (v, fs1) \<Longrightarrow> spent fs1 \<le> spent fs"
  by (auto simp: answer_at_def answer_early_def answer_exhausted_def Let_def set_budget_def spent_def
      releaseReservation_def set_guidance_def add_history_def refund_run_def
      split: if_splits option.splits LaneRescueOutcome.splits)

lemma resume_spent:
  assumes r: "lane_resume cfg x w ans ln fs = Some (ln', w', fs')" and le: "int (spent fs) \<le> run_cap fs"
  shows "int (spent fs') \<le> run_cap fs'" "\<not> in_consult w \<Longrightarrow> spent fs \<le> spent fs'" "reserved w' \<le> spent fs'"
    "in_consult w' \<Longrightarrow> in_turn w"
proof -
  have cap: "run_cap fs' = run_cap fs" using resume_spares [OF r] by (intro run_cap_known) (simp add: spares_def)
  have all: "int (spent fs') \<le> run_cap fs \<and> (\<not> in_consult w \<longrightarrow> spent fs \<le> spent fs') \<and> reserved w' \<le> spent fs' \<and>
    (in_consult w' \<longrightarrow> in_turn w)"
  proof -
    consider (turn) k st where "w = AwTurn k st" | (answer) k st rq cs where "w = AwConsult k st rq cs"
      | (other) "\<not> in_turn w" "\<not> in_consult w" by (cases w) auto
    then show ?thesis
    proof cases
      case turn
      then have "triage_turn cfg x k st ln fs = (ln', w', fs')" using r by (cases ans) auto
      then show ?thesis
      proof (cases rule: turn_cases)
        case (consults rq cs)
        then show ?thesis using consult_spent [OF consults(1) le] turn by auto
      next
        case settles
        then show ?thesis using le no_reserve [OF settles(2)] by (simp add: kept_def spent_def)
      qed
    next
      case answer
      then obtain a where "triage_answer cfg x k st cs a ln fs = (ln', w', fs')" using r by (cases ans) auto
      then obtain v fs1 fs2 where a: "answer_at cfg x cs a fs = (v, fs1)" "fs_rescues fs2 = fs_rescues fs1"
        "kept x fs2 fs'" "\<not> in_consult w'" by (rule answer_kept) blast
      then have "spent fs' = spent fs1" by (simp add: kept_def spent_def)
      then show ?thesis using answer_spent [OF a(1)] le no_reserve [OF a(4)] a(4) answer by simp
    next
      case other
      then show ?thesis using resume_kept [OF r other] le no_reserve [OF resume_kept(2) [OF r other]] by (simp add: kept_def spent_def)
    qed
  qed
  then show "int (spent fs') \<le> run_cap fs'" "\<not> in_consult w \<Longrightarrow> spent fs \<le> spent fs'" "reserved w' \<le> spent fs'"
    "in_consult w' \<Longrightarrow> in_turn w" using cap by auto
qed

lemma start_cases:
  obtains e where "fc_inner cfg = []" "lane_start cfg x fs = (new_lane, LaneOver (LaneFailed (Some e) False), fs)"
    | s ss where "fc_inner cfg = s # ss"
      "lane_start cfg x fs = (new_lane, AwProbeOpen, put (Drive x (Some SbRunning) (Some (fi_id s)) None) fs)"
  by (cases "fc_inner cfg") (simp_all add: lane_start_def)

lemma put_frame [simp]: "used (put w fs) x = used fs x" "fs_rescues (put w fs) = fs_rescues fs" "run_cap (put w fs) = run_cap fs"
    "fs_rewinds (put w fs) = fs_rewinds fs" "spent (put w fs) = spent fs"
  by (simp_all add: used_def put_def run_cap_def spent_def)

text \<open>How one lane's new state changes the invariant.\<close>

lemma set_lane_ok:
  assumes ok: "crew_ok cfg items s" and x: "x \<in> set items" and l: "lane_ok cfg x (ln', w', fs')"
    and sp: "spares x (cr_fan s) fs'" and cap: "int (spent fs') \<le> run_cap fs'" and rs: "reserved w' \<le> spent fs'"
    and others: "\<And>y. y \<noteq> x \<Longrightarrow> consulting s y \<Longrightarrow> \<not> in_consult w' \<and> spent (cr_fan s) \<le> spent fs'"
  shows "crew_ok cfg items (set_lane x (ln', w', fs') s)"
proof -
  let ?s = "set_lane x (ln', w', fs') s"
  have s: "cr_lanes ?s = (cr_lanes s)(x \<mapsto> (ln', w'))" "cr_fan ?s = fs'" by (simp_all add: set_lane_def)
  have u: "used fs' y = used (cr_fan s) y" if "y \<noteq> x" for y using sp that by (simp add: spares_def)
  have "lanes_ok cfg ?s"
    using ok l by (auto simp: lanes_ok_def crew_ok_def s lane_ok_used [OF u])
  moreover have "used fs' x \<le> MONITOR_LANE_RESCUE_CAP" using l by (simp add: lane_ok_def)
  then have "used fs' y \<le> MONITOR_LANE_RESCUE_CAP" for y
    using ok u [of y] by (cases "y = x") (simp_all add: crew_ok_def budgets_ok_def)
  then have "budgets_ok ?s"
    using ok cap sp by (simp add: budgets_ok_def crew_ok_def s spent_def spares_def)
  moreover have "chain_ok items ?s"
  proof -
    have c: "consulting ?s y \<longleftrightarrow> (if y = x then in_consult w' else consulting s y)" for y
      by (simp add: consulting_def s)
    have r: "reserved w \<le> spent fs'" if "cr_lanes s y = Some (ln, w)" "y \<noteq> x" for y ln w
    proof (cases "in_consult w")
      case True
      then have "spent (cr_fan s) \<le> spent fs'" using others that by (simp add: consulting_def)
      moreover have "reserved w \<le> spent (cr_fan s)" using ok that by (auto simp: crew_ok_def chain_ok_def spent_def)
      ultimately show ?thesis by simp
    next
      case False
      then show ?thesis by (simp add: no_reserve)
    qed
    have "dom (cr_lanes ?s) \<subseteq> set items" using ok x by (simp add: crew_ok_def chain_ok_def s)
    moreover have "y = z" if "consulting ?s y" "consulting ?s z" for y z
      using that c others ok unfolding crew_ok_def chain_ok_def by (metis (full_types))
    moreover have "reserved w \<le> spent fs'" if "cr_lanes ?s y = Some (ln, w)" for y ln w
      using that r rs by (cases "y = x") (simp_all add: s)
    ultimately show ?thesis unfolding chain_ok_def by (simp add: s spent_def)
  qed
  ultimately show ?thesis by (simp add: crew_ok_def)
qed

lemma crew_lane:
  assumes "crew_ok cfg items s" and "cr_lanes s x = Some (ln, w)"
  shows "lane_ok cfg x (ln, w, cr_fan s)" "x \<in> set items" "int (spent (cr_fan s)) \<le> run_cap (cr_fan s)"
  using assms by (auto simp: crew_ok_def lanes_ok_def chain_ok_def budgets_ok_def spent_def)

lemma outside_frame [simp]:
  "used (outside_step a fs) x = used fs x" "ls_runTotal (fs_rescues (outside_step a fs)) = ls_runTotal (fs_rescues fs)"
  "fs_writes (outside_step a fs) = fs_writes fs"
  by (cases a; simp add: used_def)+

lemma outside_cap: "finite (ls_knownItems (fs_rescues fs)) \<Longrightarrow>
    finite (ls_knownItems (fs_rescues (outside_step a fs))) \<and> run_cap fs \<le> run_cap (outside_step a fs)"
proof (cases a)
  case (KnowItems xs)
  assume f: "finite (ls_knownItems (fs_rescues fs))"
  then have "card (ls_knownItems (fs_rescues fs)) \<le> card (ls_knownItems (fs_rescues fs) \<union> set xs)"
    by (intro card_mono) auto
  then show ?thesis using f KnowItems by (simp add: run_cap_def monitorRunRescueCap_def zdiv_mono1)
qed (simp_all add: run_cap_def)

lemma crew_step_ok:
  assumes ok: "crew_ok cfg items s" and step: "crew_step cfg items e s = Some s'"
  shows "crew_ok cfg items s'"
proof (cases e)
  case (StartLane x)
  obtain ln w fs where l: "lane_start cfg x (cr_fan s) = (ln, w, fs)" by (cases "lane_start cfg x (cr_fan s)") auto
  have x: "x \<in> set items" "s' = set_lane x (ln, w, fs) s" using step StartLane l by (auto split: if_splits)
  have u: "used (cr_fan s) x \<le> MONITOR_LANE_RESCUE_CAP" "int (spent (cr_fan s)) \<le> run_cap (cr_fan s)"
    using ok by (auto simp: crew_ok_def budgets_ok_def spent_def)
  show ?thesis unfolding x(2)
    by (rule start_cases [of cfg x "cr_fan s"]; rule set_lane_ok [OF ok x(1)])
      (use l u in \<open>auto simp: lane_ok_def new_lane_def cap_defs spares_def\<close>)
next
  case (ResumeLane x ans)
  then obtain ln w where lw: "cr_lanes s x = Some (ln, w)" "\<not> (in_turn w \<and> \<not> chain_free items s)"
    using step by (auto split: option.splits if_splits)
  then obtain ln' w' fs' where r: "lane_resume cfg x w ans ln (cr_fan s) = Some (ln', w', fs')" "s' = set_lane x (ln', w', fs') s"
    using step ResumeLane by (auto simp: lw split: if_splits)
  note c = crew_lane [OF ok lw(1)] and sp = resume_spent [OF r(1) crew_lane(3) [OF ok lw(1)]]
  have dom: "y \<in> set items" if "consulting s y" for y
    using ok that by (auto simp: crew_ok_def chain_ok_def consulting_def split: option.splits)
  have others: "\<not> in_consult w' \<and> spent (cr_fan s) \<le> spent fs'" if y: "y \<noteq> x" "consulting s y" for y
  proof -
    have "\<not> in_turn w" using lw(2) dom [OF y(2)] y(2) by (auto simp: chain_free_def list_ex_iff)
    moreover have "\<not> in_consult w" using ok y lw(1) by (auto simp: crew_ok_def chain_ok_def consulting_def)
    ultimately show ?thesis using sp(2,4) by blast
  qed
  show ?thesis unfolding r(2)
    using resume_lowers [OF r(1) c(1)] resume_spares [OF r(1)] sp c(2) others by (intro set_lane_ok [OF ok]) auto
next
  case (Outside a)
  then have s': "s' = s\<lparr>cr_fan := outside_step a (cr_fan s)\<rparr>" using step by simp
  have "lanes_ok cfg s'" using ok by (simp add: s' crew_ok_def lanes_ok_def lane_ok_used [OF outside_frame(1)])
  moreover have "budgets_ok s'" using ok outside_cap [of "cr_fan s" a] by (auto simp: s' crew_ok_def budgets_ok_def)
  moreover have "chain_ok items s'" using ok by (simp add: s' crew_ok_def chain_ok_def consulting_def)
  ultimately show ?thesis by (simp add: crew_ok_def)
qed

lemma crew_run_ok: "crew_ok cfg items s \<Longrightarrow> crew_run cfg items es s = Some s' \<Longrightarrow> crew_ok cfg items s'"
proof (induction es arbitrary: s)
  case (Cons e es)
  then show ?case using crew_step_ok by (fastforce split: option.splits)
qed simp

lemma init_crew_ok: "crew_ok cfg items (init_crew (init_fan items deps visual))"
  by (simp add: crew_ok_def init_crew_def lanes_ok_def budgets_ok_def chain_ok_def consulting_def init_fan_def
      used_def used_of_def newLaneRescueState_def run_cap_def monitorRunRescueCap_def)

section \<open>The weight of one lane over a run\<close>

fun resumes :: "string \<Rightarrow> crew_event \<Rightarrow> bool" where
  "resumes x (ResumeLane y _) = (y = x)"
| "resumes x _ = False"

text \<open>The events that let a lane go further than its budgets.\<close>

fun renews :: "string \<Rightarrow> crew_event \<Rightarrow> bool" where
  "renews x (StartLane y) = (y = x)"
| "renews x (Outside (SetRewind y _)) = (y = x)"
| "renews x _ = False"

definition lane_weight :: "'v fan_cfg \<Rightarrow> string \<Rightarrow> 'v crew \<Rightarrow> nat" where
  "lane_weight cfg x s = (case cr_lanes s x of None \<Rightarrow> 0 | Some (ln, w) \<Rightarrow> weight cfg x (ln, w, cr_fan s))"

lemma weight_used: "used fs' x = used fs x \<Longrightarrow> weight cfg x (ln, w, fs') = weight cfg x (ln, w, fs)"
  by (simp add: weight_def)

lemma outside_rewinds: "\<not> renews x (Outside a) \<Longrightarrow> fs_rewinds (outside_step a fs) x = fs_rewinds fs x"
  by (cases a) auto

lemma other_lane:
  assumes "spares x (cr_fan s) fs" and "x \<noteq> y"
  shows "lane_weight cfg y (set_lane x (ln, w, fs) s) = lane_weight cfg y s" "fs_rewinds fs y = fs_rewinds (cr_fan s) y"
proof -
  have u: "used fs y = used (cr_fan s) y" and r: "fs_rewinds fs y = fs_rewinds (cr_fan s) y"
    using assms unfolding spares_def by metis+
  show "lane_weight cfg y (set_lane x (ln, w, fs) s) = lane_weight cfg y s"
    using assms(2) by (simp add: lane_weight_def set_lane_def weight_used [OF u] split: option.splits prod.splits)
  show "fs_rewinds fs y = fs_rewinds (cr_fan s) y" by (rule r)
qed

lemma start_spares: "lane_start cfg x fs = (ln, w, fs') \<Longrightarrow> spares x fs fs'"
  by (auto simp: lane_start_def spares_def split: list.splits)

text \<open>Each resumption of a lane lowers its weight, nothing else that leaves it alone raises it.\<close>

lemma crew_step_weight:
  assumes ok: "crew_ok cfg items s" and step: "crew_step cfg items e s = Some s'"
    and e: "\<not> renews x e" and rw: "fs_rewinds (cr_fan s) x = None"
  shows "of_bool (resumes x e) + lane_weight cfg x s' \<le> lane_weight cfg x s \<and> fs_rewinds (cr_fan s') x = None"
proof (cases e)
  case (StartLane y)
  then obtain ln w fs where l: "lane_start cfg y (cr_fan s) = (ln, w, fs)" "s' = set_lane y (ln, w, fs) s"
    using step by (cases "lane_start cfg y (cr_fan s)") (auto split: if_splits)
  have "y \<noteq> x" using e StartLane by simp
  from other_lane [OF start_spares [OF l(1)] this] show ?thesis
    using StartLane rw by (simp add: l(2)) (simp add: set_lane_def)
next
  case (ResumeLane y ans)
  obtain ln w where lw: "cr_lanes s y = Some (ln, w)" using step ResumeLane by (auto split: option.splits)
  then obtain ln' w' fs' where r: "lane_resume cfg y w ans ln (cr_fan s) = Some (ln', w', fs')" "s' = set_lane y (ln', w', fs') s"
    using step ResumeLane by (auto split: if_splits)
  show ?thesis
  proof (cases "y = x")
    case True
    have "weight cfg x (ln', w', fs') < weight cfg x (ln, w, cr_fan s)"
      using resume_lowers [OF r(1) crew_lane(1) [OF ok lw]] rw True by simp
    then have "of_bool (resumes x e) + lane_weight cfg x s' \<le> lane_weight cfg x s"
      using lw True ResumeLane by (simp add: lane_weight_def r(2) set_lane_def)
    moreover have "fs_rewinds fs' x = None" using resume_spares [OF r(1)] rw unfolding spares_def by metis
    ultimately show ?thesis by (simp add: r(2) set_lane_def)
  next
    case False
    from other_lane [OF resume_spares [OF r(1)] this] show ?thesis
      using ResumeLane False rw by (simp add: r(2)) (simp add: set_lane_def)
  qed
next
  case (Outside a)
  then have s': "s' = s\<lparr>cr_fan := outside_step a (cr_fan s)\<rparr>" using step by simp
  have "lane_weight cfg x s' = lane_weight cfg x s"
    by (simp add: lane_weight_def s' weight_used [OF outside_frame(1)] split: option.splits)
  then show ?thesis using Outside e outside_rewinds [of x a] rw by (simp add: s')
qed

lemma crew_run_weight:
  assumes "crew_ok cfg items s" and "crew_run cfg items es s = Some s'"
    and "list_all (\<lambda>e. \<not> renews x e) es" and "fs_rewinds (cr_fan s) x = None"
  shows "length (filter (resumes x) es) + lane_weight cfg x s' \<le> lane_weight cfg x s"
  using assms
proof (induction es arbitrary: s)
  case (Cons e es)
  then obtain s1 where s1: "crew_step cfg items e s = Some s1" "crew_run cfg items es s1 = Some s'"
    by (auto split: option.splits)
  have w: "of_bool (resumes x e) + lane_weight cfg x s1 \<le> lane_weight cfg x s" "fs_rewinds (cr_fan s1) x = None"
    using crew_step_weight [OF Cons.prems(1) s1(1), of x] Cons.prems(3,4) by simp_all
  from Cons.IH [OF crew_step_ok [OF Cons.prems(1) s1(1)] s1(2) _ w(2)] Cons.prems(3) w(1)
  show ?case by (auto split: if_splits)
qed simp

lemma weight_bound:
  assumes "lane_ok cfg x (ln, w, fs)" shows "weight cfg x (ln, w, fs) < 14 * (5 * length (fc_inner cfg) + 6)"
proof -
  let ?m = "5 * length (fc_inner cfg) + 6"
  have "fuel c ln \<le> 13" for c by (simp add: fuel_def cap_defs)
  then have "fuel c ln * ?m \<le> 13 * ?m" for c by (intro mult_le_mono1)
  moreover have "5 * (length (fc_inner cfg) - k) \<le> 5 * length (fc_inner cfg)" for k by simp
  then have "rank (length (fc_inner cfg)) w < ?m" by (cases w) (simp_all add: le_imp_less_Suc)
  ultimately have "fuel (used fs x - reserved w) ln * ?m + rank (length (fc_inner cfg)) w < 13 * ?m + ?m"
    by (intro add_le_less_mono)
  then show ?thesis by (simp add: weight_def)
qed

section \<open>Progress\<close>

fun fitting :: "'v lane_wait \<Rightarrow> lane_answer" where
  "fitting AwProbeOpen = AnProbeOpen True"
| "fitting (AwStep _ _) = AnThrow []"
| "fitting (AwEnqueue _ _ _) = AnThrow []"
| "fitting (AwGate _) = AnThrow []"
| "fitting (AwTurn _ _) = AnTurn"
| "fitting (AwConsult _ _ _ _) = AnConsult None"
| "fitting AwProbe = AnProbe None"
| "fitting (LaneOver _) = AnTurn"

fun is_over :: "'v lane_wait \<Rightarrow> bool" where
  "is_over (LaneOver _) = True"
| "is_over _ = False"

lemma fitting_resumes: "\<not> is_over w \<Longrightarrow> lane_resume cfg x w (fitting w) ln fs \<noteq> None"
  by (cases w) simp_all

lemma step_enabled:
  assumes "cr_lanes s x = Some (ln, w)" and "\<not> is_over w" and "in_turn w \<Longrightarrow> chain_free items s"
  shows "crew_step cfg items (ResumeLane x (fitting w)) s \<noteq> None"
  using assms fitting_resumes [OF assms(2), of cfg x ln "cr_fan s"] by auto

lemma not_stuck:
  assumes "crew_ok cfg items s" and "cr_lanes s x = Some (ln, w)" and "\<not> is_over w"
  shows "\<exists>y ln w. cr_lanes s y = Some (ln, w) \<and> crew_step cfg items (ResumeLane y (fitting w)) s \<noteq> None"
proof (cases "in_turn w \<and> \<not> chain_free items s")
  case True
  then obtain y where "consulting s y" by (auto simp: chain_free_def list_ex_iff)
  then obtain l v where v: "cr_lanes s y = Some (l, v)" "in_consult v"
    by (auto simp: consulting_def split: option.splits)
  then have "\<not> is_over v" "\<not> in_turn v" by (cases v; simp)+
  then show ?thesis using step_enabled [OF v(1), of items cfg] v(1) by blast
next
  case False
  then show ?thesis using step_enabled [OF assms(2,3), of items cfg] assms(2) by blast
qed

end
