(* ===== verification/LaneRows.thy ===== *)
theory LaneRows
  imports LaneCrewProps
begin

text \<open>
  The statuses written for each lane over a run of a crew (\<open>rows_ok\<close>), and the resumptions that can end
  a lane as done (\<open>not_done\<close>).
\<close>

section \<open>The rows of the lanes\<close>

definition row_of :: "string \<Rightarrow> lane_write list \<Rightarrow> SprintBatchTaskStatus list" where
  "row_of x ws = map snd (filter (\<lambda>(y, st). y = x) (statuses ws))"

lemma row_append [simp]: "row_of x (ws @ vs) = row_of x ws @ row_of x vs"
  by (simp add: row_of_def)

lemma row_final: "statuses ws = final_status y w \<Longrightarrow> row_of x ws = (if y = x then map snd (final_status x w) else [])"
  by (cases "(y, w)" rule: final_status.cases) (auto simp: row_of_def)

definition row_ok :: "'v fan_cfg \<Rightarrow> string \<Rightarrow> ('v lane \<times> 'v lane_wait) option \<Rightarrow> lane_write list \<Rightarrow> bool" where
  "row_ok cfg x lane ws \<longleftrightarrow>
     (case lane of
        None \<Rightarrow> row_of x ws = []
      | Some (ln, w) \<Rightarrow> \<exists>n. (n = 0 \<longleftrightarrow> fc_inner cfg = []) \<and>
          row_of x ws = replicate n SbRunning @ map snd (final_status x w))"

definition rows_ok :: "'v fan_cfg \<Rightarrow> 'v crew \<Rightarrow> bool" where
  "rows_ok cfg s \<longleftrightarrow> (\<forall>x. row_ok cfg x (cr_lanes s x) (fs_writes (cr_fan s)))"

lemma row_ok_Some: "row_ok cfg x (Some (ln, w)) ws \<longleftrightarrow>
    (\<exists>n. (n = 0 \<longleftrightarrow> fc_inner cfg = []) \<and> row_of x ws = replicate n SbRunning @ map snd (final_status x w))"
  by (simp add: row_ok_def)

lemma rows_set:
  assumes ok: "rows_ok cfg s" and ws: "fs_writes fs' = fs_writes (cr_fan s) @ ws" and others: "\<And>y. y \<noteq> x \<Longrightarrow> row_of y ws = []"
    and x: "row_ok cfg x (Some (ln, w)) (fs_writes fs')"
  shows "rows_ok cfg (set_lane x (ln, w, fs') s)"
proof -
  have "row_ok cfg y (cr_lanes s y) (fs_writes fs')" if "y \<noteq> x" for y
  proof -
    have "row_ok cfg y (cr_lanes s y) (fs_writes (cr_fan s))" using ok by (simp add: rows_ok_def)
    then show ?thesis using others [OF that] by (auto simp: row_ok_def ws split: option.splits)
  qed
  then show ?thesis using x by (simp add: rows_ok_def set_lane_def)
qed

lemma restartable_quiet: "restartable w \<Longrightarrow> final_status x w = []"
  by (cases w rule: restartable.cases) auto

lemma not_over_quiet: "lane_resume cfg x w ans ln fs = Some out \<Longrightarrow> final_status x w = []"
  by (cases w; cases ans) auto

lemma crew_step_rows:
  assumes ok: "rows_ok cfg s" and step: "crew_step cfg items e s = Some s'"
  shows "rows_ok cfg s'"
proof (cases e)
  case (StartLane x)
  have free: "case cr_lanes s x of None \<Rightarrow> True | Some (_, w) \<Rightarrow> restartable w"
    and s': "s' = set_lane x (lane_start cfg x (cr_fan s)) s" using step StartLane by (simp_all split: if_splits)
  obtain n where n: "row_of x (fs_writes (cr_fan s)) = replicate n SbRunning" "fc_inner cfg = [] \<Longrightarrow> n = 0"
  proof (cases "cr_lanes s x")
    case None
    then have "row_ok cfg x None (fs_writes (cr_fan s))" using ok by (metis rows_ok_def)
    then show ?thesis using that [of 0] by (simp add: row_ok_def)
  next
    case (Some l)
    obtain ln w where l: "l = (ln, w)" by fastforce
    have "row_ok cfg x (Some (ln, w)) (fs_writes (cr_fan s))" using ok Some l by (metis rows_ok_def)
    then show ?thesis using that free Some l restartable_quiet [of w x] by (auto simp: row_ok_Some)
  qed
  show ?thesis
  proof (rule start_cases [of cfg x "cr_fan s"])
    fix err assume l: "fc_inner cfg = []" "lane_start cfg x (cr_fan s) = (new_lane, LaneOver (LaneFailed (Some err) False), cr_fan s)"
    show ?thesis unfolding s' l(2)
      using n l(1) by (intro rows_set [OF ok, where ws = "[]"]) (auto simp: row_of_def row_ok_Some)
  next
    fix i ss assume l: "fc_inner cfg = i # ss"
      "lane_start cfg x (cr_fan s) = (new_lane, AwProbeOpen, put (Drive x (Some SbRunning) (Some (fi_id i)) None) (cr_fan s))"
    let ?d = "Drive x (Some SbRunning) (Some (fi_id i)) None"
    have one: "row_of y [?d] = (if y = x then [SbRunning] else [])" for y by (simp add: row_of_def)
    have "row_of x (fs_writes (cr_fan s) @ [?d]) = replicate (Suc n) SbRunning"
      using one [of x] by (simp add: n(1) replicate_append_same)
    then have "row_ok cfg x (Some (new_lane, AwProbeOpen)) (fs_writes (cr_fan s) @ [?d])"
      using l(1) unfolding row_ok_Some by (intro exI [of _ "Suc n"]) simp
    then show ?thesis unfolding s' l(2) using one by (intro rows_set [OF ok, where ws = "[?d]"]) (simp_all add: put_def)
  qed
next
  case (ResumeLane x ans)
  obtain ln w where lw: "cr_lanes s x = Some (ln, w)" using step ResumeLane by (auto split: option.splits)
  then obtain ln' w' fs' where r: "lane_resume cfg x w ans ln (cr_fan s) = Some (ln', w', fs')" "s' = set_lane x (ln', w', fs') s"
    using step ResumeLane by (auto split: if_splits)
  obtain ws where ws: "fs_writes fs' = fs_writes (cr_fan s) @ ws" "statuses ws = final_status x w'"
    using resume_wrote [OF r(1)] by (auto simp: wrote_out_def wrote_def)
  have "row_ok cfg x (Some (ln, w)) (fs_writes (cr_fan s))" using ok lw by (metis rows_ok_def)
  then have "row_ok cfg x (Some (ln', w')) (fs_writes fs')"
    using not_over_quiet [OF r(1)] by (auto simp: row_ok_Some ws(1) row_final [OF ws(2)])
  then show ?thesis unfolding r(2) by (intro rows_set [OF ok ws(1)]) (simp_all add: row_final [OF ws(2)])
next
  case (Outside a)
  then have "s' = s\<lparr>cr_fan := outside_step a (cr_fan s)\<rparr>" using step by simp
  then show ?thesis using ok by (simp add: rows_ok_def)
qed

lemma crew_run_rows: "rows_ok cfg s \<Longrightarrow> crew_run cfg items es s = Some s' \<Longrightarrow> rows_ok cfg s'"
proof (induction es arbitrary: s)
  case (Cons e es)
  then show ?case using crew_step_rows by (fastforce split: option.splits)
qed simp

lemma init_rows_ok: "rows_ok cfg (init_crew (init_fan items deps visual))"
  by (simp add: rows_ok_def row_ok_def init_crew_def init_fan_def row_of_def)

section \<open>What an integration rests on\<close>

definition not_done :: "'v lane_out \<Rightarrow> bool" where
  "not_done out \<longleftrightarrow> fst (snd out) \<noteq> LaneOver LaneDone"

text \<open>A reading that integrates without the monitor.\<close>

definition probe_clean :: "CommitIntegrityReading option \<Rightarrow> bool" where
  "probe_clean answer =
     (case answer of
        None \<Rightarrow> True
      | Some rd \<Rightarrow> (ci_buildSlots rd = None \<or> ci_buildSlots rd = Some SlotsClean) \<and>
          (ci_headAdvanced rd \<or> \<not> ci_dirty rd \<or> ci_newDirtyPaths rd = Some []))"

text \<open>An answer that waives the dirt of a lane: an accept, or no verdict about a shared worktree.\<close>

fun waives :: "'v lane_wait \<Rightarrow> lane_answer \<Rightarrow> bool" where
  "waives (AwTurn k (DirtyTree t shared)) AnTurn = shared"
| "waives (AwConsult k (DirtyTree t shared) rq cs) (AnConsult answer) =
     (case answer of None \<Rightarrow> shared | Some (RescueAccept _) \<Rightarrow> True | _ \<Rightarrow> False)"
| "waives _ _ = False"

lemma loop_not_done: "ln_probe ln \<Longrightarrow> not_done (lane_from cfg x k ln fs)"
  using lane_from_out [of cfg x ln fs k] by (auto simp: loop_out_def not_done_def split: prod.splits)

lemma lane_from_unaborted: "\<not> fs_aborted fs \<Longrightarrow> fst (snd (lane_from cfg x k ln fs)) \<noteq> LaneOver LaneAborted"
proof (induction rule: lane_from_rule)
  case (rewind k ln fs t fs1 out)
  then show ?case using rewind_frame [OF rewind(2)] by auto
next
  case (next_step k ln fs fs1 fs2 out)
  then show ?case using rewind_frame [OF next_step(2)] by auto
qed (simp_all add: integrate_def spawn_def park_lane_def)

lemma step_not_done:
  assumes "ln_probe ln"
  shows "not_done (after_step cfg x k r ln fs)" "not_done (after_gate cfg x k oc ln fs)"
proof -
  have n: "not_done (ln', AwTurn k st, fs')" "not_done (fail_now x ln' fs')" "not_done (ln', LaneOver (LaneSystemic a b c d e), fs')"
    "not_done (ln', LaneOver LaneAborted, fs')" for k st ln' fs' a b c d e by (simp_all add: not_done_def fail_now_def)
  note l = loop_not_done
  have d: "not_done (step_defect cfg x k f g fb ln' fs')" if "ln_probe ln'" for f g fb ln' fs'
    using that by (simp add: step_defect_def n l loop_back_def split: option.splits)
  have v: "not_done (after_task_verify cfg x k res ln fs')" for res fs'
    using assms by (simp add: after_task_verify_def task_verified_def Let_def n l d split: option.splits visual_section.splits)
  have s: "not_done (step_failed_lane cfg x k r ln fs')" "not_done (step_ok cfg x k r ln fs')" for fs'
    using assms by (simp_all add: step_failed_lane_def step_ok_def Let_def n l d v split: option.splits)
  have g: "not_done (gate_loopback cfg x k a fb ln fs')" for a fb fs'
    using assms by (simp add: gate_loopback_def Let_def n l split: option.splits)
  show "not_done (after_step cfg x k r ln fs)" "not_done (after_gate cfg x k oc ln fs)"
    using assms by (auto simp: after_step_def after_gate_def n l s g split: prod.splits option.splits StepRunStatus.splits VisualGateOutcome.splits)
qed

lemma triaged_not_done:
  assumes "ln_probe ln" and "\<And>t sh. st = DirtyTree t sh \<Longrightarrow> (\<forall>r. v \<noteq> VerdictAccept r) \<and> (v = VerdictUnconsulted \<longrightarrow> \<not> sh)"
  shows "not_done (triaged cfg x k st v ln fs)"
proof -
  have n: "not_done (fail_now x ln' fs')" "not_done (ln', LaneOver (LaneFailed err False), fs')" "not_done (triage_parks e sid ln' fs')"
    for ln' fs' e err sid by (simp_all add: not_done_def fail_now_def triage_parks_def)
  show ?thesis using assms
    by (cases st; cases v) (auto simp: triaged_def n loop_not_done loop_back_def)
qed

lemma answer_verdict:
  assumes "answer_at cfg x cs answer fs = (v, fs1)"
  shows "v = VerdictAccept r \<longleftrightarrow> answer = Some (RescueAccept r)" "v = VerdictUnconsulted \<longleftrightarrow> answer = None"
  using assms by (auto simp: answer_at_def answer_early_def answer_exhausted_def Let_def
      split: if_splits option.splits LaneRescueOutcome.splits)

section \<open>Declined enqueues\<close>

text \<open>A decline that names a missing modality files the run-level finding and no finding of the lane: the
  posture is flipped first, and the flipped posture suppresses the lane's own finding.\<close>

lemma no_modality_decline_files_no_lane_finding:
  assumes "isNoModalityDeclineReason reason" and "posture fs = PostureAvailable"
    and "reason \<noteq> VERIFY_DISABLED_ENQUEUE_REASON"
  shows "fs_findings (declined x reason fs) =
    fs_findings fs @ (if fs_reportedNoModality fs then [] else [NoModality reason])"
  using assms by (simp add: declined_def maybeFlipPostureUnavailable_def declareNoVerifiableModality_def
      reportVerificationSkipped_def posture_def)

end
