(* ===== verification/LaneCrewClaims.thy ===== *)
theory LaneCrewClaims
  imports LaneRows
begin

text \<open>
  The properties of the lane walks, over every run of a crew from its start, with a concrete run of two
  lanes for the witnesses.
\<close>

section \<open>A concrete crew\<close>

definition demo_inner :: "string \<Rightarrow> FanOutInnerStep" where
  "demo_inner i = \<lparr>fi_id = i, fi_agent = ''worker'', fi_optional = None, fi_loopback = None, fi_name = None, fi_firmGate = None\<rparr>"

definition demo_cfg :: "unit fan_cfg" where
  "demo_cfg = \<lparr>fc_runId = ''r1'', fc_over = ''tasks'', fc_inner = [demo_inner ''build'', demo_inner ''polish''],
     fc_triageSeam = True, fc_enqueueSeam = False, fc_reviveSeam = True, fc_section = (\<lambda>_. VsMissing),
     fc_dirtyExcerpt = (\<lambda>_ _. ''dirty''), fc_slotsExcerpt = (\<lambda>_ _. ''slots'')\<rparr>"

definition demo_result :: "StepRunStatus \<Rightarrow> StepRunResult" where
  "demo_result st = \<lparr>rr_status = st, rr_summary = None, rr_error = None, rr_systemic = None, rr_resultText = None,
     rr_provider = None, rr_runtime = None\<rparr>"


text \<open>Both lanes run; the first fails its first step, is rescued, passes, and is integrated.\<close>

definition demo_opening :: "crew_event list" where
  "demo_opening =
     [StartLane ''a'', StartLane ''b'', ResumeLane ''a'' (AnProbeOpen True), ResumeLane ''b'' (AnProbeOpen True)]"

definition demo_rescue :: "crew_event list" where
  "demo_rescue =
     [ResumeLane ''a'' (AnStep (demo_result StFailed)), ResumeLane ''a'' AnTurn,
      ResumeLane ''a'' (AnConsult (Some (RescueFrom ''build'' ''try again'' False None)))]"

definition demo_landing :: "crew_event list" where
  "demo_landing =
     [ResumeLane ''a'' (AnStep (demo_result StOk)), ResumeLane ''a'' (AnStep (demo_result StOk))]"


definition demo_crew :: "unit crew" where
  "demo_crew = init_crew (init_fan [''a'', ''b''] [] False)"

definition demo_after :: "crew_event list \<Rightarrow> unit crew" where
  "demo_after es = the (crew_run demo_cfg [''a'', ''b''] es demo_crew)"



lemma demo_runs:
  "crew_run demo_cfg [''a'', ''b''] demo_opening demo_crew = Some (demo_after demo_opening)"
  "crew_run demo_cfg [''a'', ''b''] (demo_opening @ demo_rescue) demo_crew = Some (demo_after (demo_opening @ demo_rescue))"
  "crew_run demo_cfg [''a'', ''b''] (demo_opening @ demo_rescue @ demo_landing) demo_crew =
     Some (demo_after (demo_opening @ demo_rescue @ demo_landing))"
proof -
  have "crew_run demo_cfg [''a'', ''b''] demo_opening demo_crew \<noteq> None" by code_simp
  moreover have "crew_run demo_cfg [''a'', ''b''] (demo_opening @ demo_rescue) demo_crew \<noteq> None" by code_simp
  moreover have "crew_run demo_cfg [''a'', ''b''] (demo_opening @ demo_rescue @ demo_landing) demo_crew \<noteq> None" by code_simp
  ultimately show
    "crew_run demo_cfg [''a'', ''b''] demo_opening demo_crew = Some (demo_after demo_opening)"
    "crew_run demo_cfg [''a'', ''b''] (demo_opening @ demo_rescue) demo_crew = Some (demo_after (demo_opening @ demo_rescue))"
    "crew_run demo_cfg [''a'', ''b''] (demo_opening @ demo_rescue @ demo_landing) demo_crew =
       Some (demo_after (demo_opening @ demo_rescue @ demo_landing))"
    by (simp_all add: demo_after_def)
qed

section \<open>Properties\<close>

text \<open>C16: Rescue budgets. However the lanes of a fan-out interleave, and whatever the monitor, the operator
  and the wave loop do, no lane spends more than three rescues, the run never spends more than its cap on the
  items it knows, and at most one lane consults at a time.\<close>

theorem crew_rescue_budgets:
  assumes "crew_run cfg items es (init_crew (init_fan items deps visual)) = Some s"
  shows "used (cr_fan s) x \<le> MONITOR_LANE_RESCUE_CAP \<and>
    int (ls_runTotal (fs_rescues (cr_fan s))) \<le> monitorRunRescueCap (int (card (ls_knownItems (fs_rescues (cr_fan s))))) \<and>
    (consulting s x \<longrightarrow> consulting s y \<longrightarrow> x = y)"
  using crew_run_ok [OF init_crew_ok assms] by (auto simp: crew_ok_def budgets_ok_def chain_ok_def run_cap_def)

theorem crew_rescue_budgets_witness:
  "\<exists>s. used (cr_fan (s :: unit crew)) ''a'' = 1 \<and> consulting (demo_after (demo_opening @ take 2 demo_rescue)) ''a'' \<and>
     used (cr_fan s) ''a'' \<le> MONITOR_LANE_RESCUE_CAP"
proof (intro exI conjI)
  show "used (cr_fan (demo_after (demo_opening @ demo_rescue))) ''a'' = 1" by code_simp
  show "consulting (demo_after (demo_opening @ take 2 demo_rescue)) ''a''" by code_simp
  show "used (cr_fan (demo_after (demo_opening @ demo_rescue))) ''a'' \<le> MONITOR_LANE_RESCUE_CAP"
    using crew_rescue_budgets [OF demo_runs(2) [unfolded demo_crew_def]] by blast
qed

text \<open>C19: Attempts. In every run of the lanes a lane's attempt number is at most three plus the rescues
  it has spent, so at most six; a rescue the lane has only reserved, while the monitor is deciding, is not
  counted.\<close>

theorem crew_attempts_bounded:
  assumes "crew_run cfg items es (init_crew (init_fan items deps visual)) = Some s"
    and "cr_lanes s x = Some (ln, w)"
  shows "ln_attempt ln + reserved w \<le> FAN_OUT_LANE_ATTEMPT_CAP + used (cr_fan s) x \<and> ln_attempt ln + reserved w \<le> 6"
  using crew_lane(1) [OF crew_run_ok [OF init_crew_ok assms(1)] assms(2)] by (simp add: lane_ok_def cap_defs)

theorem crew_attempts_bounded_witness:
  "\<exists>ln w. cr_lanes (demo_after (demo_opening @ take 2 demo_rescue)) ''a'' = Some (ln, w) \<and> reserved w = 1 \<and>
     ln_attempt (ln :: unit lane) + reserved w \<le> 6"
proof -
  let ?es = "demo_opening @ take 2 demo_rescue"
  have r: "crew_run demo_cfg [''a'', ''b''] ?es demo_crew \<noteq> None" by code_simp
  then have run: "crew_run demo_cfg [''a'', ''b''] ?es demo_crew = Some (demo_after ?es)" by (simp add: demo_after_def)
  have "case cr_lanes (demo_after ?es) ''a'' of None \<Rightarrow> False | Some (ln, w) \<Rightarrow> reserved w = 1" by code_simp
  then obtain ln w where "cr_lanes (demo_after ?es) ''a'' = Some (ln, w)" "reserved w = 1"
    by (auto split: option.splits)
  then show ?thesis using crew_attempts_bounded [OF run [unfolded demo_crew_def]] by blast
qed

text \<open>C15: Termination of a lane. From any reachable state, and as long as the operator neither rewinds the
  lane nor restarts it, the lane is resumed fewer than 14 * (5 * n + 6) times, n being the length of the
  inner chain, whatever its steps, the gate, the probe and the monitor answer and whatever its siblings do
  in between. So a lane whose awaits are answered reaches its outcome.\<close>

theorem crew_lane_terminates:
  assumes "crew_run cfg items es (init_crew (init_fan items deps visual)) = Some s"
    and "crew_run cfg items later s = Some s'" and "list_all (\<lambda>e. \<not> renews x e) later"
    and "fs_rewinds (cr_fan s) x = None"
  shows "length (filter (resumes x) later) < 14 * (5 * length (fc_inner cfg) + 6)"
proof -
  note ok = crew_run_ok [OF init_crew_ok assms(1)]
  have "lane_weight cfg x s < 14 * (5 * length (fc_inner cfg) + 6)"
    using weight_bound [OF crew_lane(1) [OF ok]] by (auto simp: lane_weight_def split: option.splits)
  then show ?thesis using crew_run_weight [OF ok assms(2-4)] by simp
qed

theorem crew_lane_terminates_witness:
  "length (filter (resumes ''a'') (demo_rescue @ demo_landing)) < 14 * (5 * length (fc_inner demo_cfg) + 6)"
proof (rule crew_lane_terminates [OF demo_runs(1) [unfolded demo_crew_def]])
  have "crew_run demo_cfg [''a'', ''b''] (demo_rescue @ demo_landing) (demo_after demo_opening) \<noteq> None" by code_simp
  then show "crew_run demo_cfg [''a'', ''b''] (demo_rescue @ demo_landing) (demo_after demo_opening) =
    Some (the (crew_run demo_cfg [''a'', ''b''] (demo_rescue @ demo_landing) (demo_after demo_opening)))" by simp
  show "list_all (\<lambda>e. \<not> renews ''a'' e) (demo_rescue @ demo_landing)" by code_simp
  show "fs_rewinds (cr_fan (demo_after demo_opening)) ''a'' = None" by code_simp
qed









end
