(* ===== verification/Permissions.thy ===== *)
theory Permissions
  imports AgentDraft
begin

text \<open>
  Permission rules (main/src/orchestrator/permissionRules.ts) and the classifier of read-only commands
  (safeCommandClassifier.ts): parsing a rule, the quote-aware split of a command, the matcher with its two
  quantifiers, the merge of the settings files under the trust model, and the read-only allowlists. A
  settings file is what \<open>JSON.parse\<close> returns for its \<open>permissions\<close> object (\<open>None\<close> when the file
  is missing or malformed); the host of a URL (\<open>new URL(url).hostname\<close>) is a parameter.
\<close>

section \<open>Rules\<close>

record ParsedRule =
  pr_toolName :: string
  pr_content :: "string option"

record MergedPermissionRules =
  mr_allow :: "string list"
  mr_deny :: "string list"
  mr_ask :: "string list"

definition endsWith :: "string \<Rightarrow> string \<Rightarrow> bool" where
  "endsWith s p = (strip_prefix (rev p) (rev s) \<noteq> None)"

definition parsePermissionRule :: "string \<Rightarrow> ParsedRule option" where
  "parsePermissionRule rule =
     (let trimmed = trim rule
      in if trimmed = [] then None
         else case find_index (\<lambda>c. c = CHR ''('') trimmed of
                None \<Rightarrow> Some \<lparr>pr_toolName = trimmed, pr_content = None\<rparr>
              | Some open \<Rightarrow>
                  if \<not> endsWith trimmed '')'' then None
                  else
                    let toolName = trim (take open trimmed);
                        content = trim (butlast (drop (open + 1) trimmed))
                    in if toolName = [] then None
                       else Some \<lparr>pr_toolName = toolName, pr_content = (if content = [] then None else Some content)\<rparr>)"

section \<open>Splitting a command\<close>

definition is_quote :: "char \<Rightarrow> bool" where
  "is_quote c \<longleftrightarrow> c = CHR 0x27 \<or> c = CHR 0x22"

definition SHELL_NEWLINE_SEPARATORS :: "char list" where
  "SHELL_NEWLINE_SEPARATORS = [CHR 0x0A, CHR 0x0D]"

definition one_char_separator :: "char \<Rightarrow> bool" where
  "one_char_separator c \<longleftrightarrow> c = CHR '';'' \<or> c = CHR ''|'' \<or> List.member SHELL_NEWLINE_SEPARATORS c"

definition two_char_separator :: "char \<Rightarrow> string \<Rightarrow> bool" where
  "two_char_separator c cs \<longleftrightarrow> (c = CHR ''&'' \<or> c = CHR ''|'') \<and> cs \<noteq> [] \<and> hd cs = c"

text \<open>The loop, with the open quote and the current segment.\<close>

fun split_loop :: "char option \<Rightarrow> string \<Rightarrow> string \<Rightarrow> string list" where
  "split_loop quote current [] = [current]"
| "split_loop (Some q) current (c # cs) = split_loop (if c = q then None else Some q) (current @ [c]) cs"
| "split_loop None current (c # cs) =
     (if is_quote c then split_loop (Some c) (current @ [c]) cs
      else if two_char_separator c cs then current # split_loop None [] (tl cs)
      else if one_char_separator c then current # split_loop None [] cs
      else split_loop None (current @ [c]) cs)"

definition splitShellSegments :: "string \<Rightarrow> string list" where
  "splitShellSegments command = filter (\<lambda>s. s \<noteq> []) (map trim (split_loop None [] command))"

definition hasCommandSubstitution :: "string \<Rightarrow> bool" where
  "hasCommandSubstitution segment \<longleftrightarrow> contains ''$('' segment \<or> contains ''`'' segment"

section \<open>Matching\<close>

definition matchBashSpecifier :: "string \<Rightarrow> string \<Rightarrow> bool" where
  "matchBashSpecifier content segment =
     (if endsWith content '':*'' then
        let prefix = trim (take (length content - 2) content)
        in prefix \<noteq> [] \<and> (segment = prefix \<or> startsWith segment (prefix @ '' ''))
      else segment = content)"

definition bashCommandAllowed :: "string \<Rightarrow> string list \<Rightarrow> bool" where
  "bashCommandAllowed command bashContents =
     (let segments = splitShellSegments command
      in segments \<noteq> [] \<and>
         list_all (\<lambda>segment. \<not> hasCommandSubstitution segment \<and>
           list_ex (\<lambda>content. matchBashSpecifier content segment) bashContents) segments)"

definition bashCommandSuppressed :: "string \<Rightarrow> string list \<Rightarrow> bool" where
  "bashCommandSuppressed command bashContents =
     list_ex (\<lambda>segment. list_ex (\<lambda>content. matchBashSpecifier content segment) bashContents)
       (splitShellSegments command)"

datatype match_mode = Grant | Suppress

text \<open>The string fields of a tool input: \<open>None\<close> for a field that is absent or no string.\<close>

record tool_input =
  ti_command :: "string option"
  ti_url :: "string option"

definition domain_matches :: "string \<Rightarrow> string \<Rightarrow> bool" where
  "domain_matches host content =
     (case strip_prefix ''domain:'' content of
        None \<Rightarrow> False
      | Some d \<Rightarrow> d \<noteq> [] \<and> \<not> list_ex (List.member SHELL_NEWLINE_SEPARATORS) d \<and> (host = d \<or> endsWith host (CHR ''.'' # d)))"

definition matchesAny ::
  "(string \<Rightarrow> string option) \<Rightarrow> string \<Rightarrow> tool_input \<Rightarrow> ParsedRule list \<Rightarrow> match_mode \<Rightarrow> bool" where
  "matchesAny urlDomain toolName input rules mode =
     (let forTool = filter (\<lambda>r. pr_toolName r = toolName) rules
      in if forTool = [] then False
         else if list_ex (\<lambda>r. pr_content r = None) forTool then True
         else if toolName = ''Bash'' then
           let command = (case ti_command input of None \<Rightarrow> [] | Some c \<Rightarrow> trim c);
               contents = List.map_filter pr_content forTool
           in if command = [] then False
              else if mode = Suppress then bashCommandSuppressed command contents
              else bashCommandAllowed command contents
         else if toolName = ''WebFetch'' then
           (case urlDomain (case ti_url input of None \<Rightarrow> [] | Some u \<Rightarrow> u) of
              None \<Rightarrow> False
            | Some host \<Rightarrow> list_ex (\<lambda>r. case pr_content r of None \<Rightarrow> False | Some c \<Rightarrow> domain_matches host c) forTool)
         else False)"

definition parse_rules :: "string list \<Rightarrow> ParsedRule list" where
  "parse_rules raw = List.map_filter parsePermissionRule raw"

definition isToolAllowed ::
  "(string \<Rightarrow> string option) \<Rightarrow> string \<Rightarrow> tool_input \<Rightarrow> MergedPermissionRules \<Rightarrow> bool" where
  "isToolAllowed urlDomain toolName input rules =
     (if matchesAny urlDomain toolName input (parse_rules (mr_deny rules)) Suppress then False
      else if matchesAny urlDomain toolName input (parse_rules (mr_ask rules)) Suppress then False
      else matchesAny urlDomain toolName input (parse_rules (mr_allow rules)) Grant)"

section \<open>Settings\<close>

datatype json = JsonString string | JsonArray "json list" | JsonOther

type_synonym settings_file = "(string \<rightharpoonup> json) option"

fun json_strings :: "json list \<Rightarrow> string list" where
  "json_strings [] = []"
| "json_strings (JsonString s # js) = s # json_strings js"
| "json_strings (_ # js) = json_strings js"

definition readRuleArray :: "settings_file \<Rightarrow> string \<Rightarrow> string list" where
  "readRuleArray file key =
     (case file of
        None \<Rightarrow> []
      | Some permissions \<Rightarrow> (case permissions key of Some (JsonArray arr) \<Rightarrow> json_strings arr | _ \<Rightarrow> []))"

definition projectSettingsContainAllowRules :: "settings_file list \<Rightarrow> bool" where
  "projectSettingsContainAllowRules projectFiles = list_ex (\<lambda>file. readRuleArray file ''allow'' \<noteq> []) projectFiles"

text \<open>The trust of a project: the environment override or the resolver, \<open>None\<close> when it throws.\<close>

definition trust_project :: "bool \<Rightarrow> bool option \<Rightarrow> bool" where
  "trust_project override resolved = (override \<or> resolved = Some True)"

definition loadMergedPermissionRules ::
  "bool \<Rightarrow> bool option \<Rightarrow> settings_file \<Rightarrow> settings_file list \<Rightarrow> MergedPermissionRules" where
  "loadMergedPermissionRules override resolved userFile projectFiles =
     (let trusted = trust_project override resolved
      in \<lparr>mr_allow = js_set (readRuleArray userFile ''allow'' @
              (if trusted then concat (map (\<lambda>f. readRuleArray f ''allow'') projectFiles) else [])),
          mr_deny = js_set (readRuleArray userFile ''deny'' @ concat (map (\<lambda>f. readRuleArray f ''deny'') projectFiles)),
          mr_ask = js_set (readRuleArray userFile ''ask'' @ concat (map (\<lambda>f. readRuleArray f ''ask'') projectFiles))\<rparr>)"

end
