(* ===== verification/SafeCommand.thy ===== *)
theory SafeCommand
  imports Permissions
begin

text \<open>
  The classifier of read-only tool calls (main/src/orchestrator/safeCommandClassifier.ts): the allowlists of
  git subcommands and shell programs, and the checks of a segment and of a command.
\<close>

definition ACCEPT_EDITS_SAFE_READONLY_TOOLS :: "string list" where
  "ACCEPT_EDITS_SAFE_READONLY_TOOLS = [''Read'', ''Glob'', ''Grep'', ''LS'', ''NotebookRead'', ''TodoWrite'']"

definition ALWAYS_READONLY_GIT_SUBCOMMANDS :: "string list" where
  "ALWAYS_READONLY_GIT_SUBCOMMANDS =
     [''status'', ''diff'', ''log'', ''show'', ''blame'', ''shortlog'', ''reflog'', ''rev-parse'', ''rev-list'',
      ''describe'', ''ls-files'', ''ls-tree'', ''cat-file'', ''grep'', ''show-branch'', ''whatchanged'', ''name-rev'',
      ''merge-base'', ''count-objects'', ''verify-commit'', ''verify-tag'', ''var'']"

definition MUTATING_BRANCH_FLAGS :: "string list" where
  "MUTATING_BRANCH_FLAGS =
     [''-d'', ''-D'', ''-m'', ''-M'', ''-c'', ''-C'', ''--delete'', ''--move'', ''--copy'', ''--force'',
      ''--edit-description'', ''--set-upstream-to'', ''-u'', ''--unset-upstream'']"

definition SAFE_READONLY_SHELL_PROGRAMS :: "string list" where
  "SAFE_READONLY_SHELL_PROGRAMS =
     [''ls'', ''pwd'', ''cat'', ''head'', ''tail'', ''wc'', ''echo'', ''printf'', ''which'', ''whoami'', ''id'', ''date'',
      ''hostname'', ''uname'', ''basename'', ''dirname'', ''realpath'', ''readlink'', ''tree'', ''stat'', ''file'', ''du'',
      ''df'', ''grep'', ''egrep'', ''fgrep'', ''rg'', ''ag'', ''sort'', ''uniq'', ''cut'', ''column'', ''nl'', ''diff'',
      ''cmp'', ''comm'']"

text \<open>\<open>split(/\s+/)\<close> without the empty pieces.\<close>

fun words_loop :: "string \<Rightarrow> string \<Rightarrow> string list" where
  "words_loop current [] = [current]"
| "words_loop current (c # cs) = (if js_space c then current # words_loop [] cs else words_loop (current @ [c]) cs)"

definition tokenize :: "string \<Rightarrow> string list" where
  "tokenize segment = filter (\<lambda>t. t \<noteq> []) (words_loop [] (trim segment))"

definition flagName :: "string \<Rightarrow> string" where
  "flagName token = takeWhile (\<lambda>c. c \<noteq> CHR ''='') token"

definition is_flag :: "string \<Rightarrow> bool" where
  "is_flag t = startsWith t ''-''"

definition isSafeReadOnlyGitInvocation :: "string list \<Rightarrow> bool" where
  "isSafeReadOnlyGitInvocation args =
     (case args of
        [] \<Rightarrow> False
      | sub # subArgs \<Rightarrow>
          if is_flag sub then False
          else if List.member ALWAYS_READONLY_GIT_SUBCOMMANDS sub then True
          else if sub = ''branch'' then
            list_all is_flag subArgs \<and> \<not> list_ex (\<lambda>t. List.member MUTATING_BRANCH_FLAGS (flagName t)) subArgs
          else if sub = ''tag'' then list_all is_flag subArgs
          else if sub = ''remote'' then
            subArgs = [] \<or> List.member [''-v'', ''--verbose'', ''show'', ''get-url''] (hd subArgs)
          else if sub = ''config'' then
            subArgs \<noteq> [] \<and> List.member [''--get'', ''--get-all'', ''--get-regexp'', ''--list'', ''-l''] (hd subArgs)
          else if sub = ''stash'' then subArgs \<noteq> [] \<and> List.member [''list'', ''show''] (hd subArgs)
          else False)"

definition redirects :: "string \<Rightarrow> bool" where
  "redirects segment = list_ex (\<lambda>c. c = CHR ''<'' \<or> c = CHR ''>'' \<or> c = CHR ''&'') segment"

definition isSafeReadOnlySegment :: "string \<Rightarrow> bool" where
  "isSafeReadOnlySegment segment =
     (if hasCommandSubstitution segment then False
      else if redirects segment then False
      else case tokenize segment of
             [] \<Rightarrow> False
           | program # args \<Rightarrow>
               if program = ''git'' then isSafeReadOnlyGitInvocation args
               else List.member SAFE_READONLY_SHELL_PROGRAMS program)"

definition isSafeReadOnlyBashCommand :: "string \<Rightarrow> bool" where
  "isSafeReadOnlyBashCommand rawCommand =
     (let command = trim rawCommand
      in if command = [] then False
         else if list_ex (List.member SHELL_NEWLINE_SEPARATORS) command then False
         else let segments = splitShellSegments command
              in segments \<noteq> [] \<and> list_all isSafeReadOnlySegment segments)"

definition isSafeReadOnlyToolCall :: "string \<Rightarrow> tool_input \<Rightarrow> bool" where
  "isSafeReadOnlyToolCall toolName input =
     (if List.member ACCEPT_EDITS_SAFE_READONLY_TOOLS toolName then True
      else if toolName = ''Bash'' then
        (case ti_command input of None \<Rightarrow> False | Some command \<Rightarrow> isSafeReadOnlyBashCommand command)
      else False)"

end
