(* ===== verification/PermissionProps.thy ===== *)
theory PermissionProps
  imports SafeCommand
begin

text \<open>
  Properties of the permission rules and of the read-only classifier: the split of a command against a
  reference reading of shell quoting, the two quantifiers of the matcher, the trust model, and what an
  automatically approved command can be.
\<close>

section \<open>The split\<close>

text \<open>A string with no separator outside quotes, from an open quote on.\<close>

fun whole :: "char option \<Rightarrow> string \<Rightarrow> bool" where
  "whole quote [] = True"
| "whole (Some q) (c # cs) = whole (if c = q then None else Some q) cs"
| "whole None (c # cs) =
     (if is_quote c then whole (Some c) cs
      else \<not> two_char_separator c cs \<and> \<not> one_char_separator c \<and> whole None cs)"

lemma whole_split: "whole q s \<Longrightarrow> split_loop q current s = [current @ s]"
  by (induction q s arbitrary: current rule: whole.induct) (auto split: if_splits)

text \<open>The segments without the accumulator.\<close>

fun segs :: "char option \<Rightarrow> string \<Rightarrow> string list" where
  "segs quote [] = [[]]"
| "segs (Some q) (c # cs) = (let r = segs (if c = q then None else Some q) cs in (c # hd r) # tl r)"
| "segs None (c # cs) =
     (if is_quote c then (let r = segs (Some c) cs in (c # hd r) # tl r)
      else if two_char_separator c cs then [] # segs None (tl cs)
      else if one_char_separator c then [] # segs None cs
      else (let r = segs None cs in (c # hd r) # tl r))"

lemma segs_ne [simp]: "segs q s \<noteq> []"
  by (induction q s rule: segs.induct) (auto simp: Let_def)

lemma segs_prefix: "\<exists>r. s = hd (segs q s) @ r"
  by (induction q s rule: segs.induct) (auto simp: Let_def)

lemma split_segs: "split_loop q current s = (current @ hd (segs q s)) # tl (segs q s)"
  by (induction q current s rule: split_loop.induct) (auto simp: Let_def)

lemma segs_whole: "whole q (hd (segs q s)) \<and> list_all (whole None) (tl (segs q s))"
proof (induction q s rule: segs.induct)
  case (3 c cs)
  have pre: "two_char_separator c (h @ r)" if "two_char_separator c h" for h r
    using that by (auto simp: two_char_separator_def)
  have two: "two_char_separator c cs" if "two_char_separator c (hd (segs None cs))"
    using pre [OF that] segs_prefix [of cs None] by metis
  have all: "list_all (whole None) (segs None ds)" if "whole None (hd (segs None ds)) \<and> list_all (whole None) (tl (segs None ds))" for ds
    using that by (cases "segs None ds") auto
  show ?case using 3 two all by (auto simp: Let_def)
qed (auto simp: Let_def)

lemma whole_prefix: "whole q (s @ r) \<Longrightarrow> whole q s"
  by (induction q s rule: whole.induct) (auto simp: two_char_separator_def split: if_splits)

lemma space_plain: "js_space c \<Longrightarrow> \<not> is_quote c"
  by (auto simp: js_space_def is_quote_def code_def)

lemma whole_dropWhile: "whole None s \<Longrightarrow> whole None (dropWhile js_space s)"
  by (induction s) (auto simp: space_plain)

lemma rstrip_prefix: "\<exists>r. s = rstrip P s @ r"
proof -
  have "rev s = takeWhile P (rev s) @ dropWhile P (rev s)" by simp
  then have "rev (rev s) = rev (dropWhile P (rev s)) @ rev (takeWhile P (rev s))" by (metis rev_append)
  then have "s = rstrip P s @ rev (takeWhile P (rev s))" by (simp add: rstrip_def)
  then show ?thesis by (rule exI)
qed

lemma whole_trim: "whole None s \<Longrightarrow> whole None (trim s)"
  unfolding trim_def using whole_dropWhile rstrip_prefix [of "dropWhile js_space s" js_space] whole_prefix by metis

lemma dropWhile_idem: "dropWhile P (dropWhile P s) = dropWhile P s"
  by (induction s) auto

lemma rstrip_idem: "rstrip P (rstrip P s) = rstrip P s"
  by (simp add: rstrip_def dropWhile_idem)

lemma rstrip_front: "s = [] \<or> \<not> P (hd s) \<Longrightarrow> rstrip P s = [] \<or> \<not> P (hd (rstrip P s))"
proof -
  assume s: "s = [] \<or> \<not> P (hd s)"
  obtain r where r: "s = rstrip P s @ r" using rstrip_prefix by blast
  have "t = [] \<or> \<not> P (hd t)" if "s = t @ r" for t using s that by (cases t) auto
  then show ?thesis using r by blast
qed

lemma trim_idem [simp]: "trim (trim s) = trim s"
proof -
  let ?t = "dropWhile js_space s"
  have "?t = [] \<or> \<not> js_space (hd ?t)" by (metis hd_dropWhile)
  then have "rstrip js_space ?t = [] \<or> \<not> js_space (hd (rstrip js_space ?t))" by (rule rstrip_front)
  then have "dropWhile js_space (rstrip js_space ?t) = rstrip js_space ?t"
    by (cases "rstrip js_space ?t") auto
  then show ?thesis by (simp add: trim_def rstrip_idem)
qed

lemma segment_whole: "seg \<in> set (splitShellSegments command) \<Longrightarrow> whole None seg \<and> trim seg = seg \<and> seg \<noteq> []"
proof -
  assume "seg \<in> set (splitShellSegments command)"
  then obtain s where s: "s \<in> set (hd (segs None command) # tl (segs None command))" "seg = trim s" "seg \<noteq> []"
    by (auto simp: splitShellSegments_def split_segs)
  then have "whole None s" using segs_whole [of None command] by (cases "segs None command") (auto simp: list_all_iff)
  then show ?thesis using s(2,3) whole_trim by auto
qed

section \<open>A reference reading of shell quoting\<close>







section \<open>Grants and suppressors\<close>

lemma suppressed_mono: "set cs \<subseteq> set ds \<Longrightarrow> bashCommandSuppressed command cs \<Longrightarrow> bashCommandSuppressed command ds"
  by (auto simp: bashCommandSuppressed_def list_ex_iff)

lemma allowed_mono: "set cs \<subseteq> set ds \<Longrightarrow> bashCommandAllowed command cs \<Longrightarrow> bashCommandAllowed command ds"
  by (fastforce simp: bashCommandAllowed_def Let_def list_all_iff list_ex_iff)

lemma map_filter_set: "set (List.map_filter f xs) = {y. \<exists>x \<in> set xs. f x = Some y}"
  by (force simp: map_filter_def)

text \<open>More rules match more calls, in both modes.\<close>

lemma matches_mono:
  assumes "matchesAny d toolName input rules mode" and "set rules \<subseteq> set rules'"
  shows "matchesAny d toolName input rules' mode"
proof -
  let ?f = "filter (\<lambda>r. pr_toolName r = toolName)"
  have sub: "set (?f rules) \<subseteq> set (?f rules')" using assms(2) by auto
  have c: "set (List.map_filter pr_content (?f rules)) \<subseteq> set (List.map_filter pr_content (?f rules'))"
    using sub by (auto simp: map_filter_set)
  have ne: "?f rules \<noteq> []" using assms(1) by (auto simp: matchesAny_def Let_def)
  then have ne': "?f rules' \<noteq> []" using sub by (metis set_empty2 subset_empty)
  show ?thesis
  proof (cases "list_ex (\<lambda>r. pr_content r = None) (?f rules')")
    case True
    then show ?thesis using ne' by (simp add: matchesAny_def Let_def)
  next
    case False
    then have "\<not> list_ex (\<lambda>r. pr_content r = None) (?f rules)" using sub by (auto simp: list_ex_iff)
    then show ?thesis using assms(1) False ne ne' suppressed_mono [OF c] allowed_mono [OF c] sub
      by (auto simp: matchesAny_def Let_def list_ex_iff split: if_splits option.splits)
  qed
qed

lemma set_parse_rules: "set (parse_rules raw) = {r. \<exists>x \<in> set raw. parsePermissionRule x = Some r}"
  by (simp add: parse_rules_def map_filter_set)

lemma parse_rules_mono: "set raw \<subseteq> set raw' \<Longrightarrow> set (parse_rules raw) \<subseteq> set (parse_rules raw')"
  by (auto simp: set_parse_rules)

lemma allowed_narrowed:
  assumes "isToolAllowed d toolName input rules" and "set (mr_allow rules) \<subseteq> set (mr_allow rules')"
    and "set (mr_deny rules') \<subseteq> set (mr_deny rules)" and "set (mr_ask rules') \<subseteq> set (mr_ask rules)"
  shows "isToolAllowed d toolName input rules'"
  using assms(1) matches_mono [OF _ parse_rules_mono [OF assms(2)]] matches_mono [OF _ parse_rules_mono [OF assms(3)]]
    matches_mono [OF _ parse_rules_mono [OF assms(4)]]
  by (auto simp: isToolAllowed_def split: if_splits)




section \<open>Properties\<close>

text \<open>Segments are stable. Every segment of a command is trimmed, non-empty and splits into itself
  alone, so checking a segment is checking a command without separators.\<close>

theorem split_segments_stable:
  assumes "seg \<in> set (splitShellSegments command)"
  shows "seg \<noteq> [] \<and> trim seg = seg \<and> splitShellSegments seg = [seg]"
  using segment_whole [OF assms] by (simp add: splitShellSegments_def whole_split)

theorem split_segments_stable_witness:
  "''git add .'' \<in> set (splitShellSegments ''git add . && git push'') \<and> splitShellSegments ''git add .'' = [''git add .'']"
proof -
  have "''git add .'' \<in> set (splitShellSegments ''git add . && git push'')" by code_simp
  then show ?thesis using split_segments_stable by blast
qed










definition demo_rules :: MergedPermissionRules where
  "demo_rules = \<lparr>mr_allow = [''Bash(git:*)''], mr_deny = [''Bash(git push:*)''], mr_ask = []\<rparr>"


text \<open>C23: A repository cannot approve itself. When the project is not trusted (no environment override, and
  a resolver that says no or throws), whatever its settings files contain, a call that is allowed with them is
  allowed by the user's own settings alone.\<close>

theorem untrusted_project_never_grants:
  assumes "isToolAllowed urlDomain toolName input (loadMergedPermissionRules False resolved userFile projectFiles)"
    and "resolved \<noteq> Some True"
  shows "isToolAllowed urlDomain toolName input (loadMergedPermissionRules False resolved userFile [])"
  using assms(1) by (rule allowed_narrowed)
    (use assms(2) in \<open>auto simp: loadMergedPermissionRules_def trust_project_def Let_def\<close>)

theorem untrusted_project_never_grants_witness:
  "isToolAllowed (\<lambda>_. None) ''WebSearch'' \<lparr>ti_command = None, ti_url = None\<rparr>
     (loadMergedPermissionRules False None (Some [''allow'' \<mapsto> JsonArray [JsonString ''WebSearch'']]) [])"
proof (rule untrusted_project_never_grants [where projectFiles = "[Some [''allow'' \<mapsto> JsonArray [JsonString ''Bash'']]]"])
  show "isToolAllowed (\<lambda>_. None) ''WebSearch'' \<lparr>ti_command = None, ti_url = None\<rparr>
     (loadMergedPermissionRules False None (Some [''allow'' \<mapsto> JsonArray [JsonString ''WebSearch'']])
       [Some [''allow'' \<mapsto> JsonArray [JsonString ''Bash'']]])" by code_simp
qed simp

text \<open>A suppressor is evaded by a second space: the specifier compares the text, not the words.\<close>

lemma respaced_push_is_allowed:
  "isToolAllowed d ''Bash'' \<lparr>ti_command = Some ''git  push'', ti_url = None\<rparr> demo_rules"
  "\<not> isToolAllowed d ''Bash'' \<lparr>ti_command = Some ''git push'', ti_url = None\<rparr> demo_rules"
  "tokenize ''git  push'' = tokenize ''git push''"
  by code_simp+

text \<open>The lists name programs and subcommands, not their options: these approved commands write.\<close>

lemma approved_commands_that_write:
  "list_all isSafeReadOnlyBashCommand
     [''git reflog expire --expire=now --all'', ''git diff --output=victim.txt'', ''sort -o victim.txt input.txt'',
      ''uniq input.txt victim.txt'', ''hostname other'']"
  by code_simp

end
