(* ===== verification/Hlc.thy ===== *)
theory Hlc
  imports JsString
begin

text \<open>
  The hybrid logical clock of the backlog sync (main/src/services/remoteSync/hlc.ts). A stamp is a string;
  \<open>compareHlc\<close> compares the parsed parts and falls back to string order; the clock is its state and the
  two operations \<open>next\<close> and \<open>observe\<close>. Wall-clock readings are natural numbers of milliseconds;
  \<open>Date.parse\<close> is a parameter. Device ids are ASCII, as the random ids of the program are, so that the
  order of UTF-16 code units is the order of characters.
\<close>

section \<open>Stamps\<close>

record Hlc =
  hl_ms :: nat
  hl_ctr :: nat
  hl_deviceId :: string

definition MAX_CTR :: nat where "MAX_CTR = 99999"

definition digit_of :: "char \<Rightarrow> nat" where "digit_of c = code c - 48"

definition to_number :: "string \<Rightarrow> nat" where
  "to_number ds = foldl (\<lambda>n c. 10 * n + digit_of c) 0 ds"

definition line_break :: "char \<Rightarrow> bool" where
  "line_break c \<longleftrightarrow> c = CHR 0x0A \<or> c = CHR 0x0D"

definition parseHlc :: "string \<Rightarrow> Hlc option" where
  "parseHlc s =
     (let ms = take 13 s; r = drop 13 s; ctr = take 5 (tl r); q = drop 5 (tl r); dev = tl q
      in if length ms = 13 \<and> list_all js_digit ms \<and> r \<noteq> [] \<and> hd r = CHR '':'' \<and>
            length ctr = 5 \<and> list_all js_digit ctr \<and> q \<noteq> [] \<and> hd q = CHR '':'' \<and>
            dev \<noteq> [] \<and> \<not> list_ex line_break dev
         then Some \<lparr>hl_ms = to_number ms, hl_ctr = to_number ctr, hl_deviceId = dev\<rparr>
         else None)"

definition padStart :: "nat \<Rightarrow> string \<Rightarrow> string" where
  "padStart n s = replicate (n - length s) (CHR ''0'') @ s"

definition formatHlc :: "Hlc \<Rightarrow> string" where
  "formatHlc h = padStart 13 (nat_text (hl_ms h)) @ '':'' @ padStart 5 (nat_text (hl_ctr h)) @ '':'' @ hl_deviceId h"

text \<open>\<open>a < b\<close> on strings.\<close>

fun js_less :: "string \<Rightarrow> string \<Rightarrow> bool" where
  "js_less _ [] = False"
| "js_less [] (_ # _) = True"
| "js_less (a # as) (b # bs) = (if a = b then js_less as bs else code a < code b)"

definition js_order :: "string \<Rightarrow> string \<Rightarrow> int" where
  "js_order a b = (if a = b then 0 else if js_less a b then -1 else 1)"

definition compareHlc :: "string \<Rightarrow> string \<Rightarrow> int" where
  "compareHlc a b =
     (case (parseHlc a, parseHlc b) of
        (Some pa, Some pb) \<Rightarrow>
          if hl_ms pa \<noteq> hl_ms pb then (if hl_ms pa < hl_ms pb then -1 else 1)
          else if hl_ctr pa \<noteq> hl_ctr pb then (if hl_ctr pa < hl_ctr pb then -1 else 1)
          else if hl_deviceId pa = hl_deviceId pb then 0
          else if js_less (hl_deviceId pa) (hl_deviceId pb) then -1 else 1
      | _ \<Rightarrow> js_order a b)"

section \<open>The clock\<close>

record HlcClock =
  hc_deviceId :: string
  hc_state :: "(nat \<times> nat) option"

definition newHlcClock :: "string \<Rightarrow> string option \<Rightarrow> HlcClock" where
  "newHlcClock deviceId stored =
     \<lparr>hc_deviceId = deviceId,
      hc_state = (case stored of
                    None \<Rightarrow> None
                  | Some l \<Rightarrow> if l = [] then None else map_option (\<lambda>h. (hl_ms h, hl_ctr h)) (parseHlc l))\<rparr>"

definition clock_stamp :: "string \<Rightarrow> nat \<times> nat \<Rightarrow> string" where
  "clock_stamp deviceId st = formatHlc \<lparr>hl_ms = fst st, hl_ctr = snd st, hl_deviceId = deviceId\<rparr>"

definition clock_last :: "HlcClock \<Rightarrow> string option" where
  "clock_last c = map_option (clock_stamp (hc_deviceId c)) (hc_state c)"

definition next_state :: "nat \<Rightarrow> (nat \<times> nat) option \<Rightarrow> nat \<times> nat" where
  "next_state wall st =
     (let ms = (case st of Some (sms, _) \<Rightarrow> max wall sms | None \<Rightarrow> wall);
          ctr = (case st of Some (sms, sctr) \<Rightarrow> if ms = sms then sctr + 1 else 0 | None \<Rightarrow> 0)
      in if ctr > MAX_CTR then (ms + 1, 0) else (ms, ctr))"

definition clock_next :: "nat \<Rightarrow> HlcClock \<Rightarrow> string \<times> HlcClock" where
  "clock_next wall c =
     (let st = next_state wall (hc_state c)
      in (clock_stamp (hc_deviceId c) st, c\<lparr>hc_state := Some st\<rparr>))"

definition clock_observe :: "string \<Rightarrow> HlcClock \<Rightarrow> HlcClock" where
  "clock_observe remote c =
     (case parseHlc remote of
        None \<Rightarrow> c
      | Some r \<Rightarrow>
          (case hc_state c of
             None \<Rightarrow> c\<lparr>hc_state := Some (hl_ms r, hl_ctr r)\<rparr>
           | Some (ms, ctr) \<Rightarrow>
               if hl_ms r > ms then c\<lparr>hc_state := Some (hl_ms r, hl_ctr r)\<rparr>
               else if hl_ms r = ms \<and> hl_ctr r > ctr then c\<lparr>hc_state := Some (hl_ms r, hl_ctr r)\<rparr>
               else c))"

text \<open>\<open>hlcFromIso\<close>: a SQLite timestamp without a zone is read as UTC.\<close>

definition matches_shape :: "string \<Rightarrow> string \<Rightarrow> bool" where
  "matches_shape shape s \<longleftrightarrow> length s = length shape \<and>
     list_all2 (\<lambda>p c. if p = CHR ''d'' then js_digit c else c = p) shape s"

definition sqlite_datetime :: "string \<Rightarrow> bool" where
  "sqlite_datetime s \<longleftrightarrow>
     matches_shape ''dddd-dd-dd dd:dd:dd'' (take 19 s) \<and>
     (drop 19 s = [] \<or>
      (hd (drop 19 s) = CHR ''.'' \<and> drop 20 s \<noteq> [] \<and> list_all js_digit (drop 20 s)))"

definition hlcFromIso :: "(string \<Rightarrow> int option) \<Rightarrow> string \<Rightarrow> string \<Rightarrow> string option" where
  "hlcFromIso date_parse stamp deviceId =
     (let s0 = trim stamp;
          s = (if sqlite_datetime s0 then take 10 s0 @ ''T'' @ drop 11 s0 @ ''Z'' else s0)
      in case date_parse s of
           None \<Rightarrow> None
         | Some ms \<Rightarrow>
             if ms < 0 \<or> ms > 9999999999999 then None
             else Some (formatHlc \<lparr>hl_ms = nat ms, hl_ctr = 0, hl_deviceId = deviceId\<rparr>))"

section \<open>Digits\<close>

declare nat_text.simps [simp del]

lemma digit_char: "k < 10 \<Longrightarrow> code (''0123456789'' ! k) = 48 + k"
proof -
  assume "k < 10"
  then have "k \<in> {0, 1, 2, 3, 4, 5, 6, 7, 8, 9}" by auto
  then show ?thesis by (auto simp: code_def)
qed

lemma to_number_snoc: "to_number (ds @ [c]) = 10 * to_number ds + digit_of c"
  by (simp add: to_number_def)

lemma nat_text_number: "to_number (nat_text n) = n"
proof (induction n rule: nat_text.induct)
  case (1 n)
  show ?case
  proof (cases "n < 10")
    case True
    then show ?thesis by (subst nat_text.simps) (simp add: to_number_def digit_of_def digit_char)
  next
    case False
    then show ?thesis using 1
      by (subst nat_text.simps) (simp add: to_number_snoc digit_of_def digit_char)
  qed
qed

lemma nat_text_digits: "list_all js_digit (nat_text n)"
proof (induction n rule: nat_text.induct)
  case (1 n)
  have d: "js_digit (''0123456789'' ! k)" if "k < 10" for k using digit_char [OF that] that by (simp add: js_digit_def)
  then show ?case using 1 by (subst nat_text.simps) (simp add: d)
qed

lemma nat_text_length: "n < 10 ^ k \<Longrightarrow> 0 < k \<Longrightarrow> length (nat_text n) \<le> k"
proof (induction n arbitrary: k rule: nat_text.induct)
  case (1 n)
  show ?case
  proof (cases "n < 10")
    case True
    then show ?thesis using 1 by (subst nat_text.simps) simp
  next
    case False
    then obtain j where j: "k = Suc j" "0 < j" using 1(2,3) by (cases k; cases "k - 1") auto
    then have "n div 10 < 10 ^ j" using 1(2) by (simp add: less_mult_imp_div_less mult.commute)
    then show ?thesis using 1(1) [OF False _ j(2)] False j(1) by (subst nat_text.simps) simp
  qed
qed

lemma pad_number: "to_number (replicate m (CHR ''0'') @ s) = to_number s"
proof -
  have "foldl (\<lambda>n c. 10 * n + digit_of c) 0 (replicate m (CHR ''0'')) = 0"
    by (induction m) (simp_all add: digit_of_def code_def)
  then show ?thesis by (simp add: to_number_def)
qed

lemma padStart_digits:
  assumes "n < 10 ^ k" and "0 < k"
  shows "length (padStart k (nat_text n)) = k" "list_all js_digit (padStart k (nat_text n))"
    "to_number (padStart k (nat_text n)) = n"
proof -
  have zero: "js_digit (CHR ''0'')" by (simp add: js_digit_def code_def)
  show "length (padStart k (nat_text n)) = k" using nat_text_length [OF assms] by (simp add: padStart_def)
  show "list_all js_digit (padStart k (nat_text n))" using nat_text_digits [of n] zero
    by (auto simp: padStart_def list_all_iff)
  show "to_number (padStart k (nat_text n)) = n" by (simp add: padStart_def pad_number nat_text_number)
qed

text \<open>Digit strings of one length are ordered as their numbers are.\<close>

lemma number_bound: "list_all js_digit ds \<Longrightarrow> to_number ds < 10 ^ length ds"
proof (induction ds rule: rev_induct)
  case (snoc c ds)
  then have "digit_of c \<le> 9" by (auto simp: digit_of_def js_digit_def)
  then show ?case using snoc by (simp add: to_number_snoc)
qed (simp add: to_number_def)

lemma to_number_Cons: "to_number (c # ds) = digit_of c * 10 ^ length ds + to_number ds"
proof (induction ds rule: rev_induct)
  case Nil
  then show ?case by (simp add: to_number_def)
next
  case (snoc d ds)
  have "to_number (c # ds @ [d]) = 10 * to_number (c # ds) + digit_of d" using to_number_snoc [of "c # ds" d] by simp
  then show ?case using snoc by (simp add: to_number_snoc)
qed

lemma digits_order:
  assumes "length as = length bs" and "list_all js_digit as" and "list_all js_digit bs"
  shows "js_less as bs \<longleftrightarrow> to_number as < to_number bs" "as = bs \<longleftrightarrow> to_number as = to_number bs"
proof -
  have "(js_less as bs \<longleftrightarrow> to_number as < to_number bs) \<and> (as = bs \<longleftrightarrow> to_number as = to_number bs)"
    using assms
  proof (induction as bs rule: list_induct2)
    case (Cons a as b bs)
    let ?w = "(10::nat) ^ length bs"
    have lt: "to_number as < ?w" "to_number bs < ?w" using number_bound [of as] number_bound [of bs] Cons by simp_all
    have inj: "code a = code b \<Longrightarrow> a = b" by (simp add: code_def)
    have d: "digit_of a < digit_of b \<longleftrightarrow> code a < code b" "digit_of a = digit_of b \<longleftrightarrow> a = b"
      using Cons.prems inj by (auto simp: digit_of_def js_digit_def)
    consider "digit_of a < digit_of b" | "digit_of b < digit_of a" | "a = b" using d by linarith
    then show ?case
    proof cases
      case 1
      then have "digit_of a * ?w + to_number as < digit_of b * ?w + to_number bs"
        using lt(1) mult_le_mono1 [of "Suc (digit_of a)" "digit_of b" ?w] by simp
      then show ?thesis using 1 d Cons by (auto simp: to_number_Cons)
    next
      case 2
      then have "digit_of b * ?w + to_number bs < digit_of a * ?w + to_number as"
        using lt(2) mult_le_mono1 [of "Suc (digit_of b)" "digit_of a" ?w] by simp
      moreover have "a \<noteq> b" "\<not> code a < code b" using 2 d by auto
      ultimately show ?thesis using Cons by (auto simp: to_number_Cons)
    next
      case 3
      then show ?thesis using Cons by (simp add: to_number_Cons)
    qed
  qed (simp add: to_number_def)
  then show "js_less as bs \<longleftrightarrow> to_number as < to_number bs" "as = bs \<longleftrightarrow> to_number as = to_number bs" by simp_all
qed

lemma js_less_append:
  "length a = length b \<Longrightarrow> js_less (a @ r) (b @ t) \<longleftrightarrow> (if a = b then js_less r t else js_less a b)"
  by (induction a b rule: list_induct2) auto

end
