(* ===== verification/HlcProps.thy ===== *)
theory HlcProps
  imports Hlc
begin

text \<open>
  The laws of the backlog clock: stamps are exactly the formatted triples in range, comparing stamps is
  comparing strings, and the clock only moves forward while its millisecond part has 13 digits.
\<close>

section \<open>Stamps in range\<close>

definition stamp_in_range :: "Hlc \<Rightarrow> bool" where
  "stamp_in_range h \<longleftrightarrow> hl_ms h < 10 ^ 13 \<and> hl_ctr h \<le> MAX_CTR \<and> hl_deviceId h \<noteq> [] \<and>
     \<not> list_ex line_break (hl_deviceId h)"

lemma padStart_of_number:
  assumes "length ds = k" and "list_all js_digit ds" and "0 < k"
  shows "padStart k (nat_text (to_number ds)) = ds"
proof -
  have b: "to_number ds < 10 ^ k" using number_bound [OF assms(2)] assms(1) by simp
  show ?thesis
    using digits_order(2) [of "padStart k (nat_text (to_number ds))" ds]
      padStart_digits(1) [OF b assms(3)] padStart_digits(2) [OF b assms(3)] padStart_digits(3) [OF b assms(3)] assms(1,2)
    by (simp del: power_Suc)
qed

lemma format_parts:
  assumes "stamp_in_range h"
  obtains m c where "formatHlc h = m @ '':'' @ c @ '':'' @ hl_deviceId h"
    "length m = 13" "length c = 5" "list_all js_digit m" "list_all js_digit c"
    "to_number m = hl_ms h" "to_number c = hl_ctr h"
proof -
  have m: "hl_ms h < 10 ^ 13" and c: "hl_ctr h < 10 ^ 5" using assms by (auto simp: stamp_in_range_def MAX_CTR_def)
  show ?thesis
    using that [OF formatHlc_def] padStart_digits [OF m] padStart_digits [OF c] by simp
qed

lemma parse_parts:
  assumes "length m = 13" and "length c = 5" and "list_all js_digit m" and "list_all js_digit c"
  shows "parseHlc (m @ CHR '':'' # c @ CHR '':'' # d) =
    (if d \<noteq> [] \<and> \<not> list_ex line_break d
     then Some \<lparr>hl_ms = to_number m, hl_ctr = to_number c, hl_deviceId = d\<rparr> else None)"
  using assms by (simp add: parseHlc_def Let_def)

lemma parse_format:
  assumes "stamp_in_range h" shows "parseHlc (formatHlc h) = Some h"
  using assms by (rule format_parts) (use assms in \<open>simp add: parse_parts stamp_in_range_def\<close>)

lemma list_at: "i < length xs \<Longrightarrow> drop i xs = xs ! i # drop (Suc i) xs"
  by (simp add: Cons_nth_drop_Suc)

lemma parse_shape:
  assumes "parseHlc s = Some h"
  shows "s = formatHlc h" "stamp_in_range h"
proof -
  define m where "m = take 13 s"
  define r where "r = drop 13 s"
  define c where "c = take 5 (tl r)"
  define q where "q = drop 5 (tl r)"
  have p: "length m = 13" "list_all js_digit m" "r \<noteq> []" "hd r = CHR '':''" "length c = 5" "list_all js_digit c"
    "q \<noteq> []" "hd q = CHR '':''" "tl q \<noteq> []" "\<not> list_ex line_break (tl q)"
    and h: "h = \<lparr>hl_ms = to_number m, hl_ctr = to_number c, hl_deviceId = tl q\<rparr>"
    using assms by (auto simp: parseHlc_def Let_def m_def r_def c_def q_def split: if_splits)
  have "s = m @ r" by (simp add: m_def r_def)
  also have "r = CHR '':'' # tl r" using p(3,4) by (cases r) auto
  also have "tl r = c @ q" by (simp add: c_def q_def)
  also have "q = CHR '':'' # tl q" using p(7,8) by (cases q) auto
  finally have s: "s = m @ '':'' @ c @ '':'' @ tl q" by simp
  show "s = formatHlc h"
    using s padStart_of_number [OF p(1,2)] padStart_of_number [OF p(5,6)] h by (simp add: formatHlc_def)
  show "stamp_in_range h"
    using number_bound [OF p(2)] number_bound [OF p(6)] p h by (simp add: stamp_in_range_def MAX_CTR_def)
qed

text \<open>C28: The strings that parse are exactly the formatted stamps in range (13-digit milliseconds, a counter
  of at most 99999, a non-empty device id without line breaks), and each parses to the stamp it was made
  from: formatting and parsing are inverse to each other.\<close>
theorem hlc_round_trip: "parseHlc s = Some h \<longleftrightarrow> s = formatHlc h \<and> stamp_in_range h"
  using parse_shape parse_format by blast

section \<open>Order\<close>

lemma order_append:
  "length a = length b \<Longrightarrow> js_order (a @ r) (b @ t) = (if a = b then js_order r t else js_order a b)"
  by (simp add: js_order_def js_less_append)

lemma digits_js_order:
  assumes "length a = length b" and "list_all js_digit a" and "list_all js_digit b"
  shows "js_order a b = (if to_number a = to_number b then 0 else if to_number a < to_number b then -1 else 1)"
  using digits_order [OF assms] by (simp add: js_order_def)

lemma compare_parsed:
  assumes "parseHlc a = Some x" and "parseHlc b = Some y"
  shows "js_order a b =
    (if hl_ms x \<noteq> hl_ms y then (if hl_ms x < hl_ms y then -1 else 1)
     else if hl_ctr x \<noteq> hl_ctr y then (if hl_ctr x < hl_ctr y then -1 else 1)
     else js_order (hl_deviceId x) (hl_deviceId y))"
proof -
  note x = parse_shape [OF assms(1)] and y = parse_shape [OF assms(2)]
  obtain m c where xs: "a = m @ '':'' @ c @ '':'' @ hl_deviceId x" "length m = 13" "length c = 5"
    "list_all js_digit m" "list_all js_digit c" "to_number m = hl_ms x" "to_number c = hl_ctr x"
    using x format_parts by metis
  obtain n d where ys: "b = n @ '':'' @ d @ '':'' @ hl_deviceId y" "length n = 13" "length d = 5"
    "list_all js_digit n" "list_all js_digit d" "to_number n = hl_ms y" "to_number d = hl_ctr y"
    using y format_parts by metis
  have colon: "js_order ('':'' @ u) ('':'' @ v) = js_order u v" for u v by (simp add: js_order_def)
  have m: "m = n \<longleftrightarrow> hl_ms x = hl_ms y" and c: "c = d \<longleftrightarrow> hl_ctr x = hl_ctr y"
    using digits_order(2) [of m n] digits_order(2) [of c d] xs ys by simp_all
  have "js_order a b = (if m = n then (if c = d then js_order (hl_deviceId x) (hl_deviceId y) else js_order c d) else js_order m n)"
    using xs(1-3) ys(1-3) by (simp only: order_append colon length_append simp_thms)
  then show ?thesis
    using digits_js_order [of m n] digits_js_order [of c d] m c xs ys by simp
qed

text \<open>Comparing two stamps by their parsed parts gives, for all strings, parseable or not, the same
  answer as comparing them as plain strings; so every store that sorts or compares the column as text (SQL
  included) orders the edits the way the program does.\<close>
theorem compare_is_string_order: "compareHlc a b = js_order a b"
proof (cases "parseHlc a")
  case (Some x)
  show ?thesis
  proof (cases "parseHlc b")
    case (Some y)
    then show ?thesis using compare_parsed [OF \<open>parseHlc a = Some x\<close> Some] \<open>parseHlc a = Some x\<close>
      by (simp add: compareHlc_def) (simp add: js_order_def)
  qed (simp add: compareHlc_def Some)
qed (simp add: compareHlc_def)

section \<open>The clock\<close>

text \<open>One use of a clock is a sequence of stamps issued, each with the wall-clock reading it was issued at,
  and of stamps observed. The trace lists them in order: issued stamps marked \<open>True\<close>.\<close>

datatype clock_op = Issue nat | Observe string

fun clock_trace :: "clock_op list \<Rightarrow> HlcClock \<Rightarrow> (bool \<times> string) list" where
  "clock_trace [] c = []"
| "clock_trace (Issue wall # ops) c =
     (case clock_next wall c of (s, c') \<Rightarrow> (True, s) # clock_trace ops c')"
| "clock_trace (Observe s # ops) c = (False, s) # clock_trace ops (clock_observe s c)"

fun clock_after :: "clock_op list \<Rightarrow> HlcClock \<Rightarrow> HlcClock" where
  "clock_after [] c = c"
| "clock_after (Issue wall # ops) c = clock_after ops (snd (clock_next wall c))"
| "clock_after (Observe s # ops) c = clock_after ops (clock_observe s c)"

definition clock_ms :: "HlcClock \<Rightarrow> nat" where
  "clock_ms c = (case hc_state c of None \<Rightarrow> 0 | Some st \<Rightarrow> fst st)"

definition clock_ok :: "HlcClock \<Rightarrow> bool" where
  "clock_ok c \<longleftrightarrow> hc_deviceId c \<noteq> [] \<and> \<not> list_ex line_break (hc_deviceId c) \<and>
     (\<forall>st. hc_state c = Some st \<longrightarrow> snd st \<le> MAX_CTR)"

definition key_before :: "nat \<times> nat \<Rightarrow> nat \<times> nat \<Rightarrow> bool" where
  "key_before a b \<longleftrightarrow> fst a < fst b \<or> fst a = fst b \<and> snd a < snd b"

text \<open>The clock stands at or after \<open>k\<close>.\<close>

definition clock_past :: "nat \<times> nat \<Rightarrow> HlcClock \<Rightarrow> bool" where
  "clock_past k c \<longleftrightarrow> (case hc_state c of None \<Rightarrow> False | Some st \<Rightarrow> k = st \<or> key_before k st)"

lemma clock_ok_new: "dev \<noteq> [] \<Longrightarrow> \<not> list_ex line_break dev \<Longrightarrow> clock_ok (newHlcClock dev stored)"
  by (auto simp: clock_ok_def newHlcClock_def dest: parse_shape(2) split: option.splits if_splits)
     (auto simp: stamp_in_range_def dest: parse_shape(2))

lemma clock_ok_next: "clock_ok c \<Longrightarrow> clock_ok (snd (clock_next wall c))"
  by (auto simp: clock_ok_def clock_next_def next_state_def Let_def)

lemma clock_ok_observe: "clock_ok c \<Longrightarrow> clock_ok (clock_observe s c)"
  by (auto simp: clock_ok_def clock_observe_def stamp_in_range_def dest: parse_shape(2) split: option.splits)

lemma clock_past_next: "clock_past k c \<Longrightarrow> clock_past k (snd (clock_next wall c))"
  by (auto simp: clock_past_def clock_next_def next_state_def key_before_def Let_def split: option.splits)

lemma clock_past_observe: "clock_past k c \<Longrightarrow> clock_past k (clock_observe s c)"
  by (auto simp: clock_past_def clock_observe_def key_before_def split: option.splits)

lemma observed_past: "parseHlc s = Some h \<Longrightarrow> clock_past (hl_ms h, hl_ctr h) (clock_observe s c)"
  by (auto simp: clock_past_def clock_observe_def key_before_def split: option.splits)

lemma issued_past: "clock_past (next_state wall (hc_state c)) (snd (clock_next wall c))"
  by (simp add: clock_past_def clock_next_def Let_def)

lemma next_after: "clock_past k c \<Longrightarrow> key_before k (next_state wall (hc_state c))"
  by (auto simp: clock_past_def next_state_def key_before_def Let_def split: option.splits)

lemma clock_ms_mono: "clock_ms c \<le> clock_ms (clock_after ops c)"
proof (induction ops c rule: clock_after.induct)
  case (2 wall ops c)
  have "clock_ms c \<le> clock_ms (snd (clock_next wall c))"
    by (auto simp: clock_ms_def clock_next_def next_state_def Let_def split: option.splits)
  then show ?case using 2 by simp
next
  case (3 s ops c)
  have "clock_ms c \<le> clock_ms (clock_observe s c)"
    by (auto simp: clock_ms_def clock_observe_def split: option.splits)
  then show ?case using 3 by simp
qed simp

lemma issued_stamp:
  assumes "clock_ok c" and "clock_ms (snd (clock_next wall c)) < 10 ^ 13"
  shows "parseHlc (fst (clock_next wall c)) =
    Some \<lparr>hl_ms = fst (next_state wall (hc_state c)), hl_ctr = snd (next_state wall (hc_state c)),
          hl_deviceId = hc_deviceId c\<rparr>"
proof -
  have "snd (next_state wall (hc_state c)) \<le> MAX_CTR"
    using clock_ok_next [OF assms(1), of wall] by (simp add: clock_ok_def clock_next_def Let_def)
  moreover have "fst (next_state wall (hc_state c)) < 10 ^ 13"
    using assms(2) by (simp add: clock_ms_def clock_next_def Let_def)
  ultimately show ?thesis using assms(1)
    by (simp add: clock_next_def Let_def clock_stamp_def parse_format stamp_in_range_def clock_ok_def)
qed

lemma key_order:
  assumes "parseHlc a = Some x" and "parseHlc b = Some y" and "key_before (hl_ms x, hl_ctr x) (hl_ms y, hl_ctr y)"
  shows "compareHlc a b = -1"
  using assms by (auto simp: compareHlc_def key_before_def)

text \<open>Every stamp issued from a clock that stands past a stamp is greater than that stamp.\<close>

lemma issued_greater:
  assumes "(True, s) \<in> set (clock_trace ops c)" and "clock_ok c" and "clock_ms (clock_after ops c) < 10 ^ 13"
    and "parseHlc e = Some x" and "clock_past (hl_ms x, hl_ctr x) c"
  shows "compareHlc e s = -1"
  using assms(1,2,3,5)
proof (induction ops c rule: clock_trace.induct)
  case (2 wall ops c)
  obtain t c' where n: "clock_next wall c = (t, c')" by fastforce
  show ?case
  proof (cases "s = t")
    case True
    have "clock_ms (snd (clock_next wall c)) < 10 ^ 13" using 2(4) clock_ms_mono [of c' ops] n by simp
    then have "parseHlc s = Some \<lparr>hl_ms = fst (next_state wall (hc_state c)),
        hl_ctr = snd (next_state wall (hc_state c)), hl_deviceId = hc_deviceId c\<rparr>"
      using issued_stamp [OF 2(3), of wall] n True by simp
    from key_order [OF assms(4) this] show ?thesis using next_after [OF 2(5), of wall] by simp
  next
    case False
    then show ?thesis
      using 2 n clock_ok_next [OF 2(3), of wall] clock_past_next [OF 2(5), of wall] by auto
  qed
next
  case (3 r ops c)
  then show ?case using clock_ok_observe clock_past_observe by auto
qed simp

definition greater_than_seen :: "bool \<times> string \<Rightarrow> bool \<times> string \<Rightarrow> bool" where
  "greater_than_seen e f \<longleftrightarrow> (fst f \<longrightarrow> parseHlc (snd e) \<noteq> None \<longrightarrow> compareHlc (snd e) (snd f) = -1)"

lemma trace_increases:
  assumes "clock_ok c" and "clock_ms (clock_after ops c) < 10 ^ 13"
  shows "sorted_wrt greater_than_seen (clock_trace ops c)"
  using assms
proof (induction ops c rule: clock_trace.induct)
  case (2 wall ops c)
  obtain t c' where n: "clock_next wall c = (t, c')" by fastforce
  have ok: "clock_ok c'" using clock_ok_next [OF 2(2), of wall] n by simp
  have "clock_ms c' < 10 ^ 13" using 2(3) clock_ms_mono [of c' ops] n by simp
  then have t: "parseHlc t = Some \<lparr>hl_ms = fst (next_state wall (hc_state c)),
      hl_ctr = snd (next_state wall (hc_state c)), hl_deviceId = hc_deviceId c\<rparr>"
    using issued_stamp [OF 2(2), of wall] n by simp
  have "compareHlc t s = -1" if "(True, s) \<in> set (clock_trace ops c')" for s
    using issued_greater [OF that ok _ t] issued_past [of wall c] 2(3) n by simp
  then show ?case using 2(1) [OF n [symmetric] ok] 2(3) n by (auto simp: greater_than_seen_def)
next
  case (3 r ops c)
  note ok = clock_ok_observe [OF 3(2), of r]
  have "compareHlc r s = -1" if "(True, s) \<in> set (clock_trace ops (clock_observe r c))" "parseHlc r = Some x" for s x
    using issued_greater [OF that(1) ok _ that(2)] observed_past [OF that(2)] 3(3) by simp
  then show ?case using 3(1) [OF ok] 3(3) by (auto simp: greater_than_seen_def)
qed simp

text \<open>C25: A device's clock only moves forward, whatever its wall clock does. Start it from a stored stamp and
  let it issue stamps at arbitrary wall-clock readings and observe arbitrary remote strings, in any order:
  every stamp it issues is greater than the stored one, than every stamp issued before it and than every
  parseable stamp observed before it, as long as its millisecond part keeps 13 digits.\<close>
theorem clock_moves_forward:
  assumes "dev \<noteq> []" and "\<not> list_ex line_break dev"
    and "clock_ms (clock_after ops (newHlcClock dev (Some stored))) < 10 ^ 13"
  shows "sorted_wrt greater_than_seen ((False, stored) # clock_trace ops (newHlcClock dev (Some stored)))"
proof -
  let ?c = "newHlcClock dev (Some stored)"
  have ok: "clock_ok ?c" using clock_ok_new assms(1,2) by simp
  have "clock_past (hl_ms x, hl_ctr x) ?c" if "parseHlc stored = Some x" for x
  proof -
    have "stored \<noteq> []" using that by (auto simp: parseHlc_def Let_def split: if_splits)
    then show ?thesis using that by (simp add: clock_past_def newHlcClock_def)
  qed
  then show ?thesis using trace_increases [OF ok assms(3)] issued_greater [OF _ ok assms(3)]
    by (fastforce simp: greater_than_seen_def)
qed

text \<open>The bound is needed: a stamp at the end of the range makes the next one leave it. It has 14 digits of
  milliseconds, no longer parses, and is smaller than the stamp just observed.\<close>

lemma top_stamp:
  "parseHlc ''9999999999999:99999:x'' = Some \<lparr>hl_ms = 9999999999999, hl_ctr = 99999, hl_deviceId = ''x''\<rparr>"
  by (simp add: parseHlc_def to_number_def digit_of_def code_def js_digit_def line_break_def)

lemma overflow_stamp:
  "formatHlc \<lparr>hl_ms = 10000000000000, hl_ctr = 0, hl_deviceId = ''dev''\<rparr> = ''10000000000000:00000:dev''"
  "parseHlc ''10000000000000:00000:dev'' = None"
proof -
  have zeros: "replicate 4 (CHR ''0'') = ''0000''" by (simp add: numeral_eq_Suc)
  show "formatHlc \<lparr>hl_ms = 10000000000000, hl_ctr = 0, hl_deviceId = ''dev''\<rparr> = ''10000000000000:00000:dev''"
    by (simp add: formatHlc_def padStart_def nat_text.simps zeros)
  show "parseHlc ''10000000000000:00000:dev'' = None" by (simp add: parseHlc_def)
qed

lemma clock_leaves_the_range:
  "fst (clock_next 0 (clock_observe ''9999999999999:99999:x'' (newHlcClock ''dev'' None))) =
     ''10000000000000:00000:dev'' \<and>
   parseHlc ''10000000000000:00000:dev'' = None \<and>
   compareHlc ''9999999999999:99999:x'' ''10000000000000:00000:dev'' = 1"
  by (simp add: clock_next_def clock_observe_def newHlcClock_def next_state_def MAX_CTR_def clock_stamp_def
      top_stamp overflow_stamp compareHlc_def js_order_def code_def)

theorem clock_moves_forward_witness:
  "sorted_wrt greater_than_seen
     ((False, ''0000000000005:00000:old'') #
      clock_trace [Issue 3, Observe ''0000000000009:00001:other'', Issue 4] (newHlcClock ''dev'' (Some ''0000000000005:00000:old'')))"
proof -
  have "clock_ms (clock_after [Issue 3, Observe ''0000000000009:00001:other'', Issue 4]
      (newHlcClock ''dev'' (Some ''0000000000005:00000:old''))) = 9"
    by (simp add: clock_next_def clock_observe_def newHlcClock_def parseHlc_def clock_ms_def
        next_state_def MAX_CTR_def to_number_def digit_of_def js_digit_def line_break_def code_def Let_def)
  then show ?thesis
    using clock_moves_forward [of "''dev''" "[Issue 3, Observe ''0000000000009:00001:other'', Issue 4]"
        "''0000000000005:00000:old''"]
    by (simp add: line_break_def del: clock_trace.simps sorted_wrt.simps)
qed

end
