(* ===== verification/NamedMutex.thy ===== *)
theory NamedMutex
  imports JsString
begin

text \<open>
  The named mutex of the application (main/src/utils/mutex.ts): a map from resource names to lock promises.
  A promise is modelled by its identity, the number of promises made before it. \<open>acquire\<close> polls: one
  poll either takes the free lock, sleeps, or throws once the wait is longer than the timeout. The contract a
  holder relies on is the locale \<open>lock_table\<close>.
\<close>

record mutex =
  mx_locks :: "string \<rightharpoonup> nat"
  mx_lockCounts :: "string \<rightharpoonup> nat"
  mx_promises :: nat

definition new_mutex :: mutex where
  "new_mutex = \<lparr>mx_locks = Map.empty, mx_lockCounts = Map.empty, mx_promises = 0\<rparr>"

definition isLocked :: "mutex \<Rightarrow> string \<Rightarrow> bool" where
  "isLocked m name \<longleftrightarrow> mx_locks m name \<noteq> None"

text \<open>The part of \<open>acquire\<close> behind the wait: make the promise, store it, count.\<close>

definition take_lock :: "string \<Rightarrow> mutex \<Rightarrow> nat \<times> mutex" where
  "take_lock name m =
     (mx_promises m,
      m\<lparr>mx_locks := (mx_locks m)(name \<mapsto> mx_promises m),
        mx_lockCounts := (mx_lockCounts m)(name \<mapsto> (case mx_lockCounts m name of None \<Rightarrow> 0 | Some n \<Rightarrow> n) + 1),
        mx_promises := mx_promises m + 1\<rparr>)"

text \<open>The release function that \<open>acquire\<close> returns: it frees the name only while its own promise is stored.\<close>

definition release_lock :: "string \<Rightarrow> nat \<Rightarrow> mutex \<Rightarrow> mutex" where
  "release_lock name promise m =
     (if mx_locks m name = Some promise then m\<lparr>mx_locks := (mx_locks m)(name := None)\<rparr> else m)"

datatype poll = Acquired nat mutex | Sleeping | TimeoutError nat string

definition acquire_poll :: "string \<Rightarrow> nat \<Rightarrow> nat \<Rightarrow> mutex \<Rightarrow> poll" where
  "acquire_poll name timeout elapsed m =
     (if isLocked m name then
        if elapsed > timeout then TimeoutError timeout name else Sleeping
      else case take_lock name m of (promise, m') \<Rightarrow> Acquired promise m')"

text \<open>The waiting loop: at each poll it sees the elapsed time and the mutex as the others left it. \<open>None\<close>
  is a wait that has not ended with the polls given.\<close>

fun acquire :: "string \<Rightarrow> nat \<Rightarrow> (nat \<times> mutex) list \<Rightarrow> poll option" where
  "acquire name timeout [] = None"
| "acquire name timeout ((elapsed, m) # polls) =
     (case acquire_poll name timeout elapsed m of
        Sleeping \<Rightarrow> acquire name timeout polls
      | r \<Rightarrow> Some r)"

text \<open>\<open>withLock\<close> on a free name: the function runs with the lock held and the lock is released whether it
  returns or throws.\<close>

definition withLock :: "string \<Rightarrow> (mutex \<Rightarrow> ('e + 'a) \<times> mutex) \<Rightarrow> mutex \<Rightarrow> ('e + 'a) \<times> mutex" where
  "withLock name fn m =
     (case take_lock name m of (promise, m1) \<Rightarrow>
      case fn m1 of (r, m2) \<Rightarrow> (r, release_lock name promise m2))"

section \<open>The contract of a lock table\<close>

text \<open>A claim is a name with the identity of a lock on it. What holders rely on: a lock taken on a free name
  is new and theirs, and a release frees exactly the lock it was made for.\<close>

locale lock_table =
  fixes holder :: "'m \<Rightarrow> string \<Rightarrow> nat option"
    and made :: "'m \<Rightarrow> nat"
    and take_on :: "string \<Rightarrow> 'm \<Rightarrow> nat \<times> 'm"
    and free_on :: "string \<Rightarrow> nat \<Rightarrow> 'm \<Rightarrow> 'm"
  assumes take_token: "fst (take_on n m) = made m"
    and take_made: "made (snd (take_on n m)) = made m + 1"
    and take_holder: "holder (snd (take_on n m)) = (holder m)(n \<mapsto> fst (take_on n m))"
    and free_made: "made (free_on n t m) = made m"
    and free_holder: "holder (free_on n t m) = (if holder m n = Some t then (holder m)(n := None) else holder m)"
begin

definition claims_ok :: "'m \<Rightarrow> (string \<times> nat) set \<Rightarrow> bool" where
  "claims_ok m C \<longleftrightarrow> (\<forall>(n, t) \<in> C. holder m n = Some t) \<and> (\<forall>n t. holder m n = Some t \<longrightarrow> t < made m) \<and>
     (\<forall>n k t. holder m n = Some t \<longrightarrow> holder m k = Some t \<longrightarrow> n = k)"

lemma claims_held: "claims_ok m C \<Longrightarrow> (n, t) \<in> C \<Longrightarrow> holder m n = Some t"
  by (fastforce simp: claims_ok_def)

lemma claims_unique: "claims_ok m C \<Longrightarrow> (n, t) \<in> C \<Longrightarrow> (n, u) \<in> C \<Longrightarrow> t = u"
  using claims_held [of m C n t] claims_held [of m C n u] by simp

lemma claims_same: "claims_ok m C \<Longrightarrow> (n, t) \<in> C \<Longrightarrow> (k, t) \<in> C \<Longrightarrow> n = k"
  unfolding claims_ok_def by (metis (mono_tags, lifting) case_prodD)

lemma claims_old: "claims_ok m C \<Longrightarrow> (n, t) \<in> C \<Longrightarrow> t < made m"
  by (fastforce simp: claims_ok_def)

lemma claims_mono: "claims_ok m C \<Longrightarrow> D \<subseteq> C \<Longrightarrow> claims_ok m D"
  by (auto simp: claims_ok_def)

lemma claims_take:
  assumes "claims_ok m C" and "holder m n = None"
  shows "claims_ok (snd (take_on n m)) (insert (n, fst (take_on n m)) C)"
  using assms by (fastforce simp: claims_ok_def take_holder take_token take_made)

text \<open>Releasing a claim keeps every other claim: on another name, or a later lock of the same name.\<close>

lemma claims_free:
  assumes "claims_ok m C" and "D \<subseteq> C" and "(n, t) \<notin> D"
  shows "claims_ok (free_on n t m) D"
  using assms by (fastforce simp: claims_ok_def free_holder free_made)

lemma free_stale: "holder m n \<noteq> Some t \<Longrightarrow> holder (free_on n t m) = holder m"
  by (simp add: free_holder)

end

interpretation mx: lock_table mx_locks mx_promises take_lock release_lock
  by unfold_locales (auto simp: take_lock_def release_lock_def)

lemma claims_new: "mx.claims_ok new_mutex {}"
  by (simp add: mx.claims_ok_def new_mutex_def)

section \<open>Waiting\<close>

lemma acquired_was_free:
  "acquire name timeout polls = Some (Acquired p m') \<Longrightarrow>
   \<exists>elapsed m. (elapsed, m) \<in> set polls \<and> \<not> isLocked m name \<and> take_lock name m = (p, m')"
  by (induction name timeout polls rule: acquire.induct)
     (auto simp: acquire_poll_def split: if_splits prod.splits poll.splits)

lemma timed_out_was_held:
  "acquire name timeout polls = Some (TimeoutError t n) \<Longrightarrow>
   t = timeout \<and> n = name \<and> (\<exists>elapsed m. (elapsed, m) \<in> set polls \<and> isLocked m name \<and> elapsed > timeout)"
  by (induction name timeout polls rule: acquire.induct)
     (auto simp: acquire_poll_def split: if_splits prod.splits poll.splits)

lemma acquire_ends:
  "(e, m) \<in> set polls \<Longrightarrow> e > timeout \<or> \<not> isLocked m name \<Longrightarrow> acquire name timeout polls \<noteq> None"
  by (induction name timeout polls rule: acquire.induct)
     (auto simp: acquire_poll_def split: if_splits prod.splits poll.splits)

lemma withLock_frees:
  assumes "\<not> isLocked m name" and "\<And>m1. mx_locks (snd (fn m1)) name = mx_locks m1 name"
  shows "\<not> isLocked (snd (withLock name fn m)) name"
  using assms(2) [of "snd (take_lock name m)"]
  by (auto simp: withLock_def take_lock_def release_lock_def isLocked_def split: prod.splits)

end
