(* ===== verification/LeasePool.thy ===== *)
theory LeasePool
  imports NamedMutex
begin

text \<open>
  The lease pool of the verification scheduler (main/src/orchestrator/verify/verificationLeases.ts). A pool of
  N slots is N names of the shared mutex; \<open>tryAcquireOneOf\<close> probes candidate names in order and never
  waits for a lock. A name whose resource did not free is quarantined: its lock stays taken until a probe
  reports the resource free. The function awaits these probes, so other calls, releases and quarantines may
  come in between: it is modelled as the run up to the next probe, and the run after its answer.
\<close>

section \<open>Lease names\<close>

definition VERIFY_SCREEN_LEASE :: string where "VERIFY_SCREEN_LEASE = ''verify:screen''"

definition verifyAgentSlot :: "nat \<Rightarrow> string" where
  "verifyAgentSlot index = ''verify:agent:'' @ nat_text index"

definition verifyPortLease :: "nat \<Rightarrow> string" where
  "verifyPortLease port = ''verify:port:'' @ nat_text port"

definition sprintVerifyBatchLease :: "string \<Rightarrow> string" where
  "sprintVerifyBatchLease batchId = ''sprint-verify-'' @ batchId"

section \<open>The pool\<close>

text \<open>A handle wraps the one lock it was made for, so the lock identifies it; its \<open>released\<close> flag is
  membership in \<open>lp_released\<close>.\<close>

record lease =
  le_name :: string
  le_token :: nat

record lease_pool =
  lp_mutex :: mutex
  lp_quarantined :: "string \<rightharpoonup> lease"
  lp_released :: "nat set"

definition new_pool :: "mutex \<Rightarrow> lease_pool" where
  "new_pool m = \<lparr>lp_mutex = m, lp_quarantined = Map.empty, lp_released = {}\<rparr>"

definition lease_release :: "lease \<Rightarrow> lease_pool \<Rightarrow> lease_pool" where
  "lease_release l p =
     (if le_token l \<in> lp_released p then p
      else p\<lparr>lp_released := insert (le_token l) (lp_released p),
             lp_mutex := release_lock (le_name l) (le_token l) (lp_mutex p)\<rparr>)"

definition quarantine :: "lease \<Rightarrow> lease_pool \<Rightarrow> lease_pool" where
  "quarantine l p = p\<lparr>lp_quarantined := (lp_quarantined p)(le_name l \<mapsto> l)\<rparr>"

definition isQuarantined :: "string \<Rightarrow> lease_pool \<Rightarrow> bool" where
  "isQuarantined name p \<longleftrightarrow> lp_quarantined p name \<noteq> None"

text \<open>A call is at the await of a probe, or over: with a handle, with \<open>null\<close>, or rejected because the
  probe was.\<close>

datatype acq = Probing string lease "string list" | Got lease | NoneFree | ProbeThrew

definition grab :: "string \<Rightarrow> lease_pool \<Rightarrow> acq \<times> lease_pool" where
  "grab name p =
     (case take_lock name (lp_mutex p) of (t, m) \<Rightarrow>
        (Got \<lparr>le_name = name, le_token = t\<rparr>, p\<lparr>lp_mutex := m\<rparr>))"

fun try_from :: "string list \<Rightarrow> lease_pool \<Rightarrow> acq \<times> lease_pool" where
  "try_from [] p = (NoneFree, p)"
| "try_from (name # names) p =
     (case lp_quarantined p name of
        Some l \<Rightarrow> (Probing name l names, p)
      | None \<Rightarrow> if \<not> isLocked (lp_mutex p) name then grab name p else try_from names p)"

definition unquarantine :: "string \<Rightarrow> lease \<Rightarrow> lease_pool \<Rightarrow> lease_pool" where
  "unquarantine name l p = lease_release l (p\<lparr>lp_quarantined := (lp_quarantined p)(name := None)\<rparr>)"

text \<open>The probe of \<open>name\<close> answers: \<open>None\<close> is a rejected probe.\<close>

definition probe_answered :: "string \<Rightarrow> lease \<Rightarrow> string list \<Rightarrow> bool option \<Rightarrow> lease_pool \<Rightarrow> acq \<times> lease_pool" where
  "probe_answered name l names answer p =
     (case answer of
        None \<Rightarrow> (ProbeThrew, p)
      | Some False \<Rightarrow> try_from names p
      | Some True \<Rightarrow>
          let p' = unquarantine name l p
          in if \<not> isLocked (lp_mutex p') name then grab name p' else try_from names p')"

text \<open>A whole call when nothing comes in between and the probes answer by \<open>free\<close>.\<close>

fun tryAcquireOneOf :: "(string \<Rightarrow> bool) \<Rightarrow> string list \<Rightarrow> lease_pool \<Rightarrow> acq \<times> lease_pool" where
  "tryAcquireOneOf free [] p = (NoneFree, p)"
| "tryAcquireOneOf free (name # names) p =
     (case lp_quarantined p name of
        Some l \<Rightarrow>
          if free name then
            let p' = unquarantine name l p
            in if \<not> isLocked (lp_mutex p') name then grab name p' else tryAcquireOneOf free names p'
          else tryAcquireOneOf free names p
      | None \<Rightarrow> if \<not> isLocked (lp_mutex p) name then grab name p else tryAcquireOneOf free names p)"

section \<open>Racing a promise against an abort\<close>

datatype ('e, 'a) race_event = Abort | Resolves 'a | Rejects 'e

datatype 'e race_error = AbortRaceError string | Failed 'e

text \<open>\<open>raceWithAbort\<close> with the events in the order they happen; \<open>None\<close> while none has.\<close>

fun raceWithAbort :: "bool \<Rightarrow> string \<Rightarrow> ('e, 'a) race_event list \<Rightarrow> ('e race_error + 'a) option" where
  "raceWithAbort True label events = Some (Inl (AbortRaceError label))"
| "raceWithAbort False label [] = None"
| "raceWithAbort False label (Abort # events) = Some (Inl (AbortRaceError label))"
| "raceWithAbort False label (Resolves v # events) = Some (Inr v)"
| "raceWithAbort False label (Rejects e # events) = Some (Inl (Failed e))"

section \<open>The clients of a pool\<close>

text \<open>Any number of calls at their probes, the handles with their holders, and the locks that other parts of
  the application take on the same mutex.\<close>

record lease_cfg =
  lc_pool :: lease_pool
  lc_probing :: "(string \<times> lease \<times> string list) list"
  lc_live :: "lease list"
  lc_other :: "(string \<times> nat) list"

datatype lease_event =
    Call "string list"
  | Answer nat "bool option"
  | Release lease
  | Quarantine lease
  | TakeOther string
  | FreeOther string nat

definition acq_done :: "acq \<times> lease_pool \<Rightarrow> lease_cfg \<Rightarrow> lease_cfg" where
  "acq_done r c =
     (case r of
        (Probing n l ns, p) \<Rightarrow> c\<lparr>lc_pool := p, lc_probing := lc_probing c @ [(n, l, ns)]\<rparr>
      | (Got l, p) \<Rightarrow> c\<lparr>lc_pool := p, lc_live := l # lc_live c\<rparr>
      | (_, p) \<Rightarrow> c\<lparr>lc_pool := p\<rparr>)"

text \<open>A holder releases its handle, or releases again a handle it has released; it quarantines a handle
  instead of releasing it.\<close>

fun lease_step :: "lease_event \<Rightarrow> lease_cfg \<Rightarrow> lease_cfg option" where
  "lease_step (Call names) c = Some (acq_done (try_from names (lc_pool c)) c)"
| "lease_step (Answer i answer) c =
     (if i < length (lc_probing c) then
        case lc_probing c ! i of (n, l, ns) \<Rightarrow>
          Some (acq_done (probe_answered n l ns answer (lc_pool c))
            (c\<lparr>lc_probing := take i (lc_probing c) @ drop (Suc i) (lc_probing c)\<rparr>))
      else None)"
| "lease_step (Release l) c =
     (if l \<in> set (lc_live c) \<or> le_token l \<in> lp_released (lc_pool c) then
        Some (c\<lparr>lc_pool := lease_release l (lc_pool c), lc_live := removeAll l (lc_live c)\<rparr>)
      else None)"
| "lease_step (Quarantine l) c =
     (if l \<in> set (lc_live c) then
        Some (c\<lparr>lc_pool := quarantine l (lc_pool c), lc_live := removeAll l (lc_live c)\<rparr>)
      else None)"
| "lease_step (TakeOther name) c =
     (if \<not> isLocked (lp_mutex (lc_pool c)) name then
        case take_lock name (lp_mutex (lc_pool c)) of (t, m) \<Rightarrow>
          Some (c\<lparr>lc_pool := (lc_pool c)\<lparr>lp_mutex := m\<rparr>, lc_other := (name, t) # lc_other c\<rparr>)
      else None)"
| "lease_step (FreeOther name t) c =
     (if (name, t) \<in> set (lc_other c) then
        Some (c\<lparr>lc_pool := (lc_pool c)\<lparr>lp_mutex := release_lock name t (lp_mutex (lc_pool c))\<rparr>,
                lc_other := removeAll (name, t) (lc_other c)\<rparr>)
      else None)"

fun lease_run :: "lease_event list \<Rightarrow> lease_cfg \<Rightarrow> lease_cfg option" where
  "lease_run [] c = Some c"
| "lease_run (e # es) c = (case lease_step e c of None \<Rightarrow> None | Some c' \<Rightarrow> lease_run es c')"

definition lease_start :: lease_cfg where
  "lease_start = \<lparr>lc_pool = new_pool new_mutex, lc_probing = [], lc_live = [], lc_other = []\<rparr>"

text \<open>The scheduler's discipline: no call starts while another waits for a probe.\<close>

fun is_call :: "lease_event \<Rightarrow> bool" where
  "is_call (Call names) = True"
| "is_call _ = False"

fun serial_run :: "lease_event list \<Rightarrow> lease_cfg \<Rightarrow> lease_cfg option" where
  "serial_run [] c = Some c"
| "serial_run (e # es) c =
     (if is_call e \<and> lc_probing c \<noteq> [] then None
      else case lease_step e c of None \<Rightarrow> None | Some c' \<Rightarrow> serial_run es c')"

end
