(* ===== verification/LeaseProps.thy ===== *)
theory LeaseProps
  imports LeasePool
begin

text \<open>
  The invariant of the lease pool under any interleaving of calls, probes, releases, quarantines and foreign
  users of the mutex, and what follows: no lease is held twice, a quarantined name stays locked, and under the
  scheduler's serial use no slot is ever lost.
\<close>

definition claim :: "lease \<Rightarrow> string \<times> nat" where "claim l = (le_name l, le_token l)"

definition parked :: "lease_cfg \<Rightarrow> lease set" where
  "parked c = ran (lp_quarantined (lc_pool c)) \<union> (fst \<circ> snd) ` set (lc_probing c)"

definition claims :: "lease_cfg \<Rightarrow> (string \<times> nat) set" where
  "claims c = claim ` set (lc_live c) \<union> set (lc_other c) \<union>
     claim ` {l \<in> parked c. le_token l \<notin> lp_released (lc_pool c)}"

definition lease_inv :: "lease_cfg \<Rightarrow> bool" where
  "lease_inv c \<longleftrightarrow>
     mx.claims_ok (lp_mutex (lc_pool c)) (claims c) \<and>
     (\<forall>t \<in> lp_released (lc_pool c). t < mx_promises (lp_mutex (lc_pool c))) \<and>
     distinct (map le_token (lc_live c) @ map snd (lc_other c)) \<and>
     (le_token ` set (lc_live c) \<union> snd ` set (lc_other c)) \<inter> (le_token ` parked c \<union> lp_released (lc_pool c)) = {} \<and>
     (\<forall>n l. lp_quarantined (lc_pool c) n = Some l \<longrightarrow> le_name l = n \<and> le_token l \<notin> lp_released (lc_pool c)) \<and>
     (\<forall>(n, l, ns) \<in> set (lc_probing c). le_name l = n)"

lemma lease_invI:
  assumes "mx.claims_ok (lp_mutex (lc_pool c)) (claims c)"
    and "\<And>t. t \<in> lp_released (lc_pool c) \<Longrightarrow> t < mx_promises (lp_mutex (lc_pool c))"
    and "distinct (map le_token (lc_live c) @ map snd (lc_other c))"
    and "\<And>t. t \<in> le_token ` set (lc_live c) \<union> snd ` set (lc_other c) \<Longrightarrow>
      t \<notin> le_token ` parked c \<and> t \<notin> lp_released (lc_pool c)"
    and "\<And>n l. lp_quarantined (lc_pool c) n = Some l \<Longrightarrow> le_name l = n \<and> le_token l \<notin> lp_released (lc_pool c)"
    and "\<And>n l ns. (n, l, ns) \<in> set (lc_probing c) \<Longrightarrow> le_name l = n"
  shows "lease_inv c"
  unfolding lease_inv_def
proof (intro conjI)
  show "(le_token ` set (lc_live c) \<union> snd ` set (lc_other c)) \<inter> (le_token ` parked c \<union> lp_released (lc_pool c)) = {}"
    using assms(4) by blast
  show "\<forall>n l. lp_quarantined (lc_pool c) n = Some l \<longrightarrow> le_name l = n \<and> le_token l \<notin> lp_released (lc_pool c)"
    using assms(5) by simp
  show "\<forall>(n, l, ns) \<in> set (lc_probing c). le_name l = n" using assms(6) by auto
qed (use assms(1,2,3) in simp_all)

lemma lease_invD:
  assumes "lease_inv c"
  shows "mx.claims_ok (lp_mutex (lc_pool c)) (claims c)"
    and "t \<in> lp_released (lc_pool c) \<Longrightarrow> t < mx_promises (lp_mutex (lc_pool c))"
    and "distinct (map le_token (lc_live c) @ map snd (lc_other c))"
    and "t \<in> le_token ` set (lc_live c) \<union> snd ` set (lc_other c) \<Longrightarrow>
      t \<notin> le_token ` parked c \<and> t \<notin> lp_released (lc_pool c)"
    and "lp_quarantined (lc_pool c) n = Some l \<Longrightarrow> le_name l = n \<and> le_token l \<notin> lp_released (lc_pool c)"
    and "(n, l, ns) \<in> set (lc_probing c) \<Longrightarrow> le_name l = n"
  using assms unfolding lease_inv_def by blast+

lemma inv_start: "lease_inv lease_start"
  using claims_new by (simp add: lease_inv_def lease_start_def claims_def parked_def new_pool_def)

lemma acq_done_pool [simp]: "acq_done r (c\<lparr>lc_pool := p\<rparr>) = acq_done r c"
  by (cases r; cases "fst r") (auto simp: acq_done_def)

lemma pool_self [simp]: "c\<lparr>lc_pool := lc_pool c\<rparr> = c"
  by simp

lemma claims_bound: "lease_inv c \<Longrightarrow> (n, t) \<in> claims c \<Longrightarrow> t < mx_promises (lp_mutex (lc_pool c))"
  unfolding lease_inv_def by (blast intro: mx.claims_old)

lemma parked_bound:
  "lease_inv c \<Longrightarrow> l \<in> parked c \<Longrightarrow> le_token l < mx_promises (lp_mutex (lc_pool c))"
  using claims_bound [of c "le_name l" "le_token l"]
  by (cases "le_token l \<in> lp_released (lc_pool c)") (auto simp: lease_inv_def claims_def claim_def)

lemma live_bound: "lease_inv c \<Longrightarrow> l \<in> set (lc_live c) \<Longrightarrow> le_token l < mx_promises (lp_mutex (lc_pool c))"
  using claims_bound [of c "le_name l" "le_token l"] by (auto simp: claims_def claim_def)

lemma other_bound: "lease_inv c \<Longrightarrow> x \<in> set (lc_other c) \<Longrightarrow> snd x < mx_promises (lp_mutex (lc_pool c))"
  using claims_bound [of c "fst x" "snd x"] by (auto simp: claims_def)

text \<open>A fresh lock, for a new handle or for a foreign user.\<close>

lemma inv_grab:
  assumes "lease_inv c" and "\<not> isLocked (lp_mutex (lc_pool c)) n"
  shows "lease_inv (acq_done (grab n (lc_pool c)) c)"
proof -
  let ?p = "lc_pool c" let ?m = "lp_mutex ?p"
  obtain t m where t: "take_lock n ?m = (t, m)" by fastforce
  have tm: "t = mx_promises ?m" "mx_promises m = mx_promises ?m + 1"
    using t mx.take_token [of n ?m] mx.take_made [of n ?m] by simp_all
  let ?c = "acq_done (grab n ?p) c"
  have c: "claims ?c = insert (n, t) (claims c)" "parked ?c = parked c" "lp_released (lc_pool ?c) = lp_released ?p"
    "lc_live ?c = \<lparr>le_name = n, le_token = t\<rparr> # lc_live c" "lc_other ?c = lc_other c" "lp_mutex (lc_pool ?c) = m"
    "lp_quarantined (lc_pool ?c) = lp_quarantined ?p" "lc_probing ?c = lc_probing c"
    by (auto simp: acq_done_def grab_def t claims_def claim_def parked_def)
  have ok: "mx.claims_ok m (insert (n, t) (claims c))"
    using mx.claims_take [of ?m "claims c" n] assms t by (simp add: lease_inv_def isLocked_def)
  have fresh: "t \<notin> le_token ` set (lc_live c)" "t \<notin> le_token ` parked c" "t \<notin> snd ` set (lc_other c)" "t \<notin> lp_released ?p"
    using live_bound [OF assms(1)] parked_bound [OF assms(1)] other_bound [OF assms(1)] assms(1) tm
    by (fastforce simp: lease_inv_def)+
  show ?thesis unfolding lease_inv_def c
    using ok fresh assms(1) tm by (auto simp: lease_inv_def)
qed

lemma inv_probing:
  assumes "lease_inv c" and "lp_quarantined (lc_pool c) n = Some l"
  shows "lease_inv (c\<lparr>lc_probing := lc_probing c @ [(n, l, ns)]\<rparr>)"
proof -
  have "parked (c\<lparr>lc_probing := lc_probing c @ [(n, l, ns)]\<rparr>) = parked c"
    using assms(2) by (auto simp: parked_def ran_def)
  then show ?thesis using assms by (auto simp: lease_inv_def claims_def)
qed

lemma inv_try: "lease_inv c \<Longrightarrow> lease_inv (acq_done (try_from names (lc_pool c)) c)"
proof (induction names)
  case Nil
  then show ?case by (simp add: acq_done_def)
next
  case (Cons n ns)
  then show ?case
    using inv_probing [of c n _ ns] inv_grab [of c n]
    by (auto simp: acq_done_def split: option.splits)
qed

text \<open>Fewer owners of the same locks.\<close>

lemma inv_forget:
  assumes "lease_inv c" and "lc_pool c' = lc_pool c" and "set (lc_probing c') \<subseteq> set (lc_probing c)"
    and "lc_live c' = lc_live c" and "lc_other c' = lc_other c"
  shows "lease_inv c'"
proof (rule lease_invI)
  note inv = lease_invD [OF assms(1)]
  have sub: "claims c' \<subseteq> claims c" "parked c' \<subseteq> parked c" using assms(2-5) by (auto simp: claims_def parked_def)
  show "mx.claims_ok (lp_mutex (lc_pool c')) (claims c')"
    using mx.claims_mono [OF inv(1) sub(1)] by (simp add: assms(2))
  show "t < mx_promises (lp_mutex (lc_pool c'))" if "t \<in> lp_released (lc_pool c')" for t
    using that inv(2) by (simp add: assms(2))
  show "distinct (map le_token (lc_live c') @ map snd (lc_other c'))" using inv(3) by (simp add: assms)
  show "t \<notin> le_token ` parked c' \<and> t \<notin> lp_released (lc_pool c')"
    if "t \<in> le_token ` set (lc_live c') \<union> snd ` set (lc_other c')" for t
    using inv(4) [of t] that sub(2) by (auto simp: assms)
  show "le_name l = n \<and> le_token l \<notin> lp_released (lc_pool c')" if "lp_quarantined (lc_pool c') n = Some l" for n l
    using inv(5) [of n l] that by (simp add: assms)
  show "le_name l = n" if "(n, l, ns) \<in> set (lc_probing c')" for n l ns
    using inv(6) [of n l ns] that assms(3) by blast
qed

text \<open>A lock is given up: no owner keeps the claim.\<close>

lemma inv_free:
  assumes "lease_inv c" and "claims c' \<subseteq> claims c" and "(n, t) \<notin> claims c'"
    and m: "lp_mutex (lc_pool c') = release_lock n t (lp_mutex (lc_pool c))"
    and "parked c' \<subseteq> parked c" and "lp_released (lc_pool c') \<subseteq> insert t (lp_released (lc_pool c))"
    and "t \<notin> le_token ` set (lc_live c') \<union> snd ` set (lc_other c')" and "t < mx_promises (lp_mutex (lc_pool c))"
    and "distinct (map le_token (lc_live c') @ map snd (lc_other c'))"
    and "set (lc_live c') \<subseteq> set (lc_live c)" and "set (lc_other c') \<subseteq> set (lc_other c)"
    and "\<And>k l. lp_quarantined (lc_pool c') k = Some l \<Longrightarrow>
      lp_quarantined (lc_pool c) k = Some l \<and> le_token l \<notin> lp_released (lc_pool c')"
    and "set (lc_probing c') \<subseteq> set (lc_probing c)"
  shows "lease_inv c'"
proof (rule lease_invI)
  note inv = lease_invD [OF assms(1)]
  show "mx.claims_ok (lp_mutex (lc_pool c')) (claims c')"
    using mx.claims_free [OF inv(1) assms(2,3)] by (simp add: m)
  show "q < mx_promises (lp_mutex (lc_pool c'))" if "q \<in> lp_released (lc_pool c')" for q
    using that inv(2) [of q] assms(6,8) mx.free_made by (auto simp: m)
  show "distinct (map le_token (lc_live c') @ map snd (lc_other c'))" by fact
  show "q \<notin> le_token ` parked c' \<and> q \<notin> lp_released (lc_pool c')"
    if "q \<in> le_token ` set (lc_live c') \<union> snd ` set (lc_other c')" for q
  proof -
    have "q \<in> le_token ` set (lc_live c) \<union> snd ` set (lc_other c)" using that assms(10,11) by blast
    from inv(4) [OF this] show ?thesis using assms(5,6,7) that by blast
  qed
  show "le_name l = k \<and> le_token l \<notin> lp_released (lc_pool c')" if "lp_quarantined (lc_pool c') k = Some l" for k l
    using inv(5) [of k l] assms(12) [OF that] by blast
  show "le_name l = k" if "(k, l, ns) \<in> set (lc_probing c')" for k l ns
    using inv(6) [of k l ns] that assms(13) by blast
qed

lemma live_remove:
  assumes "lease_inv c" and "l \<in> set (lc_live c)"
  shows "set (removeAll l (lc_live c)) = {x \<in> set (lc_live c). le_token x \<noteq> le_token l}"
    "distinct (map le_token (removeAll l (lc_live c)) @ map snd (lc_other c))"
    "le_token l \<notin> le_token ` parked c" "le_token l \<notin> snd ` set (lc_other c)" "le_token l \<notin> lp_released (lc_pool c)"
proof -
  have d: "distinct (map le_token (lc_live c) @ map snd (lc_other c))" using lease_invD(3) [OF assms(1)] .
  then have inj: "inj_on le_token (set (lc_live c))" by (simp add: distinct_map)
  show "set (removeAll l (lc_live c)) = {x \<in> set (lc_live c). le_token x \<noteq> le_token l}"
    using inj assms(2) by (auto dest: inj_onD)
  show "distinct (map le_token (removeAll l (lc_live c)) @ map snd (lc_other c))"
    using d distinct_map_filter [of le_token "lc_live c" "\<lambda>x. l \<noteq> x"] by (auto simp: removeAll_filter_not_eq)
  show "le_token l \<notin> le_token ` parked c" "le_token l \<notin> lp_released (lc_pool c)"
    using lease_invD(4) [OF assms(1), of "le_token l"] assms(2) by auto
  show "le_token l \<notin> snd ` set (lc_other c)" using d assms(2) by auto
qed

lemma inv_release:
  assumes "lease_inv c" and "l \<in> set (lc_live c) \<or> le_token l \<in> lp_released (lc_pool c)"
  shows "lease_inv (c\<lparr>lc_pool := lease_release l (lc_pool c), lc_live := removeAll l (lc_live c)\<rparr>)" (is "lease_inv ?c")
proof (cases "le_token l \<in> lp_released (lc_pool c)")
  case True
  then have "l \<notin> set (lc_live c)" using lease_invD(4) [OF assms(1), of "le_token l"] by blast
  then show ?thesis using assms(1) True by (simp add: lease_release_def)
next
  case False
  then have l: "l \<in> set (lc_live c)" using assms(2) by simp
  note rm = live_remove [OF assms(1) l]
  have p: "parked ?c = parked c" "lp_released (lc_pool ?c) = insert (le_token l) (lp_released (lc_pool c))"
    "lp_quarantined (lc_pool ?c) = lp_quarantined (lc_pool c)"
    "lp_mutex (lc_pool ?c) = release_lock (le_name l) (le_token l) (lp_mutex (lc_pool c))"
    by (simp_all add: parked_def lease_release_def False)
  have cl: "claims ?c = claim ` set (removeAll l (lc_live c)) \<union> set (lc_other c) \<union>
      claim ` {x \<in> parked c. le_token x \<notin> insert (le_token l) (lp_released (lc_pool c))}"
    unfolding claims_def p by simp
  show ?thesis
  proof (rule inv_free [OF assms(1), where n = "le_name l" and t = "le_token l"])
    show "claims ?c \<subseteq> claims c" unfolding cl by (auto simp: claims_def)
    show "(le_name l, le_token l) \<notin> claims ?c" unfolding cl rm(1) using rm(4) by (auto simp: claim_def image_iff)
    show "le_token l < mx_promises (lp_mutex (lc_pool c))" using live_bound [OF assms(1) l] .
    show "le_token l \<notin> le_token ` set (lc_live ?c) \<union> snd ` set (lc_other ?c)" using rm(1,4) by auto
    show "distinct (map le_token (lc_live ?c) @ map snd (lc_other ?c))" using rm(2) by simp
    fix k q assume "lp_quarantined (lc_pool ?c) k = Some q"
    then have q: "lp_quarantined (lc_pool c) k = Some q" unfolding p .
    then have "q \<in> parked c" by (auto simp: parked_def ran_def)
    then have "le_token q \<noteq> le_token l" using rm(3) by (metis imageI)
    then show "lp_quarantined (lc_pool c) k = Some q \<and> le_token q \<notin> lp_released (lc_pool ?c)"
      using q lease_invD(5) [OF assms(1) q] unfolding p by auto
  qed (use p in auto)
qed

lemma inv_quarantine:
  assumes "lease_inv c" and l: "l \<in> set (lc_live c)"
  shows "lease_inv (c\<lparr>lc_pool := quarantine l (lc_pool c), lc_live := removeAll l (lc_live c)\<rparr>)" (is "lease_inv ?c")
proof (rule lease_invI)
  note rm = live_remove [OF assms] and inv = lease_invD [OF assms(1)]
  have p: "lp_mutex (lc_pool ?c) = lp_mutex (lc_pool c)" "lp_released (lc_pool ?c) = lp_released (lc_pool c)"
    "lp_quarantined (lc_pool ?c) = (lp_quarantined (lc_pool c))(le_name l \<mapsto> l)" by (simp_all add: quarantine_def)
  have parked: "parked ?c \<subseteq> insert l (parked c)" unfolding parked_def p by (auto simp: ran_def split: if_splits)
  have sub: "claims ?c \<subseteq> claims c" using parked l unfolding claims_def p by (auto simp: claim_def)
  show "mx.claims_ok (lp_mutex (lc_pool ?c)) (claims ?c)" using mx.claims_mono [OF inv(1) sub] unfolding p .
  show "t < mx_promises (lp_mutex (lc_pool ?c))" if "t \<in> lp_released (lc_pool ?c)" for t
    using inv(2) that unfolding p by blast
  show "distinct (map le_token (lc_live ?c) @ map snd (lc_other ?c))" using rm(2) by simp
  show "t \<notin> le_token ` parked ?c \<and> t \<notin> lp_released (lc_pool ?c)"
    if "t \<in> le_token ` set (lc_live ?c) \<union> snd ` set (lc_other ?c)" for t
  proof -
    have "t \<in> le_token ` set (lc_live c) \<union> snd ` set (lc_other c)" "t \<noteq> le_token l" using that rm(1,4) by auto
    with inv(4) show ?thesis using parked unfolding p by blast
  qed
  show "le_name q = n \<and> le_token q \<notin> lp_released (lc_pool ?c)" if "lp_quarantined (lc_pool ?c) n = Some q" for n q
    using that inv(5) [of n q] rm(5) unfolding p by (auto split: if_splits)
  show "le_name q = n" if "(n, q, ns) \<in> set (lc_probing ?c)" for n q ns
    using that inv(6) [of n q ns] by simp
qed

text \<open>A probe that reports its resource free: the quarantine of the name ends and the captured handle is
  released, once.\<close>

lemma inv_unquarantine:
  assumes "lease_inv c" and mem: "(n, l, ns) \<in> set (lc_probing c)" and sub: "set qs \<subseteq> set (lc_probing c)"
  shows "lease_inv (c\<lparr>lc_pool := unquarantine n l (lc_pool c), lc_probing := qs\<rparr>)" (is "lease_inv ?c")
proof (cases "le_token l \<in> lp_released (lc_pool c)")
  note inv = lease_invD [OF assms(1)]
  case True
  have p: "lc_pool ?c = (lc_pool c)\<lparr>lp_quarantined := (lp_quarantined (lc_pool c))(n := None)\<rparr>"
    using True by (simp add: unquarantine_def lease_release_def)
  have parked: "parked ?c \<subseteq> parked c" using sub unfolding parked_def p by (auto simp: ran_def split: if_splits)
  have cl: "claims ?c \<subseteq> claims c" using parked unfolding claims_def p by auto
  show ?thesis
  proof (rule lease_invI)
    show "mx.claims_ok (lp_mutex (lc_pool ?c)) (claims ?c)" using mx.claims_mono [OF inv(1) cl] unfolding p by simp
    show "t < mx_promises (lp_mutex (lc_pool ?c))" if "t \<in> lp_released (lc_pool ?c)" for t
      using inv(2) that unfolding p by simp
    show "distinct (map le_token (lc_live ?c) @ map snd (lc_other ?c))" using inv(3) by simp
    show "t \<notin> le_token ` parked ?c \<and> t \<notin> lp_released (lc_pool ?c)"
      if "t \<in> le_token ` set (lc_live ?c) \<union> snd ` set (lc_other ?c)" for t
      using that inv(4) [of t] parked unfolding p by auto
    show "le_name q = k \<and> le_token q \<notin> lp_released (lc_pool ?c)" if "lp_quarantined (lc_pool ?c) k = Some q" for k q
      using that inv(5) [of k q] unfolding p by (auto split: if_splits)
    show "le_name q = k" if "(k, q, ks) \<in> set (lc_probing ?c)" for k q ks
      using that inv(6) [of k q ks] sub by auto
  qed
next
  note inv = lease_invD [OF assms(1)]
  case False
  have lp: "l \<in> parked c" using mem by (force simp: parked_def)
  have name: "le_name l = n" using inv(6) [OF mem] .
  have p: "lp_quarantined (lc_pool ?c) = (lp_quarantined (lc_pool c))(n := None)"
    "lp_released (lc_pool ?c) = insert (le_token l) (lp_released (lc_pool c))"
    "lp_mutex (lc_pool ?c) = release_lock n (le_token l) (lp_mutex (lc_pool c))"
    using False by (simp_all add: unquarantine_def lease_release_def name)
  have parked: "parked ?c \<subseteq> parked c" using sub unfolding parked_def p by (auto simp: ran_def split: if_splits)
  have cl: "claims ?c = claim ` set (lc_live c) \<union> set (lc_other c) \<union>
      claim ` {x \<in> parked ?c. le_token x \<notin> insert (le_token l) (lp_released (lc_pool c))}"
    unfolding claims_def [of ?c] p by simp
  have apart: "le_token l \<notin> le_token ` set (lc_live c) \<union> snd ` set (lc_other c)"
    using inv(4) [of "le_token l"] lp by blast
  have lc: "(n, le_token l) \<in> claims c" using lp False name by (force simp: claims_def claim_def)
  show ?thesis
  proof (rule inv_free [OF assms(1), where n = n and t = "le_token l"])
    show "claims ?c \<subseteq> claims c" using parked unfolding cl by (auto simp: claims_def)
    show "(n, le_token l) \<notin> claims ?c" unfolding cl using apart by (auto simp: claim_def image_iff)
    show "le_token l < mx_promises (lp_mutex (lc_pool c))" using parked_bound [OF assms(1) lp] .
    fix k q assume "lp_quarantined (lc_pool ?c) k = Some q"
    then have q: "lp_quarantined (lc_pool c) k = Some q" "k \<noteq> n" unfolding p by (simp_all split: if_splits)
    then have "(k, le_token q) \<in> claims c"
      using inv(5) [OF q(1)] by (force simp: claims_def claim_def parked_def ran_def)
    then have "le_token q \<noteq> le_token l" using mx.claims_same [OF inv(1) lc] q(2) by metis
    then show "lp_quarantined (lc_pool c) k = Some q \<and> le_token q \<notin> lp_released (lc_pool ?c)"
      using q(1) inv(5) [OF q(1)] unfolding p by simp
  qed (use p parked sub apart inv(3) in auto)
qed

lemma inv_answer:
  assumes "lease_inv c" and "i < length (lc_probing c)" and "lc_probing c ! i = (n, l, ns)"
  shows "lease_inv (acq_done (probe_answered n l ns answer (lc_pool c))
    (c\<lparr>lc_probing := take i (lc_probing c) @ drop (Suc i) (lc_probing c)\<rparr>))"
proof -
  let ?qs = "take i (lc_probing c) @ drop (Suc i) (lc_probing c)"
  have mem: "(n, l, ns) \<in> set (lc_probing c)" using assms(2,3) nth_mem by metis
  have sub: "set ?qs \<subseteq> set (lc_probing c)" by (auto dest: in_set_takeD in_set_dropD)
  have forget: "lease_inv (c\<lparr>lc_probing := ?qs\<rparr>)" by (rule inv_forget [OF assms(1)]) (use sub in auto)
  let ?c = "c\<lparr>lc_pool := unquarantine n l (lc_pool c), lc_probing := ?qs\<rparr>"
  have free: "lease_inv ?c" using inv_unquarantine [OF assms(1) mem sub] .
  have over: "acq_done r ?c = acq_done r (c\<lparr>lc_probing := ?qs\<rparr>)" for r
    by (cases r; cases "fst r") (auto simp: acq_done_def)
  show ?thesis
    using inv_try [OF forget, of ns] inv_try [OF free, of ns] inv_grab [OF free, of n] forget
    by (auto simp: probe_answered_def Let_def over acq_done_def [of "(ProbeThrew, _)"] split: option.splits bool.splits)
qed

lemma inv_take_other:
  assumes "lease_inv c" and "\<not> isLocked (lp_mutex (lc_pool c)) n" and t: "take_lock n (lp_mutex (lc_pool c)) = (t, m)"
  shows "lease_inv (c\<lparr>lc_pool := (lc_pool c)\<lparr>lp_mutex := m\<rparr>, lc_other := (n, t) # lc_other c\<rparr>)" (is "lease_inv ?c")
proof (rule lease_invI)
  note inv = lease_invD [OF assms(1)]
  let ?m = "lp_mutex (lc_pool c)"
  have tm: "t = mx_promises ?m" "mx_promises m = mx_promises ?m + 1"
    using t mx.take_token [of n ?m] mx.take_made [of n ?m] by simp_all
  have fresh: "t \<notin> le_token ` set (lc_live c)" "t \<notin> le_token ` parked c" "t \<notin> snd ` set (lc_other c)"
    "t \<notin> lp_released (lc_pool c)"
    using live_bound [OF assms(1)] parked_bound [OF assms(1)] other_bound [OF assms(1)] inv(2) tm by fastforce+
  have c: "parked ?c = parked c" "claims ?c = insert (n, t) (claims c)" by (auto simp: parked_def claims_def)
  show "mx.claims_ok (lp_mutex (lc_pool ?c)) (claims ?c)"
    using mx.claims_take [OF inv(1), of n] assms(2) t unfolding c by (simp add: isLocked_def)
  show "q < mx_promises (lp_mutex (lc_pool ?c))" if "q \<in> lp_released (lc_pool ?c)" for q
    using that inv(2) [of q] tm by simp
  show "distinct (map le_token (lc_live ?c) @ map snd (lc_other ?c))" using inv(3) fresh by auto
  show "q \<notin> le_token ` parked ?c \<and> q \<notin> lp_released (lc_pool ?c)"
    if "q \<in> le_token ` set (lc_live ?c) \<union> snd ` set (lc_other ?c)" for q
    using that inv(4) [of q] fresh unfolding c by auto
  show "le_name l = k \<and> le_token l \<notin> lp_released (lc_pool ?c)" if "lp_quarantined (lc_pool ?c) k = Some l" for k l
    using that inv(5) [of k l] by simp
  show "le_name l = k" if "(k, l, ns) \<in> set (lc_probing ?c)" for k l ns using that inv(6) [of k l ns] by simp
qed

lemma inv_free_other:
  assumes "lease_inv c" and mem: "(n, t) \<in> set (lc_other c)"
  shows "lease_inv (c\<lparr>lc_pool := (lc_pool c)\<lparr>lp_mutex := release_lock n t (lp_mutex (lc_pool c))\<rparr>,
    lc_other := removeAll (n, t) (lc_other c)\<rparr>)" (is "lease_inv ?c")
proof -
  note inv = lease_invD [OF assms(1)]
  have inj: "inj_on snd (set (lc_other c))" using inv(3) by (simp add: distinct_map)
  have only: "x = (n, t) \<longleftrightarrow> snd x = t" if "x \<in> set (lc_other c)" for x
    using inj_onD [OF inj _ that mem] by auto
  have "set (lc_other c) - {(n, t)} = {x \<in> set (lc_other c). snd x \<noteq> t}" using only by blast
  then have rest: "set (removeAll (n, t) (lc_other c)) = {x \<in> set (lc_other c). snd x \<noteq> t}" by simp
  have t: "t \<notin> le_token ` set (lc_live c)" "t \<notin> le_token ` parked c" "t \<notin> lp_released (lc_pool c)"
  proof -
    have "t \<in> snd ` set (lc_other c)" using mem by force
    then show "t \<notin> le_token ` set (lc_live c)" "t \<notin> le_token ` parked c" "t \<notin> lp_released (lc_pool c)"
      using inv(3) inv(4) [of t] by auto
  qed
  have c: "parked ?c = parked c" "claims ?c = claim ` set (lc_live c) \<union> set (removeAll (n, t) (lc_other c)) \<union>
      claim ` {x \<in> parked c. le_token x \<notin> lp_released (lc_pool c)}" by (simp_all add: parked_def claims_def)
  show ?thesis
  proof (rule inv_free [OF assms(1), where n = n and t = t])
    show "claims ?c \<subseteq> claims c" unfolding c by (auto simp: claims_def)
    show "(n, t) \<notin> claims ?c" unfolding c rest using t by (auto simp: claim_def image_iff)
    show "t < mx_promises (lp_mutex (lc_pool c))" using other_bound [OF assms(1) mem] by simp
    show "distinct (map le_token (lc_live ?c) @ map snd (lc_other ?c))"
      using inv(3) distinct_map_filter [of snd "lc_other c" "\<lambda>x. (n, t) \<noteq> x"] by (auto simp: removeAll_filter_not_eq)
    show "t \<notin> le_token ` set (lc_live ?c) \<union> snd ` set (lc_other ?c)" using rest t by auto
    fix k l assume "lp_quarantined (lc_pool ?c) k = Some l"
    then show "lp_quarantined (lc_pool c) k = Some l \<and> le_token l \<notin> lp_released (lc_pool ?c)"
      using inv(5) [of k l] by simp
  qed (use rest in \<open>auto simp: parked_def\<close>)
qed

lemma inv_step: "lease_inv c \<Longrightarrow> lease_step e c = Some c' \<Longrightarrow> lease_inv c'"
  using inv_try inv_answer inv_release inv_quarantine inv_take_other inv_free_other
  by (cases e) (auto split: if_splits prod.splits)

lemma inv_run: "lease_inv c \<Longrightarrow> lease_run es c = Some c' \<Longrightarrow> lease_inv c'"
  by (induction es arbitrary: c) (auto split: option.splits dest: inv_step)

section \<open>Exclusion\<close>

lemma live_claim: "l \<in> set (lc_live c) \<Longrightarrow> (le_name l, le_token l) \<in> claims c"
  by (auto simp: claims_def claim_def)

lemma other_claim: "x \<in> set (lc_other c) \<Longrightarrow> x \<in> claims c"
  by (simp add: claims_def)

lemma quarantined_claim:
  assumes "lease_inv c" and "lp_quarantined (lc_pool c) n = Some l"
  shows "(n, le_token l) \<in> claims c"
  using lease_invD(5) [OF assms] assms(2) by (force simp: claims_def claim_def parked_def ran_def)

lemma owners_apart:
  assumes "lease_inv c"
  shows "distinct (map le_name (lc_live c) @ map fst (lc_other c))"
    and "l \<in> set (lc_live c) \<Longrightarrow> lp_quarantined (lc_pool c) (le_name l) = None"
    and "x \<in> set (lc_other c) \<Longrightarrow> lp_quarantined (lc_pool c) (fst x) = None"
proof -
  note inv = lease_invD [OF assms] and one = mx.claims_unique [OF lease_invD(1) [OF assms]]
  have d: "distinct (map le_token (lc_live c))" "distinct (map snd (lc_other c))" using inv(3) by simp_all
  have "inj_on le_name (set (lc_live c))"
  proof (rule inj_onI)
    fix a b assume ab: "a \<in> set (lc_live c)" "b \<in> set (lc_live c)" "le_name a = le_name b"
    then have "le_token a = le_token b" using one live_claim by metis
    then show "a = b" using ab(3) by simp
  qed
  moreover have "inj_on fst (set (lc_other c))"
    by (rule inj_onI) (metis one other_claim prod.collapse)
  moreover have "le_name a \<noteq> fst x" if "a \<in> set (lc_live c)" "x \<in> set (lc_other c)" for a x
  proof
    assume "le_name a = fst x"
    then have "le_token a = snd x" using one live_claim [OF that(1)] other_claim [OF that(2)] by (metis prod.collapse)
    then show False using inv(3) that by (force simp: image_iff)
  qed
  ultimately show "distinct (map le_name (lc_live c) @ map fst (lc_other c))"
    using d by (auto simp: distinct_map)
  show "lp_quarantined (lc_pool c) (le_name l) = None" if l: "l \<in> set (lc_live c)"
  proof (rule ccontr)
    assume "lp_quarantined (lc_pool c) (le_name l) \<noteq> None"
    then obtain q where q: "lp_quarantined (lc_pool c) (le_name l) = Some q" by blast
    then have "le_token q = le_token l" using one quarantined_claim [OF assms q] live_claim [OF l] by blast
    moreover have "q \<in> parked c" using q by (auto simp: parked_def ran_def)
    ultimately show False using inv(4) [of "le_token l"] l by (metis UnI1 image_eqI)
  qed
  show "lp_quarantined (lc_pool c) (fst x) = None" if x: "x \<in> set (lc_other c)"
  proof (rule ccontr)
    assume "lp_quarantined (lc_pool c) (fst x) \<noteq> None"
    then obtain q where q: "lp_quarantined (lc_pool c) (fst x) = Some q" by blast
    then have "le_token q = snd x"
      using one quarantined_claim [OF assms q] other_claim [OF x] by (metis prod.collapse)
    moreover have "q \<in> parked c" using q by (auto simp: parked_def ran_def)
    ultimately show False using inv(4) [of "snd x"] x by (metis UnI2 image_eqI)
  qed
qed

text \<open>C36: No lease is held twice. Under every interleaving of acquisition calls, probe answers, first and
  repeated releases, quarantines and foreign users of the shared mutex, the names held by handles and by
  foreign users are pairwise distinct, each of them is locked, and none of the handles is for a quarantined
  name.\<close>
theorem leases_exclusive:
  assumes "lease_run events lease_start = Some c"
  shows "distinct (map le_name (lc_live c) @ map fst (lc_other c)) \<and>
    list_all (\<lambda>l. isLocked (lp_mutex (lc_pool c)) (le_name l) \<and> \<not> isQuarantined (le_name l) (lc_pool c)) (lc_live c)"
proof -
  have inv: "lease_inv c" using inv_run [OF inv_start assms] .
  have "isLocked (lp_mutex (lc_pool c)) (le_name l)" if "l \<in> set (lc_live c)" for l
    using mx.claims_held [OF lease_invD(1) [OF inv] live_claim [OF that]] by (simp add: isLocked_def)
  then show ?thesis using owners_apart [OF inv] by (auto simp: list_all_iff isQuarantined_def)
qed

text \<open>C37: A quarantined name stays out of circulation. In every reachable state, each event other than a
  positive answer to a probe of that very name leaves the quarantine entry in place and the name locked.\<close>
theorem quarantine_holds:
  assumes "lease_run events lease_start = Some c" and "lp_quarantined (lc_pool c) n = Some l"
    and "lease_step e c = Some c'"
    and "\<not> (case e of Answer i (Some True) \<Rightarrow> fst (lc_probing c ! i) = n | _ \<Rightarrow> False)"
  shows "lp_quarantined (lc_pool c') n = Some l \<and> isLocked (lp_mutex (lc_pool c')) n"
proof -
  have inv: "lease_inv c" using inv_run [OF inv_start assms(1)] .
  have tryq: "lp_quarantined (snd (try_from ns p)) = lp_quarantined p" for ns p
    by (induction ns) (auto simp: grab_def split: option.splits prod.splits)
  have grabq: "lp_quarantined (snd (grab k p)) = lp_quarantined p" for k p by (simp add: grab_def split: prod.splits)
  have over: "lp_quarantined (lc_pool (acq_done r d)) = lp_quarantined (snd r)" for r d
    by (cases r; cases "fst r") (auto simp: acq_done_def)
  have live: "n \<notin> le_name ` set (lc_live c)" using owners_apart(2) [OF inv] assms(2) by auto
  have "lp_quarantined (lc_pool c') n = Some l"
    using assms(2,3,4) live
    by (cases e) (auto simp: over tryq grabq probe_answered_def unquarantine_def lease_release_def quarantine_def Let_def
        split: if_splits prod.splits option.splits bool.splits)
  then show ?thesis
    using quarantined_claim [OF inv_step [OF inv assms(3)]] mx.claims_held [OF lease_invD(1) [OF inv_step [OF inv assms(3)]]]
    by (fastforce simp: isLocked_def)
qed

section \<open>Serial use\<close>

definition accounted :: "lease_cfg \<Rightarrow> bool" where
  "accounted c \<longleftrightarrow> (\<forall>n t. mx_locks (lp_mutex (lc_pool c)) n = Some t \<longrightarrow>
     (n, t) \<in> claim ` set (lc_live c) \<union> set (lc_other c) \<union> claim ` ran (lp_quarantined (lc_pool c)))"

definition serial_inv :: "lease_cfg \<Rightarrow> bool" where
  "serial_inv c \<longleftrightarrow> lease_inv c \<and> accounted c \<and>
     (lc_probing c = [] \<or>
      (\<exists>n l ns. lc_probing c = [(n, l, ns)] \<and> lp_quarantined (lc_pool c) n = Some l))"

lemma accounted_grab:
  assumes "accounted c"
  shows "accounted (acq_done (grab n (lc_pool c)) c)"
  using assms
  by (auto simp: accounted_def acq_done_def grab_def take_lock_def claim_def split: if_splits)

lemma serial_grab:
  assumes "serial_inv c" and "\<not> isLocked (lp_mutex (lc_pool c)) n" and "lc_probing c = []"
  shows "serial_inv (acq_done (grab n (lc_pool c)) c)"
proof -
  have "lc_probing (acq_done (grab n (lc_pool c)) c) = []" using assms(3) by (simp add: acq_done_def grab_def split: prod.splits)
  then show ?thesis using assms inv_grab [of c n] accounted_grab [of c n] by (simp add: serial_inv_def)
qed

lemma serial_try:
  "serial_inv c \<Longrightarrow> lc_probing c = [] \<Longrightarrow> serial_inv (acq_done (try_from names (lc_pool c)) c)"
proof (induction names)
  case Nil
  then show ?case by (simp add: acq_done_def)
next
  case (Cons n ns)
  show ?case
  proof (cases "lp_quarantined (lc_pool c) n")
    case None
    then show ?thesis using Cons serial_grab [of c n] by auto
  next
    case (Some l)
    then show ?thesis using Cons inv_probing [of c n l ns]
      by (simp add: acq_done_def serial_inv_def accounted_def)
  qed
qed

text \<open>A released lock leaves the table; the others stay accounted for.\<close>

lemma accounted_free:
  assumes "accounted c" and "mx_locks (lp_mutex (lc_pool c)) n = Some t"
    and m: "lp_mutex (lc_pool c') = release_lock n t (lp_mutex (lc_pool c))"
    and "claim ` set (lc_live c) \<union> set (lc_other c) \<union> claim ` ran (lp_quarantined (lc_pool c)) \<subseteq>
      insert (n, t) (claim ` set (lc_live c') \<union> set (lc_other c') \<union> claim ` ran (lp_quarantined (lc_pool c')))"
  shows "accounted c'"
  unfolding accounted_def m
proof (intro allI impI)
  fix k u assume "mx_locks (release_lock n t (lp_mutex (lc_pool c))) k = Some u"
  then have k: "mx_locks (lp_mutex (lc_pool c)) k = Some u" "k \<noteq> n"
    using assms(2) by (auto simp: release_lock_def split: if_splits)
  then have "(k, u) \<in> claim ` set (lc_live c) \<union> set (lc_other c) \<union> claim ` ran (lp_quarantined (lc_pool c))"
    using assms(1) by (simp add: accounted_def)
  then show "(k, u) \<in> claim ` set (lc_live c') \<union> set (lc_other c') \<union> claim ` ran (lp_quarantined (lc_pool c'))"
    using assms(4) k(2) by blast
qed

lemma serial_unquarantine:
  assumes "serial_inv c" and "lc_probing c = [(n, l, ns)]" and q: "lp_quarantined (lc_pool c) n = Some l"
  shows "serial_inv (c\<lparr>lc_pool := unquarantine n l (lc_pool c), lc_probing := []\<rparr>)" (is "serial_inv ?c")
proof -
  have inv: "lease_inv c" "accounted c" using assms(1) by (simp_all add: serial_inv_def)
  have l: "le_name l = n" "le_token l \<notin> lp_released (lc_pool c)" using lease_invD(5) [OF inv(1) q] by simp_all
  have held: "mx_locks (lp_mutex (lc_pool c)) n = Some (le_token l)"
    using mx.claims_held [OF lease_invD(1) [OF inv(1)] quarantined_claim [OF inv(1) q]] .
  have "accounted ?c"
  proof (rule accounted_free [OF inv(2) held])
    show "lp_mutex (lc_pool ?c) = release_lock n (le_token l) (lp_mutex (lc_pool c))"
      using l by (simp add: unquarantine_def lease_release_def)
    have "ran (lp_quarantined (lc_pool c)) \<subseteq> insert l (ran (lp_quarantined (lc_pool ?c)))"
      using q l(2) by (auto simp: unquarantine_def lease_release_def ran_def) (metis option.inject)
    then show "claim ` set (lc_live c) \<union> set (lc_other c) \<union> claim ` ran (lp_quarantined (lc_pool c)) \<subseteq>
      insert (n, le_token l) (claim ` set (lc_live ?c) \<union> set (lc_other ?c) \<union> claim ` ran (lp_quarantined (lc_pool ?c)))"
      using l(1) by (auto simp: claim_def)
  qed
  moreover have "lease_inv ?c" by (rule inv_unquarantine [OF inv(1)]) (simp_all add: assms(2))
  ultimately show ?thesis by (simp add: serial_inv_def)
qed

lemma serial_answer:
  assumes "serial_inv c" and "lc_probing c = [(n, l, ns)]" and q: "lp_quarantined (lc_pool c) n = Some l"
  shows "serial_inv (acq_done (probe_answered n l ns answer (lc_pool c)) (c\<lparr>lc_probing := []\<rparr>))"
proof -
  have forget: "serial_inv (c\<lparr>lc_probing := []\<rparr>)"
    using assms(1) inv_forget [of c "c\<lparr>lc_probing := []\<rparr>"] by (simp add: serial_inv_def accounted_def)
  let ?c = "c\<lparr>lc_pool := unquarantine n l (lc_pool c), lc_probing := []\<rparr>"
  have free: "serial_inv ?c" using serial_unquarantine [OF assms] .
  have over: "acq_done r ?c = acq_done r (c\<lparr>lc_probing := []\<rparr>)" for r by (cases r; cases "fst r") (auto simp: acq_done_def)
  show ?thesis
    using serial_try [OF forget, of ns] serial_try [OF free, of ns] serial_grab [OF free, of n] forget
    by (auto simp: probe_answered_def Let_def over acq_done_def [of "(ProbeThrew, _)"] split: option.splits bool.splits)
qed

lemma accounted_release:
  assumes "lease_inv c" and "accounted c" and "l \<in> set (lc_live c) \<or> le_token l \<in> lp_released (lc_pool c)"
  shows "accounted (c\<lparr>lc_pool := lease_release l (lc_pool c), lc_live := removeAll l (lc_live c)\<rparr>)"
proof (cases "le_token l \<in> lp_released (lc_pool c)")
  case True
  then have "l \<notin> set (lc_live c)" using lease_invD(4) [OF assms(1), of "le_token l"] by blast
  then show ?thesis using assms(2) True by (simp add: lease_release_def accounted_def)
next
  case False
  then have l: "l \<in> set (lc_live c)" using assms(3) by simp
  show ?thesis
    by (rule accounted_free [OF assms(2) mx.claims_held [OF lease_invD(1) [OF assms(1)] live_claim [OF l]]])
      (use False in \<open>auto simp: lease_release_def claim_def\<close>)
qed

lemma accounted_quarantine:
  assumes "lease_inv c" and "accounted c" and l: "l \<in> set (lc_live c)"
  shows "accounted (c\<lparr>lc_pool := quarantine l (lc_pool c), lc_live := removeAll l (lc_live c)\<rparr>)"
proof -
  have "lp_quarantined (lc_pool c) (le_name l) = None" using owners_apart(2) [OF assms(1) l] .
  then have "ran ((lp_quarantined (lc_pool c))(le_name l \<mapsto> l)) = insert l (ran (lp_quarantined (lc_pool c)))" by simp
  then show ?thesis using assms(2) by (auto simp: accounted_def quarantine_def)
qed

lemma accounted_take_other:
  "accounted c \<Longrightarrow> take_lock n (lp_mutex (lc_pool c)) = (t, m) \<Longrightarrow>
   accounted (c\<lparr>lc_pool := (lc_pool c)\<lparr>lp_mutex := m\<rparr>, lc_other := (n, t) # lc_other c\<rparr>)"
  unfolding accounted_def by (auto simp: take_lock_def split: if_splits) blast+

lemma accounted_free_other:
  assumes "lease_inv c" and "accounted c" and mem: "(n, t) \<in> set (lc_other c)"
  shows "accounted (c\<lparr>lc_pool := (lc_pool c)\<lparr>lp_mutex := release_lock n t (lp_mutex (lc_pool c))\<rparr>,
    lc_other := removeAll (n, t) (lc_other c)\<rparr>)"
  by (rule accounted_free [OF assms(2) mx.claims_held [OF lease_invD(1) [OF assms(1)] other_claim [OF mem]]]) auto

lemma serial_step:
  assumes "serial_inv c" and step: "lease_step e c = Some c'" and "is_call e \<Longrightarrow> lc_probing c = []"
  shows "serial_inv c'"
proof (cases "(\<exists>names. e = Call names) \<or> (\<exists>i a. e = Answer i a)")
  case True
  then show ?thesis
  proof (elim disjE exE)
    fix names assume "e = Call names"
    then show ?thesis using assms serial_try [OF assms(1), of names] by simp
  next
    fix i answer assume e: "e = Answer i answer"
    then obtain n l ns where p: "lc_probing c = [(n, l, ns)]" "lp_quarantined (lc_pool c) n = Some l" "i = 0"
      using assms(1,2) by (auto simp: serial_inv_def split: if_splits)
    then have "c' = acq_done (probe_answered n l ns answer (lc_pool c)) (c\<lparr>lc_probing := []\<rparr>)" using step e by simp
    then show ?thesis using serial_answer [OF assms(1) p(1,2), where answer = answer] by simp
  qed
next
  case False
  have inv: "lease_inv c" "accounted c" using assms(1) by (simp_all add: serial_inv_def)
  have "accounted c'"
    using False step accounted_release [OF inv] accounted_quarantine [OF inv] accounted_take_other [OF inv(2)]
      accounted_free_other [OF inv] by (cases e) (auto split: if_splits prod.splits)
  moreover have "lc_probing c' = lc_probing c" using False step by (cases e) (auto split: if_splits prod.splits)
  moreover have "lp_quarantined (lc_pool c') n = Some l" if "lp_quarantined (lc_pool c) n = Some l" for n l
  proof -
    have "n \<notin> le_name ` set (lc_live c)" using owners_apart(2) [OF inv(1)] that by auto
    then show ?thesis using that False step
      by (cases e) (auto simp: lease_release_def quarantine_def split: if_splits prod.splits)
  qed
  ultimately show ?thesis using assms(1) inv_step [OF inv(1) step] by (auto simp: serial_inv_def)
qed

lemma serial_inv_run: "serial_inv c \<Longrightarrow> serial_run es c = Some c' \<Longrightarrow> serial_inv c'"
  by (induction es arbitrary: c) (auto split: option.splits if_splits dest: serial_step)

lemma serial_start: "serial_inv lease_start"
  using inv_start by (simp add: serial_inv_def accounted_def lease_start_def new_pool_def new_mutex_def)

text \<open>C38: Serial use loses no slot. When no call starts while another waits for a probe, as in the scheduler's
  drain loop, then at every moment a name is locked exactly when a live handle, a quarantine entry or a foreign
  user holds it: once these are gone the name can be leased again.\<close>
theorem serial_pool_exact:
  assumes "serial_run events lease_start = Some c"
  shows "isLocked (lp_mutex (lc_pool c)) n \<longleftrightarrow>
    n \<in> le_name ` set (lc_live c) \<or> n \<in> fst ` set (lc_other c) \<or> isQuarantined n (lc_pool c)"
proof -
  have inv: "lease_inv c" "accounted c" using serial_inv_run [OF serial_start assms] by (simp_all add: serial_inv_def)
  note held = mx.claims_held [OF lease_invD(1) [OF inv(1)]]
  have "n \<in> le_name ` set (lc_live c) \<or> n \<in> fst ` set (lc_other c) \<or> isQuarantined n (lc_pool c)"
    if lock: "isLocked (lp_mutex (lc_pool c)) n"
  proof -
    obtain t where "mx_locks (lp_mutex (lc_pool c)) n = Some t" using lock by (auto simp: isLocked_def)
    then consider "(n, t) \<in> claim ` set (lc_live c)" | "(n, t) \<in> set (lc_other c)"
      | "(n, t) \<in> claim ` ran (lp_quarantined (lc_pool c))"
      using inv(2) by (auto simp: accounted_def)
    then show ?thesis
    proof cases
      case 3
      then obtain l k where l: "lp_quarantined (lc_pool c) k = Some l" "le_name l = n" by (auto simp: claim_def ran_def)
      then show ?thesis using lease_invD(5) [OF inv(1) l(1)] by (simp add: isQuarantined_def)
    qed (force simp: claim_def)+
  qed
  moreover have "isLocked (lp_mutex (lc_pool c)) n" if "n \<in> le_name ` set (lc_live c)"
    using that held [OF live_claim] by (auto simp: isLocked_def)
  moreover have "isLocked (lp_mutex (lc_pool c)) n" if "n \<in> fst ` set (lc_other c)"
    using that held [OF other_claim] by (force simp: isLocked_def)
  moreover have "isLocked (lp_mutex (lc_pool c)) n" if "isQuarantined n (lc_pool c)"
    using that held [OF quarantined_claim [OF inv(1)]] by (auto simp: isLocked_def isQuarantined_def)
  ultimately show ?thesis by blast
qed

text \<open>The discipline is needed: when two calls wait for the probe of one quarantined name, the answer to the
  second deletes the quarantine entry that the first one's holder made since. The name stays locked with no
  holder, no quarantine entry and no pending probe.\<close>

lemma overlapping_probes_lose_a_slot:
  "case lease_run
      [Call [''p''], Quarantine \<lparr>le_name = ''p'', le_token = 0\<rparr>, Call [''p''], Call [''p''], Answer 0 (Some True),
       Quarantine \<lparr>le_name = ''p'', le_token = 1\<rparr>, Answer 0 (Some True)] lease_start of
     None \<Rightarrow> False
   | Some c \<Rightarrow> isLocked (lp_mutex (lc_pool c)) ''p'' \<and> \<not> isQuarantined ''p'' (lc_pool c) \<and>
       lc_live c = [] \<and> lc_other c = [] \<and> lc_probing c = []"
  by code_simp

section \<open>Which lease a call gets\<close>

text \<open>With nothing in between, a call behaves as its run from probe to probe does.\<close>

fun answered :: "(string \<Rightarrow> bool) \<Rightarrow> nat \<Rightarrow> acq \<times> lease_pool \<Rightarrow> acq \<times> lease_pool" where
  "answered free (Suc k) (Probing n l ns, p) = answered free k (probe_answered n l ns (Some (free n)) p)"
| "answered free _ r = r"

lemma answered_done: "(\<And>n l ns p. r \<noteq> (Probing n l ns, p)) \<Longrightarrow> answered free k r = r"
  by (cases r; cases k; cases "fst r") auto

lemma call_is_answered:
  "length names < k \<Longrightarrow> answered free k (try_from names p) = tryAcquireOneOf free names p"
proof (induction names arbitrary: k p)
  case Nil
  then show ?case by (simp add: answered_done)
next
  case (Cons n ns)
  then obtain j where k: "k = Suc j" "length ns < j" by (cases k) auto
  have grab: "answered free i (grab n q) = grab n q" for i q by (rule answered_done) (simp add: grab_def split: prod.splits)
  show ?case
    using Cons.IH [of j] Cons.IH [of k] k Cons.prems
    by (auto simp: probe_answered_def Let_def grab split: option.splits)
qed

definition available :: "(string \<Rightarrow> bool) \<Rightarrow> lease_pool \<Rightarrow> string \<Rightarrow> bool" where
  "available free p n \<longleftrightarrow> (if isQuarantined n p then free n else \<not> isLocked (lp_mutex p) n)"

lemma unquarantine_frees:
  assumes "lease_inv c" and "lp_quarantined (lc_pool c) n = Some l"
  shows "\<not> isLocked (lp_mutex (unquarantine n l (lc_pool c))) n"
    "mx_promises (lp_mutex (unquarantine n l (lc_pool c))) = mx_promises (lp_mutex (lc_pool c))"
  using lease_invD(5) [OF assms] mx.claims_held [OF lease_invD(1) [OF assms(1)] quarantined_claim [OF assms]]
  by (simp_all add: unquarantine_def lease_release_def release_lock_def isLocked_def)

lemma grabbed: "fst (grab n p) = Got \<lparr>le_name = n, le_token = mx_promises (lp_mutex p)\<rparr>"
  by (simp add: grab_def take_lock_def)

text \<open>C39: A call returns the first candidate that is available: in every reachable state of the pool, with the
  probes answering by \<open>free\<close>, it gets a new lease on the first name that is not locked, or is quarantined
  and free again; and it returns \<open>null\<close> exactly when there is none.\<close>
theorem call_takes_first_available:
  assumes "lease_run events lease_start = Some c"
  shows "fst (tryAcquireOneOf free names (lc_pool c)) =
    (case find (available free (lc_pool c)) names of
       None \<Rightarrow> NoneFree
     | Some n \<Rightarrow> Got \<lparr>le_name = n, le_token = mx_promises (lp_mutex (lc_pool c))\<rparr>)"
proof -
  have inv: "lease_inv c" using inv_run [OF inv_start assms] .
  show ?thesis
    using unquarantine_frees [OF inv]
    by (induction names) (auto simp: available_def isQuarantined_def grabbed Let_def split: option.splits)
qed

lemma ran_to: "\<not> Option.is_none x \<Longrightarrow> x = Some (the x)"
  by (cases x) simp_all

definition demo_leases :: "lease_event list" where
  "demo_leases = [Call [''p'', ''q''], Call [''p'', ''q''], Quarantine \<lparr>le_name = ''p'', le_token = 0\<rparr>, TakeOther ''r'']"

theorem leases_exclusive_witness:
  "list_all (\<lambda>l. isLocked (lp_mutex (lc_pool (the (lease_run demo_leases lease_start)))) (le_name l))
     (lc_live (the (lease_run demo_leases lease_start)))"
proof -
  have "lease_run demo_leases lease_start = Some (the (lease_run demo_leases lease_start))" by (rule ran_to) code_simp
  from leases_exclusive [OF this] show ?thesis by (simp add: list_all_iff)
qed

theorem quarantine_holds_witness:
  "isLocked (lp_mutex (lc_pool (the (lease_step (Call [''p'']) (the (lease_run demo_leases lease_start)))))) ''p''"
proof -
  let ?c = "the (lease_run demo_leases lease_start)"
  have "lease_run demo_leases lease_start = Some ?c" by (rule ran_to) code_simp
  moreover have "lp_quarantined (lc_pool ?c) ''p'' = Some \<lparr>le_name = ''p'', le_token = 0\<rparr>" by code_simp
  moreover have "lease_step (Call [''p'']) ?c = Some (the (lease_step (Call [''p'']) ?c))" by (rule ran_to) code_simp
  moreover have "\<not> (case Call [''p''] of Answer i (Some True) \<Rightarrow> fst (lc_probing ?c ! i) = ''p'' | _ \<Rightarrow> False)" by simp
  ultimately show ?thesis by (rule quarantine_holds [THEN conjunct2])
qed

theorem serial_pool_exact_witness:
  "isLocked (lp_mutex (lc_pool (the (serial_run demo_leases lease_start)))) ''r''"
proof -
  let ?c = "the (serial_run demo_leases lease_start)"
  have "serial_run demo_leases lease_start = Some ?c" by (rule ran_to) code_simp
  moreover have "''r'' \<in> fst ` set (lc_other ?c)" by code_simp
  ultimately show ?thesis using serial_pool_exact by blast
qed

theorem call_takes_first_available_witness:
  "fst (tryAcquireOneOf (\<lambda>_. True) [''r'', ''q'', ''p''] (lc_pool (the (lease_run demo_leases lease_start)))) =
     Got \<lparr>le_name = ''p'', le_token = mx_promises (lp_mutex (lc_pool (the (lease_run demo_leases lease_start))))\<rparr>"
proof -
  let ?c = "the (lease_run demo_leases lease_start)"
  have "lease_run demo_leases lease_start = Some ?c" by (rule ran_to) code_simp
  then have "fst (tryAcquireOneOf (\<lambda>_. True) [''r'', ''q'', ''p''] (lc_pool ?c)) =
    (case find (available (\<lambda>_. True) (lc_pool ?c)) [''r'', ''q'', ''p''] of None \<Rightarrow> NoneFree
     | Some n \<Rightarrow> Got \<lparr>le_name = n, le_token = mx_promises (lp_mutex (lc_pool ?c))\<rparr>)"
    by (rule call_takes_first_available)
  moreover have "find (available (\<lambda>_. True) (lc_pool ?c)) [''r'', ''q'', ''p''] = Some ''p''" by code_simp
  ultimately show ?thesis by (simp only: option.case)
qed

end
