(* ===== verification/VerifyReport.thy ===== *)
theory VerifyReport
  imports JsString Complex_Main
begin

text \<open>
  The structured result of a verification agent and its validator: \<open>VerificationReportV1\<close> and
  \<open>normalizeVerificationReportV1\<close> of shared/types/visualVerification.ts, with \<open>parseMobileAppSpec\<close>
  and the vocabularies they use. The validator takes any JSON value. An object is the list of its members in
  order, without repeated keys; a number is a rational, or \<open>JHuge\<close> for a literal that JavaScript reads as an
  infinity. Every rejection is the error string of the source.
\<close>

section \<open>JSON values and their readers\<close>

datatype jval =
    JNull
  | JBool bool
  | JNum rat
  | JHuge
  | JText string
  | JArr "jval list"
  | JObj "(string \<times> jval) list"

text \<open>\<open>value.key\<close>, with \<open>None\<close> for \<open>undefined\<close>.\<close>

definition fld :: "string \<Rightarrow> jval \<Rightarrow> jval option" where
  "fld k v = (case v of JObj kvs \<Rightarrow> map_of kvs k | _ \<Rightarrow> None)"

definition isRecord :: "jval \<Rightarrow> bool" where
  "isRecord v = (case v of JObj _ \<Rightarrow> True | _ \<Rightarrow> False)"

definition text_at :: "string \<Rightarrow> jval \<Rightarrow> string option" where
  "text_at k v = (case fld k v of Some (JText s) \<Rightarrow> Some s | _ \<Rightarrow> None)"

text \<open>\<open>isNonEmptyString(value.key)\<close>, with the narrowed value.\<close>

definition nonempty_at :: "string \<Rightarrow> jval \<Rightarrow> string option" where
  "nonempty_at k v = (case text_at k v of Some s \<Rightarrow> (if trim s = [] then None else Some s) | None \<Rightarrow> None)"

definition array_at :: "string \<Rightarrow> jval \<Rightarrow> jval list option" where
  "array_at k v = (case fld k v of Some (JArr vs) \<Rightarrow> Some vs | _ \<Rightarrow> None)"

fun texts_of :: "jval list \<Rightarrow> string list option" where
  "texts_of [] = Some []"
| "texts_of (JText s # vs) = map_option ((#) s) (texts_of vs)"
| "texts_of (v # vs) = None"

definition texts_at :: "string \<Rightarrow> jval \<Rightarrow> string list option" where
  "texts_at k v = (case array_at k v of Some vs \<Rightarrow> texts_of vs | None \<Rightarrow> None)"

text \<open>Early returns: \<open>need c e\<close> returns the error \<open>e\<close> unless \<open>c\<close> holds.\<close>

definition sbind :: "'e + 'a \<Rightarrow> ('a \<Rightarrow> 'e + 'b) \<Rightarrow> 'e + 'b" where
  "sbind r f = (case r of Inl e \<Rightarrow> Inl e | Inr a \<Rightarrow> f a)"

definition need :: "'a option \<Rightarrow> 'e \<Rightarrow> ('a \<Rightarrow> 'e + 'b) \<Rightarrow> 'e + 'b" where
  "need x e f = (case x of None \<Rightarrow> Inl e | Some a \<Rightarrow> f a)"

fun each :: "(nat \<Rightarrow> 'v \<Rightarrow> 'e + 'a) \<Rightarrow> nat \<Rightarrow> 'v list \<Rightarrow> 'e + 'a list" where
  "each f i [] = Inr []"
| "each f i (v # vs) = sbind (f i v) (\<lambda>x. sbind (each f (Suc i) vs) (\<lambda>xs. Inr (x # xs)))"

definition sq :: "string \<Rightarrow> string" where "sq s = CHR 0x27 # s @ [CHR 0x27]"
definition dq :: "string \<Rightarrow> string" where "dq s = CHR 0x22 # s @ [CHR 0x22]"

fun join_with :: "string \<Rightarrow> string list \<Rightarrow> string" where
  "join_with sep [] = []"
| "join_with sep [s] = s"
| "join_with sep (s # ss) = s @ sep @ join_with sep ss"

definition at_index :: "string \<Rightarrow> nat \<Rightarrow> string" where
  "at_index field i = field @ ''['' @ nat_text i @ '']''"

section \<open>The report\<close>

datatype VerificationReportOutcome = RoPass | RoFail | RoBuildFailed | RoLaunchFailed | RoUnverifiable | RoWrongEnvironment

definition outcome_name :: "VerificationReportOutcome \<Rightarrow> string" where
  "outcome_name ro =
     (case ro of RoPass \<Rightarrow> ''pass'' | RoFail \<Rightarrow> ''fail'' | RoBuildFailed \<Rightarrow> ''build_failed''
      | RoLaunchFailed \<Rightarrow> ''launch_failed'' | RoUnverifiable \<Rightarrow> ''unverifiable''
      | RoWrongEnvironment \<Rightarrow> ''wrong_environment'')"

definition VERIFICATION_REPORT_OUTCOMES :: "VerificationReportOutcome list" where
  "VERIFICATION_REPORT_OUTCOMES =
     [RoPass, RoFail, RoBuildFailed, RoLaunchFailed, RoUnverifiable, RoWrongEnvironment]"

datatype VerificationModality = MoWeb | MoCdpApp | MoNativeScreen | MoMobile

definition modality_name :: "VerificationModality \<Rightarrow> string" where
  "modality_name mo =
     (case mo of MoWeb \<Rightarrow> ''web'' | MoCdpApp \<Rightarrow> ''cdp-app'' | MoNativeScreen \<Rightarrow> ''native-screen'' | MoMobile \<Rightarrow> ''mobile'')"

definition VERIFICATION_MODALITIES :: "VerificationModality list" where
  "VERIFICATION_MODALITIES = [MoWeb, MoCdpApp, MoNativeScreen, MoMobile]"

datatype attest_kind = AkHttp | AkDom | AkCdp | AkWindow | AkBundle | AkFile | AkServe

definition attest_name :: "attest_kind \<Rightarrow> string" where
  "attest_name ak =
     (case ak of AkHttp \<Rightarrow> ''http-endpoint'' | AkDom \<Rightarrow> ''dom-marker'' | AkCdp \<Rightarrow> ''cdp-token''
      | AkWindow \<Rightarrow> ''window-identity'' | AkBundle \<Rightarrow> ''bundle-identity'' | AkFile \<Rightarrow> ''file-identity''
      | AkServe \<Rightarrow> ''serve-binding'')"

definition ATTESTATION_KINDS :: "attest_kind list" where
  "ATTESTATION_KINDS = [AkHttp, AkDom, AkCdp, AkWindow, AkBundle, AkFile, AkServe]"

datatype behavior_result = BrPass | BrFail | BrNotTestable

definition result_name :: "behavior_result \<Rightarrow> string" where
  "result_name br = (case br of BrPass \<Rightarrow> ''pass'' | BrFail \<Rightarrow> ''fail'' | BrNotTestable \<Rightarrow> ''not_testable'')"

definition behavior_results :: "behavior_result list" where
  "behavior_results = [BrPass, BrFail, BrNotTestable]"

datatype issue_severity = IsLow | IsMedium | IsHigh

definition issue_name :: "issue_severity \<Rightarrow> string" where
  "issue_name s = (case s of IsLow \<Rightarrow> ''low'' | IsMedium \<Rightarrow> ''medium'' | IsHigh \<Rightarrow> ''high'')"

definition issue_severities :: "issue_severity list" where
  "issue_severities = [IsLow, IsMedium, IsHigh]"

text \<open>The member of a closed vocabulary that a JSON value spells.\<close>

definition member_at :: "('a \<Rightarrow> string) \<Rightarrow> 'a list \<Rightarrow> string \<Rightarrow> jval \<Rightarrow> 'a option" where
  "member_at name xs k v = (case text_at k v of Some s \<Rightarrow> find (\<lambda>x. name x = s) xs | None \<Rightarrow> None)"

record behavior_report =
  bh_id :: string
  bh_result :: behavior_result
  bh_screenshots :: "string list"
  bh_notes :: string

record report_shot =
  sh_fileName :: string
  sh_caption :: string

record verdict_issue =
  is_severity :: issue_severity
  is_description :: string
  is_fileName :: "string option"

record MobileAppSpec =
  ap_bundleId :: string
  ap_scheme :: string
  ap_productGlob :: "string option"

record attest_echo =
  ae_verified :: bool
  ae_kind :: attest_kind
  ae_detail :: string

record VerificationReportV1 =
  rp_behaviors :: "behavior_report list"
  rp_screenshots :: "report_shot list"
  rp_outcome :: VerificationReportOutcome
  rp_buildLogExcerpt :: "string option"
  rp_diagnosis :: "string option"
  rp_neededModality :: "VerificationModality option"
  rp_app :: "MobileAppSpec option"
  rp_recipeJson :: "string option"
  rp_confidence :: rat
  rp_feedback :: string
  rp_issues :: "verdict_issue list"
  rp_attestation :: "attest_echo option"

section \<open>The validator\<close>

fun split_slash :: "string \<Rightarrow> string list" where
  "split_slash [] = [[]]"
| "split_slash (c # cs) =
     (if c = CHR ''/'' then [] # split_slash cs
      else (case split_slash cs of [] \<Rightarrow> [[c]] | l # ls \<Rightarrow> (c # l) # ls))"

definition isRelativeContainedPath :: "string \<Rightarrow> bool" where
  "isRelativeContainedPath s \<longleftrightarrow>
     trim s \<noteq> [] \<and> \<not> startsWith s ''/'' \<and> \<not> startsWith s ''~'' \<and> \<not> List.member (split_slash s) ''..''"

definition parseMobileAppSpec :: "jval \<Rightarrow> string \<Rightarrow> string + MobileAppSpec" where
  "parseMobileAppSpec v path =
     (if \<not> isRecord v then Inl (path @ '': expected an object'')
      else if text_at ''platform'' v \<noteq> Some ''ios-simulator'' then
        Inl (path @ ''.platform: expected the string '' @ sq ''ios-simulator'')
      else need (nonempty_at ''bundleId'' v) (path @ ''.bundleId: expected non-empty string'') (\<lambda>bundleId.
        need (nonempty_at ''scheme'' v) (path @ ''.scheme: expected non-empty string'') (\<lambda>scheme.
          case fld ''productGlob'' v of
            None \<Rightarrow> Inr \<lparr>ap_bundleId = bundleId, ap_scheme = scheme, ap_productGlob = None\<rparr>
          | Some g \<Rightarrow>
              (case g of
                 JText s \<Rightarrow>
                   if isRelativeContainedPath s
                   then Inr \<lparr>ap_bundleId = bundleId, ap_scheme = scheme, ap_productGlob = Some s\<rparr>
                   else Inl (path @ ''.productGlob: expected a non-empty relative path (no leading '' @ sq ''/'' @
                     '', no '' @ sq ''~'' @ '', no '' @ sq ''..'' @ '' segment)'')
               | _ \<Rightarrow> Inl (path @ ''.productGlob: expected a non-empty relative path (no leading '' @ sq ''/'' @
                     '', no '' @ sq ''~'' @ '', no '' @ sq ''..'' @ '' segment)'')))))"

definition parse_behavior :: "string list \<Rightarrow> nat \<Rightarrow> jval \<Rightarrow> string + behavior_report" where
  "parse_behavior expectedIds i v =
     (let path = at_index ''behaviors'' i in
      if \<not> isRecord v then Inl (path @ '': expected an object'')
      else need (nonempty_at ''id'' v) (path @ ''.id: expected non-empty string'') (\<lambda>id.
        if \<not> List.member expectedIds id then Inl (path @ ''.id: unknown behavior id '' @ dq id)
        else need (member_at result_name behavior_results ''result'' v)
               (path @ ''.result: expected '' @ join_with '' | '' (map (sq \<circ> result_name) behavior_results)) (\<lambda>res.
          need (case fld ''evidence'' v of Some ev \<Rightarrow> if isRecord ev then Some ev else None | None \<Rightarrow> None)
            (path @ ''.evidence: expected an object'') (\<lambda>ev.
            need (texts_at ''screenshots'' ev) (path @ ''.evidence.screenshots: expected an array of strings'') (\<lambda>shots.
              need (text_at ''notes'' ev) (path @ ''.evidence.notes: expected string'') (\<lambda>notes.
                Inr \<lparr>bh_id = id, bh_result = res, bh_screenshots = shots, bh_notes = notes\<rparr>))))))"

definition parse_shot :: "nat \<Rightarrow> jval \<Rightarrow> string + report_shot" where
  "parse_shot i v =
     (let path = at_index ''screenshots'' i in
      if \<not> isRecord v then Inl (path @ '': expected an object'')
      else need (nonempty_at ''fileName'' v) (path @ ''.fileName: expected non-empty string'') (\<lambda>file.
        need (text_at ''caption'' v) (path @ ''.caption: expected string'') (\<lambda>caption.
          Inr \<lparr>sh_fileName = file, sh_caption = caption\<rparr>)))"

definition parse_issue :: "nat \<Rightarrow> jval \<Rightarrow> string + verdict_issue" where
  "parse_issue i v =
     (let path = at_index ''issues'' i in
      if \<not> isRecord v then Inl (path @ '': expected an object'')
      else need (member_at issue_name issue_severities ''severity'' v)
             (path @ ''.severity: expected '' @ join_with '' | '' (map (sq \<circ> issue_name) issue_severities)) (\<lambda>sev.
        need (text_at ''description'' v) (path @ ''.description: expected string'') (\<lambda>descr.
          case fld ''fileName'' v of
            None \<Rightarrow> Inr \<lparr>is_severity = sev, is_description = descr, is_fileName = None\<rparr>
          | Some (JText f) \<Rightarrow> Inr \<lparr>is_severity = sev, is_description = descr, is_fileName = Some f\<rparr>
          | Some _ \<Rightarrow> Inl (path @ ''.fileName: expected string''))))"

text \<open>An optional string member; \<open>buildLogExcerpt\<close> and \<open>diagnosis\<close> are required and not blank for some
  outcomes.\<close>

definition optional_text :: "string \<Rightarrow> jval \<Rightarrow> string + string option" where
  "optional_text k v =
     (case fld k v of
        None \<Rightarrow> Inr None
      | Some (JText s) \<Rightarrow> Inr (Some s)
      | Some _ \<Rightarrow> Inl (k @ '': expected string''))"

definition parse_buildLogExcerpt :: "VerificationReportOutcome \<Rightarrow> jval \<Rightarrow> string + string option" where
  "parse_buildLogExcerpt ro v =
     (if ro = RoBuildFailed \<or> ro = RoLaunchFailed then
        need (nonempty_at ''buildLogExcerpt'' v)
          ''buildLogExcerpt: required non-empty string when outcome is build_failed/launch_failed'' (\<lambda>s. Inr (Some s))
      else optional_text ''buildLogExcerpt'' v)"

definition parse_diagnosis :: "VerificationReportOutcome \<Rightarrow> jval \<Rightarrow> string + string option" where
  "parse_diagnosis ro v =
     (if ro = RoUnverifiable \<or> ro = RoWrongEnvironment then
        need (nonempty_at ''diagnosis'' v)
          ''diagnosis: required non-empty string when outcome is unverifiable/wrong_environment'' (\<lambda>s. Inr (Some s))
      else optional_text ''diagnosis'' v)"

definition parse_mismatch ::
  "VerificationReportOutcome \<Rightarrow> jval \<Rightarrow> string + (VerificationModality option \<times> MobileAppSpec option)" where
  "parse_mismatch ro v =
     (if ro = RoWrongEnvironment then
        need (member_at modality_name VERIFICATION_MODALITIES ''neededModality'' v)
          (''neededModality: expected one of '' @ join_with ''|'' (map modality_name VERIFICATION_MODALITIES) @
           '' when outcome is wrong_environment'') (\<lambda>needed.
          case fld ''app'' v of
            None \<Rightarrow> Inr (Some needed, None)
          | Some a \<Rightarrow> sbind (parseMobileAppSpec a ''app'') (\<lambda>app. Inr (Some needed, Some app)))
      else Inr (None, None))"

definition parse_confidence :: "jval \<Rightarrow> string + rat" where
  "parse_confidence v =
     (case fld ''confidence'' v of
        Some (JNum n) \<Rightarrow> Inr (min 1 (max 0 n))
      | _ \<Rightarrow> Inl ''confidence: expected finite number'')"

definition parse_attestation :: "jval \<Rightarrow> string + attest_echo option" where
  "parse_attestation v =
     (case fld ''attestation'' v of
        None \<Rightarrow> Inr None
      | Some att \<Rightarrow>
          if \<not> isRecord att then Inl ''attestation: expected an object''
          else need (case fld ''verified'' att of Some (JBool b) \<Rightarrow> Some b | _ \<Rightarrow> None)
                 ''attestation.verified: expected boolean'' (\<lambda>b.
            need (member_at attest_name ATTESTATION_KINDS ''kind'' att)
              (''attestation.kind: expected one of '' @ join_with ''|'' (map attest_name ATTESTATION_KINDS)) (\<lambda>kind.
              need (text_at ''detail'' att) ''attestation.detail: expected string'' (\<lambda>detail.
                Inr (Some \<lparr>ae_verified = b, ae_kind = kind, ae_detail = detail\<rparr>)))))"

definition UNVERIFIABLE_COERCION_NOTE :: string where
  "UNVERIFIABLE_COERCION_NOTE =
     ''coerced from '' @ sq ''fail'' @ '': no behavior failed and every expected behavior was not_testable, so nothing observed a defect''"

definition agent_words :: "string \<Rightarrow> string option \<Rightarrow> string \<Rightarrow> string" where
  "agent_words head diagnosis fallback =
     (let ownDiagnosis = (case diagnosis of None \<Rightarrow> [] | Some d \<Rightarrow> trim d);
          own = (if ownDiagnosis \<noteq> [] then ownDiagnosis else trim fallback)
      in if own \<noteq> [] then head @ ''. Agent: '' @ own else head)"

definition synthesizeCoercedUnverifiableDiagnosis :: "string option \<Rightarrow> string \<Rightarrow> string" where
  "synthesizeCoercedUnverifiableDiagnosis diagnosis feedback = agent_words UNVERIFIABLE_COERCION_NOTE diagnosis feedback"

text \<open>The two coercion rules, on the outcome and diagnosis the report carries.\<close>

definition coerce_outcome ::
  "string list \<Rightarrow> behavior_report list \<Rightarrow> VerificationReportOutcome \<Rightarrow> string option \<Rightarrow> string \<Rightarrow>
   VerificationReportOutcome \<times> string option \<times> bool" where
  "coerce_outcome expectedIds behaviors ro diagnosis feedback =
     (let anyBehaviorFailed = list_ex (\<lambda>b. bh_result b = BrFail) behaviors;
          anyBehaviorExercised = list_ex (\<lambda>b. bh_result b \<noteq> BrNotTestable) behaviors
      in if (ro = RoPass \<or> ro = RoUnverifiable) \<and> anyBehaviorFailed then (RoFail, diagnosis, True)
         else if ro = RoFail \<and> expectedIds \<noteq> [] \<and> \<not> anyBehaviorFailed \<and> \<not> anyBehaviorExercised then
           (RoUnverifiable, Some (synthesizeCoercedUnverifiableDiagnosis diagnosis feedback), True)
         else (ro, diagnosis, False))"

definition normalizeVerificationReportV1 ::
  "jval \<Rightarrow> string list \<Rightarrow> string + (VerificationReportV1 \<times> bool)" where
  "normalizeVerificationReportV1 v expectedBehaviorIds =
     (if \<not> isRecord v then Inl ''root: expected an object''
      else if fld ''version'' v \<noteq> Some (JNum 1) then Inl ''version: expected literal 1''
      else need (array_at ''behaviors'' v) ''behaviors: expected an array'' (\<lambda>bs.
        sbind (each (parse_behavior expectedBehaviorIds) 0 bs) (\<lambda>behaviors.
        need (array_at ''screenshots'' v) ''screenshots: expected an array'' (\<lambda>ss.
        sbind (each parse_shot 0 ss) (\<lambda>screenshots.
        need (member_at outcome_name VERIFICATION_REPORT_OUTCOMES ''outcome'' v)
          (''outcome: expected '' @ join_with '' | '' (map (sq \<circ> outcome_name) VERIFICATION_REPORT_OUTCOMES)) (\<lambda>ro.
        sbind (parse_buildLogExcerpt ro v) (\<lambda>buildLogExcerpt.
        sbind (parse_diagnosis ro v) (\<lambda>diagnosis.
        sbind (parse_mismatch ro v) (\<lambda>(neededModality, app).
        sbind (optional_text ''recipeJson'' v) (\<lambda>recipeJson.
        sbind (parse_confidence v) (\<lambda>confidence.
        need (text_at ''feedback'' v) ''feedback: expected string'' (\<lambda>feedback.
        need (array_at ''issues'' v) ''issues: expected an array'' (\<lambda>is.
        sbind (each parse_issue 0 is) (\<lambda>issues.
        sbind (parse_attestation v) (\<lambda>attestation.
          case coerce_outcome expectedBehaviorIds behaviors ro diagnosis feedback of
            (ro', diagnosis', coerced) \<Rightarrow>
              Inr (\<lparr>rp_behaviors = behaviors, rp_screenshots = screenshots, rp_outcome = ro',
                     rp_buildLogExcerpt = buildLogExcerpt, rp_diagnosis = diagnosis',
                     rp_neededModality = neededModality, rp_app = app, rp_recipeJson = recipeJson,
                     rp_confidence = confidence, rp_feedback = feedback, rp_issues = issues,
                     rp_attestation = attestation\<rparr>, coerced))))))))))))))))"

end
