(* ===== verification/VerifyVerdict.thy ===== *)
theory VerifyVerdict
  imports VerifyReport
begin

text \<open>
  From a validated report to a terminal verdict: the attestation floor, the drive coercion, the corroboration of
  an unverifiable report and the mapping of main/src/orchestrator/verify/verificationAgentRunner.ts, the failure
  classifier of failureClassifier.ts and the conversions of \<open>settleAgentTerminal\<close> (agentEngine.ts). What the
  harness observes (identity probe, binding, preflight, files on disk) is input. Logging is left out.
\<close>

section \<open>Vocabulary\<close>

datatype RequestStatus =
  RqQueued | RqLeased | RqRunning | RqPassed | RqFailed | RqLowConfidence | RqSkipped | RqTimeout

datatype VerificationType = VtStatic | VtInteractive | VtResponsive | VtNativeDesktop | VtMobileFlow

datatype VerificationExecutionMode = XmPinned | XmExplore | XmLegacy

datatype provision = PvSnapshot | PvFallback

datatype AttestationSpec =
    HttpEndpoint string
  | DomMarker string
  | CdpToken string string
  | WindowIdentity string string
  | BundleIdentity string
  | FileIdentity
  | ServeBinding

fun spec_kind :: "AttestationSpec \<Rightarrow> attest_kind" where
  "spec_kind (HttpEndpoint urlPath) = AkHttp"
| "spec_kind (DomMarker selector) = AkDom"
| "spec_kind (CdpToken expression expected) = AkCdp"
| "spec_kind (WindowIdentity titlePattern app) = AkWindow"
| "spec_kind (BundleIdentity bundleId) = AkBundle"
| "spec_kind FileIdentity = AkFile"
| "spec_kind ServeBinding = AkServe"

record task_behavior =
  tb_id :: string
  tb_description :: string
  tb_expected :: string
  tb_steps :: "string list option"
  tb_requiresDrive :: "bool option"

record ready_when =
  rw_urlPath :: "string option"
  rw_timeoutMs :: "rat option"

record serve_step =
  sv_cmd :: string
  sv_readyWhen :: "ready_when option"
  sv_attach_cdp :: bool

record verify_target =
  tg_url :: "string option"
  tg_htmlPath :: "string option"

record ViewportSpec =
  vp_width :: rat
  vp_height :: rat
  vp_label :: "string option"

record VerificationTaskV1 =
  tk_taskRef :: "string option"
  tk_summary :: string
  tk_build :: "string list option"
  tk_serve :: "serve_step option"
  tk_app :: "MobileAppSpec option"
  tk_target :: "verify_target option"
  tk_modality :: "VerificationModality option"
  tk_attestation :: "AttestationSpec option"
  tk_behaviors :: "task_behavior list"
  tk_viewports :: "ViewportSpec list option"
  tk_timeoutMs :: "rat option"

definition resolveTaskModality :: "VerificationType \<Rightarrow> VerificationTaskV1 option \<Rightarrow> VerificationModality" where
  "resolveTaskModality vt task =
     (if vt = VtNativeDesktop then MoNativeScreen
      else if vt = VtMobileFlow then MoMobile
      else case task of
        None \<Rightarrow> MoWeb
      | Some t \<Rightarrow>
          if tk_app t \<noteq> None then MoMobile
          else (case tk_serve t of Some s \<Rightarrow> (if sv_attach_cdp s then MoCdpApp else MoWeb) | None \<Rightarrow> MoWeb))"

datatype verdict_status = VdPass | VdFail | VdLowConfidence

record VerdictV1 =
  vd_status :: verdict_status
  vd_confidence :: rat
  vd_issues :: "verdict_issue list"
  vd_feedback :: string
  vd_judgedFileNames :: "string list"
  vd_baselineUsed :: bool
  vd_model :: string

section \<open>Preflight and the result of a run\<close>

datatype check_id = CiNode | CiChromium | CiDriverCli | CiPortFree | CiDriverPortFree | CiOther string

record PreflightCheckResult =
  pc_id :: check_id
  pc_ok :: bool
  pc_detail :: string

record redispatch =
  rd_modality :: VerificationModality
  rd_app :: "MobileAppSpec option"
  rd_diagnosis :: string

record VerificationAgentRunResult =
  rr_status :: RequestStatus
  rr_verdict :: "VerdictV1 option"
  rr_report :: "VerificationReportV1 option"
  rr_errorMessage :: "string option"
  rr_fileNames :: "string list"
  rr_deployed :: bool
  rr_preflight :: "PreflightCheckResult list option"
  rr_provisionMode :: "provision option"
  rr_runbookMismatch :: bool
  rr_transportFailure :: bool
  rr_redispatch :: "redispatch option"
  rr_foreignSurface :: bool
  rr_surfaceVerified :: "bool option"

text \<open>A result object with every optional member absent.\<close>

definition plain_result :: "RequestStatus \<Rightarrow> VerificationAgentRunResult" where
  "plain_result st =
     \<lparr>rr_status = st, rr_verdict = None, rr_report = None, rr_errorMessage = None, rr_fileNames = [],
      rr_deployed = False, rr_preflight = None, rr_provisionMode = None, rr_runbookMismatch = False,
      rr_transportFailure = False, rr_redispatch = None, rr_foreignSurface = False, rr_surfaceVerified = None\<rparr>"

section \<open>The attestation floor\<close>

record HarnessAttestationResult =
  ha_verified :: bool
  ha_kind :: attest_kind
  ha_detail :: string

datatype ServeBindingFailure = SbServePid | SbPortOwner | SbCommand

definition failure_name :: "ServeBindingFailure \<Rightarrow> string" where
  "failure_name f = (case f of SbServePid \<Rightarrow> ''serve-pid'' | SbPortOwner \<Rightarrow> ''port-owner'' | SbCommand \<Rightarrow> ''command'')"

text \<open>\<open>NotBound f d foreign\<close>: the flag is the presence of a \<open>foreignListener\<close>.\<close>

datatype ServeBindingResult = Bound string | NotBound ServeBindingFailure string bool

datatype AttestationFloorOutcome =
    FloorVerified attest_kind string
  | FloorMissing string
  | FloorUncapped string
  | FloorCapped attest_kind string
  | FloorForeign string

definition hasComposedServeCmd :: "VerificationTaskV1 \<Rightarrow> bool" where
  "hasComposedServeCmd t \<longleftrightarrow> (case tk_serve t of Some s \<Rightarrow> trim (sv_cmd s) \<noteq> [] | None \<Rightarrow> False)"

definition isDegenerateFileTarget :: "VerificationTaskV1 \<Rightarrow> bool" where
  "isDegenerateFileTarget t \<longleftrightarrow>
     (case tk_target t of
        Some g \<Rightarrow> (case tg_htmlPath g of Some p \<Rightarrow> trim p \<noteq> [] | None \<Rightarrow> False)
      | None \<Rightarrow> False) \<and>
     (tk_build t = None \<or> tk_build t = Some []) \<and> tk_serve t = None"

definition HARNESS_NONCE_MARKER_SELECTOR :: string where
  "HARNESS_NONCE_MARKER_SELECTOR = ''meta[name='' @ dq ''cyboflow-verify-nonce'' @ '']''"

definition HARNESS_NONCE_MARKER_SPEC :: AttestationSpec where
  "HARNESS_NONCE_MARKER_SPEC = DomMarker HARNESS_NONCE_MARKER_SELECTOR"

definition markerUpgradesDeclaration :: "AttestationSpec option \<Rightarrow> bool" where
  "markerUpgradesDeclaration a \<longleftrightarrow> a = None \<or> a = Some ServeBinding"

definition effectiveAttestationSpec ::
  "VerificationTaskV1 \<Rightarrow> VerificationExecutionMode \<Rightarrow> bool \<Rightarrow> bool \<Rightarrow> AttestationSpec option" where
  "effectiveAttestationSpec t mode mobileLeased harnessMarker =
     (if harnessMarker then Some HARNESS_NONCE_MARKER_SPEC
      else if tk_attestation t \<noteq> None then tk_attestation t
      else if isDegenerateFileTarget t then Some FileIdentity
      else case tk_app t of
        Some a \<Rightarrow> if mode = XmExplore \<and> mobileLeased then Some (BundleIdentity (ap_bundleId a)) else None
      | None \<Rightarrow> None)"

definition SERVE_BINDING_FAILED_PREFIX :: string where
  "SERVE_BINDING_FAILED_PREFIX = ''serve-identity binding failed''"

definition serveBindingVerifiedDetail :: "string \<Rightarrow> string" where
  "serveBindingVerifiedDetail detail = ''serve-binding: '' @ detail"

definition evaluateAttestationFloor ::
  "AttestationSpec option \<Rightarrow> HarnessAttestationResult option \<Rightarrow> AttestationFloorOutcome" where
  "evaluateAttestationFloor spec probe =
     (case spec of
        None \<Rightarrow> FloorUncapped ''the composed task declared no attestation channel and is not a degenerate file target''
      | Some s \<Rightarrow>
          if s = FileIdentity then
            FloorVerified AkFile ''file-identity: the runner owns the opened path, so identity holds by construction''
          else case probe of
            None \<Rightarrow> FloorMissing (''declared channel '' @ dq (attest_name (spec_kind s)) @
                      '' but the harness performed no identity probe'')
          | Some p \<Rightarrow>
              if \<not> ha_verified p then
                FloorMissing (''the harness probed '' @ dq (attest_name (spec_kind s)) @ '' and it did NOT verify: '' @ ha_detail p)
              else FloorVerified (spec_kind s) (ha_detail p))"

text \<open>The floor by mode, without the harness's own marker: the last argument list of
  \<open>evaluateAttestationFloorForMode\<close> when \<open>harnessSuppliedMarker\<close> is absent.\<close>

definition floor_for_mode ::
  "VerificationExecutionMode \<Rightarrow> VerificationTaskV1 \<Rightarrow> AttestationSpec option \<Rightarrow> HarnessAttestationResult option \<Rightarrow>
   ServeBindingResult option \<Rightarrow> AttestationFloorOutcome" where
  "floor_for_mode mode task spec probe binding =
     (let composedServe = hasComposedServeCmd task;
          bound = (case binding of Some (Bound d) \<Rightarrow> True | _ \<Rightarrow> False);
          base = evaluateAttestationFloor spec probe
      in if spec = Some ServeBinding \<and> \<not> composedServe then
           FloorUncapped (''the task declared '' @ dq ''serve-binding'' @ '' but composed no serve.cmd, so there is no serve for the harness to bind '' @
             em_dash @ '' this channel can never verify without one'')
         else if mode \<noteq> XmExplore then base
         else case binding of
           Some (NotBound f d True) \<Rightarrow>
             FloorForeign (SERVE_BINDING_FAILED_PREFIX @ '' ['' @ failure_name f @ '']: '' @ d)
         | _ \<Rightarrow>
           (case spec of
              None \<Rightarrow>
                (case binding of
                   Some (Bound d) \<Rightarrow>
                     if composedServe then FloorVerified AkServe (serveBindingVerifiedDetail d) else base
                 | _ \<Rightarrow> base)
            | Some s \<Rightarrow>
                (case base of
                   FloorVerified channel detail \<Rightarrow>
                     (case channel of
                        AkBundle \<Rightarrow> base
                      | AkServe \<Rightarrow> base
                      | AkFile \<Rightarrow>
                          if isDegenerateFileTarget task then base
                          else FloorMissing (''declared '' @ dq ''file-identity'' @ '', which holds by construction only for a bare target.htmlPath with nothing to build or serve; this task builds or serves, so nothing the harness observed ties the surface to this deliverable'')
                      | AkWindow \<Rightarrow>
                          FloorCapped AkWindow (''the window matched ('' @ detail @ '') but window-identity binds by app name and title, which the developer'' @
                            [CHR 0x27] @ ''s own running instance satisfies too'')
                      | _ \<Rightarrow>
                          if composedServe \<and> bound then base
                          else FloorCapped channel
                            (if composedServe then ''the surface verified ('' @ detail @ '') but was not bound to the composed serve command, so this stand-up cannot vouch for itself''
                             else ''the surface verified ('' @ detail @ '') but the task composed no serve.cmd, so nothing ties the port to this deliverable'' @
                               [CHR 0x27] @ ''s own stand-up''))
                 | _ \<Rightarrow> base)))"

definition evaluateAttestationFloorForMode ::
  "VerificationExecutionMode \<Rightarrow> VerificationTaskV1 \<Rightarrow> AttestationSpec option \<Rightarrow> HarnessAttestationResult option \<Rightarrow>
   ServeBindingResult option \<Rightarrow> bool \<Rightarrow> AttestationFloorOutcome" where
  "evaluateAttestationFloorForMode mode task spec probe binding harnessSuppliedMarker =
     (if harnessSuppliedMarker \<and> markerUpgradesDeclaration (tk_attestation task) then
        let undeclared = task\<lparr>tk_attestation := None\<rparr>;
            marker = floor_for_mode mode undeclared spec probe binding
        in (case marker of
              FloorVerified _ _ \<Rightarrow> marker
            | FloorForeign _ \<Rightarrow> marker
            | _ \<Rightarrow> floor_for_mode mode undeclared None None binding)
      else floor_for_mode mode task spec probe binding)"

end
