(* ===== verification/VerifyBinding.thy ===== *)
theory VerifyBinding
  imports VerifyVerdict
begin

text \<open>
  Which process owns the surface a verification looked at: \<open>serveBindingTarget\<close>, \<open>checkServeIdentityBinding\<close>,
  \<open>bindServeIdentity\<close> and \<open>probeSurfaceIdentity\<close> of verificationAgentRunner.ts. The operating system's answers
  (the recorded serve pid, the listener of a port, the group and command line of a process) and the channel's own
  probe are functions of the request; a probe that throws answers \<open>None\<close>, as in \<open>safeProbe\<close>.
\<close>

record binding_probes =
  bp_servePid :: "int option"
  bp_listener :: "nat \<Rightarrow> int option"
  bp_process :: "int \<Rightarrow> (int \<times> string) option"

record binding_target =
  bt_serveCmd :: "string option"
  bt_probedPort :: "nat option"
  bt_portLever :: "nat option"

record request_ports =
  pt_verify :: "nat option"
  pt_driver :: "nat option"

definition composed_cmd :: "VerificationTaskV1 \<Rightarrow> string option" where
  "composed_cmd t =
     (case tk_serve t of
        Some s \<Rightarrow> (if trim (sv_cmd s) \<noteq> [] then Some (trim (sv_cmd s)) else None)
      | None \<Rightarrow> None)"

definition attach_cdp :: "VerificationTaskV1 \<Rightarrow> bool" where
  "attach_cdp t \<longleftrightarrow> (case tk_serve t of Some s \<Rightarrow> sv_attach_cdp s | None \<Rightarrow> False)"

definition PORT_MEDIATED_CHANNELS :: "attest_kind list" where
  "PORT_MEDIATED_CHANNELS = [AkHttp, AkDom, AkCdp]"

definition serveBindingTarget ::
  "VerificationTaskV1 \<Rightarrow> AttestationSpec \<Rightarrow> request_ports \<Rightarrow> bool \<Rightarrow> binding_target option" where
  "serveBindingTarget t spec ports explore =
     (if composed_cmd t = None \<and> \<not> explore then None
      else if \<not> List.member PORT_MEDIATED_CHANNELS (spec_kind spec) then None
      else if attach_cdp t \<and> pt_driver ports = None then None
      else Some \<lparr>bt_serveCmd = composed_cmd t,
                 bt_probedPort = (if attach_cdp t then pt_driver ports else pt_verify ports),
                 bt_portLever = pt_verify ports\<rparr>)"

definition serveBindingOnlyTarget :: "VerificationTaskV1 \<Rightarrow> request_ports \<Rightarrow> binding_target option" where
  "serveBindingOnlyTarget t ports =
     (let probedPort = (if attach_cdp t then pt_driver ports else pt_verify ports)
      in if composed_cmd t = None then None
         else if probedPort = None then None
         else Some \<lparr>bt_serveCmd = composed_cmd t, bt_probedPort = probedPort, bt_portLever = pt_verify ports\<rparr>)"

text \<open>\<open>serveCmd.replace(/\$\{PORT\}|\$PORT\b/g, port)\<close>.\<close>

definition word_char :: "char \<Rightarrow> bool" where
  "word_char c \<longleftrightarrow>
     (let n = code c in (48 \<le> n \<and> n \<le> 57) \<or> (65 \<le> n \<and> n \<le> 90) \<or> (97 \<le> n \<and> n \<le> 122) \<or> n = 95)"

function subst_port :: "string \<Rightarrow> string \<Rightarrow> string" where
  "subst_port p [] = []"
| "subst_port p (c # cs) =
     (if startsWith (c # cs) ''${PORT}'' then p @ subst_port p (drop 6 cs)
      else if startsWith (c # cs) ''$PORT'' \<and> (case drop 4 cs of [] \<Rightarrow> True | d # ds \<Rightarrow> \<not> word_char d)
      then p @ subst_port p (drop 4 cs)
      else c # subst_port p cs)"
  by pat_completeness auto
termination by (relation "measure (length \<circ> snd)") auto

definition serveCommandMatches :: "string \<Rightarrow> string \<Rightarrow> nat option \<Rightarrow> bool" where
  "serveCommandMatches leaderCommand serveCmd portLever \<longleftrightarrow>
     contains serveCmd leaderCommand \<or>
     (case portLever of
        None \<Rightarrow> False
      | Some p \<Rightarrow> subst_port (nat_text p) serveCmd \<noteq> serveCmd \<and>
                  contains (subst_port (nat_text p) serveCmd) leaderCommand)"

definition truncateDetail :: "string \<Rightarrow> string" where
  "truncateDetail s = (if length s \<le> 200 then s else take 200 s @ [CHR 0xE2, CHR 0x80, CHR 0xA6])"

definition pid_text :: "int \<Rightarrow> string" where
  "pid_text n = nat_text (nat n)"

definition NO_SERVE_PROCESS :: string where
  "NO_SERVE_PROCESS =
     ''the driver recorded no serve process (.driver/serve.pid is absent or unusable) '' @ em_dash @
     '' the deliverable was not started through `'' @ dq ''$VERIFY_DRIVER'' @
     '' serve`, so there is no process group the probed surface can be bound to''"

definition checkServeIdentityBinding :: "binding_target \<Rightarrow> binding_probes \<Rightarrow> ServeBindingResult" where
  "checkServeIdentityBinding bt probes =
     (case bp_servePid probes of
        None \<Rightarrow> NotBound SbServePid NO_SERVE_PROCESS False
      | Some recorded \<Rightarrow>
          if recorded \<le> 1 then NotBound SbServePid NO_SERVE_PROCESS False
          else case bt_probedPort bt of
            None \<Rightarrow> NotBound SbPortOwner
              (''no server port was leased for this request, so the surface the attestation probed cannot be tied to an owner '' @
               em_dash @ '' the task declared a port-mediated channel its own shape cannot support'') False
          | Some port \<Rightarrow>
              (case bp_listener probes port of
                 None \<Rightarrow> NotBound SbPortOwner
                   (''nothing could be resolved as the listener on port '' @ nat_text port @ '' '' @ em_dash @
                    '' the surface that answered the attestation has no owner this harness can verify'') False
               | Some listener \<Rightarrow>
                   (case bp_process probes listener of
                      None \<Rightarrow> NotBound SbPortOwner
                        (''pid '' @ pid_text listener @ '' holds port '' @ nat_text port @
                         '' but the OS reported nothing about it (already exited?), so it cannot be tied to the recorded serve group '' @
                         pid_text recorded) False
                    | Some (pgid, command) \<Rightarrow>
                        if pgid \<noteq> recorded then
                          NotBound SbPortOwner
                            (''port '' @ nat_text port @ '' is held by pid '' @ pid_text listener @ '' in process group '' @
                             pid_text pgid @ '', but the driver started this task'' @ [CHR 0x27] @ ''s serve as group '' @
                             pid_text recorded @ '' '' @ em_dash @
                             '' the surface that answered the attestation is NOT the process this task'' @ [CHR 0x27] @
                             ''s serve command started'') True
                        else case bt_serveCmd bt of
                          None \<Rightarrow> Bound (''port '' @ nat_text port @ '' is held by pid '' @ pid_text listener @
                            '', inside the serve group '' @ pid_text recorded @ '' the driver recorded; no serve.cmd was composed, so the command binding was not checked'')
                        | Some serveCmd \<Rightarrow>
                            (case bp_process probes recorded of
                               None \<Rightarrow> NotBound SbCommand
                                 (''the recorded serve leader (pid '' @ pid_text recorded @ '') is gone, so the command it was started with cannot be read back'') False
                             | Some (leaderGroup, leaderCommand) \<Rightarrow>
                                 if \<not> serveCommandMatches leaderCommand serveCmd (bt_portLever bt) then
                                   NotBound SbCommand
                                     (''the serve group'' @ [CHR 0x27] @ ''s leader (pid '' @ pid_text recorded @ '') is running '' @
                                      dq (truncateDetail leaderCommand) @ '', which does not carry this task'' @ [CHR 0x27] @
                                      ''s pinned serve command '' @ dq (truncateDetail serveCmd) @ '' '' @ em_dash @
                                      '' a substitute or a wrapper was started instead of the deliverable'') False
                                 else Bound (''port '' @ nat_text port @ '' is held by process group '' @ pid_text recorded @
                                   '', whose leader runs this task'' @ [CHR 0x27] @ ''s pinned serve command'')))))"

text \<open>The result and whether a command was composed; \<open>None\<close> when the binding does not apply.\<close>

definition bindServeIdentity ::
  "VerificationTaskV1 \<Rightarrow> request_ports \<Rightarrow> binding_probes \<Rightarrow> AttestationSpec option \<Rightarrow> VerificationExecutionMode \<Rightarrow>
   (ServeBindingResult \<times> bool) option" where
  "bindServeIdentity t ports probes spec mode =
     (let bt = (case spec of
          None \<Rightarrow> serveBindingOnlyTarget t ports
        | Some ServeBinding \<Rightarrow> serveBindingOnlyTarget t ports
        | Some s \<Rightarrow> serveBindingTarget t s ports (mode = XmExplore))
      in map_option (\<lambda>g. (checkServeIdentityBinding g probes, bt_serveCmd g \<noteq> None)) bt)"

definition binding_probe :: "attest_kind \<Rightarrow> ServeBindingResult \<Rightarrow> HarnessAttestationResult" where
  "binding_probe kind b =
     (case b of
        Bound d \<Rightarrow> \<lparr>ha_verified = True, ha_kind = kind, ha_detail = serveBindingVerifiedDetail d\<rparr>
      | NotBound f d foreign \<Rightarrow>
          \<lparr>ha_verified = False, ha_kind = kind,
           ha_detail = SERVE_BINDING_FAILED_PREFIX @ '' ['' @ failure_name f @ '']: '' @ d\<rparr>)"

text \<open>\<open>attest\<close> is the channel's own probe: its result, or the message of the error it threw.\<close>

definition probeSurfaceIdentity ::
  "VerificationTaskV1 \<Rightarrow> request_ports \<Rightarrow> binding_probes \<Rightarrow> (AttestationSpec \<Rightarrow> string + HarnessAttestationResult) \<Rightarrow>
   AttestationSpec option \<Rightarrow> VerificationExecutionMode \<Rightarrow> HarnessAttestationResult option \<times> ServeBindingResult option" where
  "probeSurfaceIdentity t ports probes attest spec mode =
     (case spec of
        None \<Rightarrow>
          if mode \<noteq> XmExplore then (None, None)
          else (None, map_option fst (bindServeIdentity t ports probes None mode))
      | Some FileIdentity \<Rightarrow> (None, None)
      | Some ServeBinding \<Rightarrow>
          (case bindServeIdentity t ports probes spec mode of
             None \<Rightarrow>
               (Some \<lparr>ha_verified = False, ha_kind = AkServe,
                  ha_detail = ''serve-binding: the task composed no serve.cmd or holds no leased port, so there is no serve to bind''\<rparr>,
                None)
           | Some (b, composed) \<Rightarrow> (Some (binding_probe AkServe b), Some b))
      | Some s \<Rightarrow>
          (let bound = bindServeIdentity t ports probes spec mode;
               shortCircuits = (case bound of
                 Some (NotBound f d foreign, composed) \<Rightarrow> composed \<or> foreign
               | _ \<Rightarrow> False)
           in if shortCircuits then (map_option (\<lambda>(b, composed). binding_probe (spec_kind s) b) bound, map_option fst bound)
              else case attest s of
                Inr probe \<Rightarrow> (Some probe, map_option fst bound)
              | Inl e \<Rightarrow>
                  (Some \<lparr>ha_verified = False, ha_kind = spec_kind s,
                         ha_detail = ''the harness attestation probe threw: '' @ e\<rparr>,
                   map_option fst bound)))"

end
