(* ===== verification/VerifyRun.thy ===== *)
theory VerifyRun
  imports VerifyBinding
begin

text \<open>
  The run of a verification agent after its session ended (\<open>VerificationAgentRunner.run\<close> from the query to the
  result, in main/src/orchestrator/verify/verificationAgentRunner.ts), the classifier of failureClassifier.ts and
  the classification and conversions of \<open>settleAgentTerminal\<close> in agentEngine.ts.
\<close>

section \<open>Coercion and corroboration\<close>

definition drive_ids :: "VerificationTaskV1 \<Rightarrow> string list" where
  "drive_ids t = map tb_id (filter (\<lambda>b. tb_requiresDrive b = Some True) (tk_behaviors t))"

definition strike :: "behavior_report \<Rightarrow> behavior_report" where
  "strike b =
     (let notes = trim (bh_notes b)
      in b\<lparr>bh_result := BrNotTestable,
           bh_notes := (if notes \<noteq> [] then notes @ CHR 0x0A # ''coerced: drive-unsupported''
                        else ''coerced: drive-unsupported'')\<rparr>)"

definition coerceDriveUnsupportedBehaviors ::
  "VerificationReportV1 \<Rightarrow> VerificationTaskV1 \<Rightarrow> bool \<Rightarrow> VerificationReportV1 \<times> nat" where
  "coerceDriveUnsupportedBehaviors r task driveUnsupported =
     (let hit = (\<lambda>b. List.member (drive_ids task) (bh_id b) \<and> bh_result b \<noteq> BrNotTestable);
          coerced = length (filter hit (rp_behaviors r))
      in if \<not> driveUnsupported \<or> drive_ids task = [] then (r, 0)
         else if coerced > 0 then (r\<lparr>rp_behaviors := map (\<lambda>b. if hit b then strike b else b) (rp_behaviors r)\<rparr>, coerced)
         else (r, 0))"

datatype MobileDriveRung = RungXcode | RungMaestro | RungNone

record UnverifiableCorroborationFacts =
  uf_floor :: "AttestationFloorOutcome option"
  uf_probe :: "HarnessAttestationResult option"
  uf_task :: VerificationTaskV1
  uf_modality :: VerificationModality
  uf_mobileDrive :: "MobileDriveRung option"
  uf_driveUnsupported :: bool
  uf_driveCoerced :: nat

definition PEEKABOO_AMBIGUOUS_APP_PATTERN :: "string \<Rightarrow> bool" where
  "PEEKABOO_AMBIGUOUS_APP_PATTERN s = contains ''ambiguous application identifier'' (toLower s)"

definition unverifiableCorroboration :: "UnverifiableCorroborationFacts \<Rightarrow> string list" where
  "unverifiableCorroboration f =
     (let ran = modality_name (uf_modality f);
          coercedNote = (if uf_driveCoerced f > 0
            then '' (drive coercion forced '' @ nat_text (uf_driveCoerced f) @ '' drive-required behavior(s) to not_testable)''
            else []);
          driveIds = length (drive_ids (uf_task f))
      in (case uf_floor f of
            Some (FloorVerified channel d) \<Rightarrow>
              [''the harness attested the stood-up surface ('' @ attest_name channel @ ''): only its behaviors were unexercisable'']
          | _ \<Rightarrow> []) @
         (if uf_modality f = MoMobile \<and> uf_mobileDrive f = Some RungNone then
            [''the mobile drive rung is none: nothing on the simulator could be driven'' @ coercedNote]
          else if uf_driveUnsupported f \<and> driveIds > 0 then
            [''the '' @ dq ran @ '' surface cannot be driven and the task has '' @ nat_text driveIds @
             '' drive-required behavior(s)'' @ coercedNote]
          else []) @
         (case tk_modality (uf_task f) of
            Some declared \<Rightarrow>
              if declared \<noteq> uf_modality f then
                [''the task declared modality '' @ dq (modality_name declared) @ '' but the request ran as '' @ dq ran]
              else []
          | None \<Rightarrow> []) @
         (if tk_app (uf_task f) \<noteq> None \<and> uf_modality f \<noteq> MoMobile then
            [''the task carries an iOS app block but no simulator was leased (the request ran as '' @ dq ran @ '')'']
          else []) @
         (case uf_probe f of
            Some p \<Rightarrow>
              if \<not> ha_verified p \<and> PEEKABOO_AMBIGUOUS_APP_PATTERN (ha_detail p) then
                [''peekaboo reported an ambiguous application identifier: more than one instance matches the app target'']
              else []
          | None \<Rightarrow> []))"

definition reapplyUnverifiableAfterDriveCoercion ::
  "VerificationReportV1 \<Rightarrow> nat \<Rightarrow> nat \<Rightarrow> VerificationReportV1" where
  "reapplyUnverifiableAfterDriveCoercion r expectedBehaviorCount coerced =
     (if coerced = 0 \<or> rp_outcome r \<noteq> RoFail \<or> expectedBehaviorCount = 0 then r
      else if \<not> list_all (\<lambda>b. bh_result b = BrNotTestable) (rp_behaviors r) then r
      else r\<lparr>rp_outcome := RoUnverifiable,
             rp_diagnosis := Some (agent_words
               (UNVERIFIABLE_COERCION_NOTE @ '' (after the harness coerced '' @ nat_text coerced @
                '' drive-required behavior(s) to not_testable)'') (rp_diagnosis r) (rp_feedback r))\<rparr>)"

section \<open>The mapping\<close>

definition ATTESTATION_MISSING_MESSAGE :: string where
  "ATTESTATION_MISSING_MESSAGE =
     ''attestation missing/mismatched '' @ em_dash @ '' could not prove the verified surface is this task'' @ [CHR 0x27] @ ''s deliverable''"

definition ATTESTATION_UNCAPPED_MESSAGE :: string where
  "ATTESTATION_UNCAPPED_MESSAGE = ''no attestation channel '' @ em_dash @ '' pass capped at low_confidence''"

definition ATTESTATION_EXPLORE_CAP_MESSAGE :: string where
  "ATTESTATION_EXPLORE_CAP_MESSAGE = ''explore mode '' @ em_dash @ '' capped at low_confidence''"

definition ATTESTATION_FOREIGN_MESSAGE :: string where
  "ATTESTATION_FOREIGN_MESSAGE =
     ''foreign surface '' @ em_dash @ '' the port-owner probe resolved a listener outside the process group the driver recorded for this request''"

definition UNVERIFIABLE_UNCORROBORATED_MESSAGE :: string where
  "UNVERIFIABLE_UNCORROBORATED_MESSAGE =
     ''unverifiable on a pinned (proven) runbook with no harness corroboration '' @ em_dash @
     '' a proven recipe that could not be exercised is evidence against the change''"

definition capPassedAtLowConfidence :: "VerificationAgentRunResult \<Rightarrow> string \<Rightarrow> VerificationAgentRunResult" where
  "capPassedAtLowConfidence res note =
     (if rr_status res \<noteq> RqPassed then res
      else res\<lparr>rr_status := RqLowConfidence,
               rr_verdict := map_option (\<lambda>v. v\<lparr>vd_status := VdLowConfidence,
                 vd_feedback := vd_feedback v @ [CHR 0x0A, CHR 0x0A] @ note\<rparr>) (rr_verdict res),
               rr_errorMessage := Some note\<rparr>)"

definition wrongEnvironmentReadsAsUnverifiable ::
  "VerificationReportV1 \<Rightarrow> VerificationExecutionMode \<Rightarrow> VerificationModality \<Rightarrow> bool" where
  "wrongEnvironmentReadsAsUnverifiable r mode modality \<longleftrightarrow>
     rp_outcome r = RoWrongEnvironment \<and> (mode = XmPinned \<or> rp_neededModality r = Some modality)"

record ReportMappingContext =
  mc_provisionMode :: provision
  mc_mutated :: bool
  mc_model :: string
  mc_executionMode :: VerificationExecutionMode
  mc_modality :: VerificationModality
  mc_floor :: "AttestationFloorOutcome option"
  mc_corroboration :: "string list"

definition verdict_of :: "VerificationReportV1 \<Rightarrow> string \<Rightarrow> verdict_status \<Rightarrow> VerdictV1" where
  "verdict_of r model st =
     \<lparr>vd_status = st, vd_confidence = rp_confidence r, vd_issues = rp_issues r, vd_feedback = rp_feedback r,
      vd_judgedFileNames = map sh_fileName (rp_screenshots r), vd_baselineUsed = False, vd_model = model\<rparr>"

text \<open>A mapped result: deployed, with its report, screenshots and provisioning mode.\<close>

definition mapped ::
  "VerificationReportV1 \<Rightarrow> provision \<Rightarrow> RequestStatus \<Rightarrow> VerdictV1 option \<Rightarrow> string option \<Rightarrow> VerificationAgentRunResult" where
  "mapped r prov st verdict err =
     (plain_result st)\<lparr>rr_verdict := verdict, rr_report := Some r, rr_errorMessage := err,
        rr_fileNames := map sh_fileName (rp_screenshots r), rr_deployed := True, rr_provisionMode := Some prov\<rparr>"

definition unverifiableResult :: "VerificationReportV1 \<Rightarrow> ReportMappingContext \<Rightarrow> string \<Rightarrow> VerificationAgentRunResult" where
  "unverifiableResult r ctx head =
     (let prov = mc_provisionMode ctx;
          facts = (if mc_corroboration ctx \<noteq> []
                   then '' [harness-corroborated: '' @ join_with ''; '' (mc_corroboration ctx) @ '']'' else [])
      in if mc_executionMode ctx = XmPinned \<and> mc_corroboration ctx = [] then
           if prov = PvFallback then
             mapped r prov RqSkipped None (Some (''unattributable shared-worktree '' @ head))
           else mapped r prov RqFailed None (Some (UNVERIFIABLE_UNCORROBORATED_MESSAGE @ '' '' @ em_dash @ '' '' @ head))
         else mapped r prov RqLowConfidence (Some (verdict_of r (mc_model ctx) VdLowConfidence)) (Some (head @ facts)))"

definition the_text :: "string option \<Rightarrow> string" where
  "the_text x = (case x of None \<Rightarrow> [] | Some s \<Rightarrow> s)"

definition mapReportToResult :: "VerificationReportV1 \<Rightarrow> ReportMappingContext \<Rightarrow> VerificationAgentRunResult" where
  "mapReportToResult r ctx =
     (let prov = mc_provisionMode ctx;
          explore = (mc_executionMode ctx = XmExplore);
          verdictOf = (\<lambda>st. Some (verdict_of r (mc_model ctx) st));
          foreignFailure = (\<lambda>detail.
            (mapped r prov RqFailed (if rp_outcome r = RoFail then verdictOf VdFail else None)
               (Some (ATTESTATION_FOREIGN_MESSAGE @ '' ('' @ detail @ '')'')))\<lparr>rr_foreignSurface := True\<rparr>);
          stand_up_failed =
            (let excerpt = (case rp_buildLogExcerpt r of Some s \<Rightarrow> s | None \<Rightarrow> outcome_name (rp_outcome r))
             in if prov = PvFallback then
                  mapped r prov RqSkipped None
                    (Some (''unattributable shared-worktree '' @ outcome_name (rp_outcome r) @ '': '' @ excerpt))
                else mapped r prov RqFailed None (Some excerpt))
      in case rp_outcome r of
           RoBuildFailed \<Rightarrow> stand_up_failed
         | RoLaunchFailed \<Rightarrow> stand_up_failed
         | RoWrongEnvironment \<Rightarrow>
             (let needed = (case rp_neededModality r of Some mo \<Rightarrow> modality_name mo | None \<Rightarrow> ''undefined'');
                  diagnosis = the_text (rp_diagnosis r)
              in if wrongEnvironmentReadsAsUnverifiable r (mc_executionMode ctx) (mc_modality ctx) then
                   unverifiableResult r ctx
                     (''unverifiable (wrong environment: needs '' @ needed @ ''; not re-dispatchable: '' @
                      (if mc_executionMode ctx = XmPinned then ''the request ran a pinned (proven) runbook''
                       else ''it already ran as '' @ modality_name (mc_modality ctx)) @ ''): '' @ diagnosis)
                 else
                   (mapped r prov RqLowConfidence (verdictOf VdLowConfidence)
                      (Some (''wrong environment'' @
                         (if rp_neededModality r \<noteq> None then '' (needs '' @ needed @ '')'' else []) @ '': '' @ diagnosis)))
                     \<lparr>rr_redispatch := map_option (\<lambda>mo. \<lparr>rd_modality = mo, rd_app = rp_app r, rd_diagnosis = diagnosis\<rparr>)
                        (rp_neededModality r)\<rparr>)
         | RoUnverifiable \<Rightarrow> unverifiableResult r ctx (''unverifiable: '' @ the_text (rp_diagnosis r))
         | RoFail \<Rightarrow>
             (case (if explore then mc_floor ctx else None) of
                Some (FloorForeign detail) \<Rightarrow> foreignFailure detail
              | Some (FloorMissing detail) \<Rightarrow>
                  mapped r prov RqLowConfidence (verdictOf VdLowConfidence)
                    (Some (ATTESTATION_EXPLORE_CAP_MESSAGE @
                       '': a failure observed on a surface the harness could not attest is not evidence against the change ('' @
                       detail @ '')''))
              | _ \<Rightarrow> mapped r prov RqFailed (verdictOf VdFail) None)
         | RoPass \<Rightarrow>
             (let judged =
                (if mc_mutated ctx then
                   mapped r prov RqLowConfidence (verdictOf VdLowConfidence)
                     (Some ''verifier modified tracked sources in the snapshot'')
                 else if list_ex (\<lambda>b. bh_result b = BrNotTestable) (rp_behaviors r) \<and>
                         \<not> list_ex (\<lambda>b. bh_result b = BrFail) (rp_behaviors r) then
                   mapped r prov RqLowConfidence (verdictOf VdLowConfidence) None
                 else mapped r prov RqPassed (verdictOf VdPass) None)
              in case mc_floor ctx of
                   Some (FloorForeign detail) \<Rightarrow> foreignFailure detail
                 | Some (FloorMissing detail) \<Rightarrow>
                     if \<not> explore then
                       mapped r prov RqFailed None (Some (ATTESTATION_MISSING_MESSAGE @ '' ('' @ detail @ '')''))
                     else capPassedAtLowConfidence judged (ATTESTATION_EXPLORE_CAP_MESSAGE @ '' ('' @ detail @ '')'')
                 | Some (FloorUncapped detail) \<Rightarrow>
                     capPassedAtLowConfidence judged (ATTESTATION_UNCAPPED_MESSAGE @ '' ('' @ detail @ '')'')
                 | Some (FloorCapped channel detail) \<Rightarrow>
                     capPassedAtLowConfidence judged (ATTESTATION_EXPLORE_CAP_MESSAGE @ '' ('' @ detail @ '')'')
                 | _ \<Rightarrow> judged))"

section \<open>After the session\<close>

text \<open>How the deployed session ended. The last case is an error the runner's outer \<open>catch\<close> turned into a
  result, which says it was not deployed; the second flag of \<open>SessionThrew\<close> is the query's own deadline.\<close>

datatype session =
    SessionReturned jval
  | SessionThrew "string option" bool string
  | SessionAborted
  | SessionAbortedAfter
  | RunnerThrew string
  | RunnerAborted

text \<open>What the runner knows and observes: the request, the probes, the files and the mutation check.\<close>

record run_facts =
  rf_task :: VerificationTaskV1
  rf_modality :: VerificationModality
  rf_executionMode :: VerificationExecutionMode
  rf_provisionMode :: provision
  rf_preflight :: "PreflightCheckResult list"
  rf_model :: string
  rf_mobileDrive :: "MobileDriveRung option"
  rf_mobileLeased :: bool
  rf_harnessMarker :: bool
  rf_fileExists :: "string \<Rightarrow> bool"
  rf_ports :: request_ports
  rf_probes :: binding_probes
  rf_attest :: "AttestationSpec \<Rightarrow> string + HarnessAttestationResult"
  rf_mutated :: bool
  rf_xcodeReasons :: "string list"
  rf_learnedPin :: bool

definition bare_name :: "string \<Rightarrow> bool" where
  "bare_name s \<longleftrightarrow> \<not> List.member s CHR ''/''"

definition validateReportScreenshots :: "(string \<Rightarrow> bool) \<Rightarrow> VerificationReportV1 \<Rightarrow> string option" where
  "validateReportScreenshots fileExists r =
     (let referenced = js_set (map sh_fileName (rp_screenshots r) @ concat (map bh_screenshots (rp_behaviors r)));
          notBare = filter (\<lambda>f. \<not> bare_name f) referenced;
          missing = filter (\<lambda>f. bare_name f \<and> \<not> fileExists f) referenced;
          problems = (if notBare \<noteq> [] then [''must be bare filenames: '' @ join_with '', '' (map dq notBare)] else []) @
                     (if missing \<noteq> [] then [''not found in artifacts dir: '' @ join_with '', '' (map dq missing)] else [])
      in if problems \<noteq> [] then Some (''report references screenshots that '' @ join_with ''; '' problems) else None)"

definition TRANSPORT_MID_SESSION_MESSAGE :: string where
  "TRANSPORT_MID_SESSION_MESSAGE =
     ''the deployed session failed mid-transport after it had already started working '' @ em_dash @
     '' an upstream outage and an agent-induced failure are indistinguishable here, so this blocks rather than advancing the lane''"

definition XCODE_LEDGER_CAP_MESSAGE :: string where
  "XCODE_LEDGER_CAP_MESSAGE =
     ''capped at low_confidence: a passing behavior does not cite a harness capture of the app under test (xcode capture ledger)''"

definition deployed_result :: "run_facts \<Rightarrow> RequestStatus \<Rightarrow> string \<Rightarrow> VerificationAgentRunResult" where
  "deployed_result f st err =
     (plain_result st)\<lparr>rr_errorMessage := Some err, rr_deployed := True, rr_preflight := Some (rf_preflight f),
        rr_provisionMode := Some (rf_provisionMode f)\<rparr>"

definition driveUnsupported :: "run_facts \<Rightarrow> bool" where
  "driveUnsupported f \<longleftrightarrow>
     rf_modality f = MoNativeScreen \<or> (rf_modality f = MoMobile \<and> rf_mobileDrive f = Some RungNone)"

definition declaredChannel :: "run_facts \<Rightarrow> AttestationSpec option \<Rightarrow> bool" where
  "declaredChannel f spec \<longleftrightarrow>
     tk_attestation (rf_task f) \<noteq> None \<or> (case spec of Some s \<Rightarrow> spec_kind s = AkBundle | None \<Rightarrow> False)"

definition run_spec :: "run_facts \<Rightarrow> AttestationSpec option" where
  "run_spec f = effectiveAttestationSpec (rf_task f) (rf_executionMode f) (rf_mobileLeased f) (rf_harnessMarker f)"

definition runsFloor :: "run_facts \<Rightarrow> VerificationReportV1 \<Rightarrow> bool" where
  "runsFloor f r \<longleftrightarrow>
     rp_outcome r = RoPass \<or>
     (rp_outcome r = RoFail \<and> rf_executionMode f = XmExplore \<and> declaredChannel f (run_spec f)) \<or>
     ((rp_outcome r = RoUnverifiable \<or> wrongEnvironmentReadsAsUnverifiable r (rf_executionMode f) (rf_modality f)) \<and>
      rf_executionMode f = XmPinned \<and> declaredChannel f (run_spec f))"

definition run_identity :: "run_facts \<Rightarrow> HarnessAttestationResult option \<times> ServeBindingResult option" where
  "run_identity f =
     probeSurfaceIdentity (rf_task f) (rf_ports f) (rf_probes f) (rf_attest f) (run_spec f) (rf_executionMode f)"

definition run_floor :: "run_facts \<Rightarrow> AttestationFloorOutcome" where
  "run_floor f =
     evaluateAttestationFloorForMode (rf_executionMode f) (rf_task f) (run_spec f) (fst (run_identity f)) (snd (run_identity f))
       (rf_harnessMarker f)"

text \<open>The report as the harness reads it: the drive coercion and the rule re-applied after it.\<close>

definition harness_report :: "run_facts \<Rightarrow> VerificationReportV1 \<Rightarrow> VerificationReportV1 \<times> nat" where
  "harness_report f r =
     (case coerceDriveUnsupportedBehaviors r (rf_task f) (driveUnsupported f) of
        (r1, coerced) \<Rightarrow>
          (reapplyUnverifiableAfterDriveCoercion r1 (length (tk_behaviors (rf_task f))) coerced, coerced))"

definition learned_surface :: "run_facts \<Rightarrow> bool" where
  "learned_surface f =
     (case run_floor f of
        FloorVerified channel d \<Rightarrow> channel \<noteq> AkFile \<or> isDegenerateFileTarget (rf_task f)
      | _ \<Rightarrow> False)"

definition judge_report :: "run_facts \<Rightarrow> VerificationReportV1 \<Rightarrow> VerificationAgentRunResult" where
  "judge_report f normalized =
     (case harness_report f normalized of
        (r, coerced) \<Rightarrow>
          (case validateReportScreenshots (rf_fileExists f) r of
             Some phantom \<Rightarrow> (deployed_result f RqFailed phantom)\<lparr>rr_report := Some r\<rparr>
           | None \<Rightarrow>
               let floor = (if runsFloor f r then Some (run_floor f) else None);
                   probe = (if runsFloor f r then fst (run_identity f) else None);
                   res = mapReportToResult r
                     \<lparr>mc_provisionMode = rf_provisionMode f,
                      mc_mutated = (rf_provisionMode f = PvSnapshot \<and> rf_mutated f),
                      mc_model = rf_model f, mc_executionMode = rf_executionMode f, mc_modality = rf_modality f,
                      mc_floor = floor,
                      mc_corroboration = unverifiableCorroboration
                        \<lparr>uf_floor = floor, uf_probe = probe, uf_task = rf_task f, uf_modality = rf_modality f,
                         uf_mobileDrive = rf_mobileDrive f, uf_driveUnsupported = driveUnsupported f,
                         uf_driveCoerced = coerced\<rparr>\<rparr>
               in if rr_status res = RqPassed \<and> rf_xcodeReasons f \<noteq> [] then
                    (capPassedAtLowConfidence res (XCODE_LEDGER_CAP_MESSAGE @ '': '' @ join_with ''; '' (rf_xcodeReasons f)))
                      \<lparr>rr_preflight := Some (rf_preflight f)\<rparr>
                  else res\<lparr>rr_preflight := Some (rf_preflight f),
                           rr_surfaceVerified :=
                             (if rf_learnedPin f \<and> rp_outcome r = RoFail then Some (learned_surface f) else None)\<rparr>))"

definition run_result :: "run_facts \<Rightarrow> session \<Rightarrow> VerificationAgentRunResult" where
  "run_result f s =
     (case s of
        SessionThrew transcript timedOut message \<Rightarrow>
          if timedOut then deployed_result f RqTimeout message
          else if trim (the_text transcript) \<noteq> [] then
            deployed_result f RqFailed (TRANSPORT_MID_SESSION_MESSAGE @ '': '' @ message)
          else (deployed_result f RqSkipped (''agent deploy error: '' @ message))\<lparr>rr_transportFailure := True\<rparr>
      | SessionAborted \<Rightarrow> deployed_result f RqTimeout ''deadline exceeded during deploy''
      | SessionAbortedAfter \<Rightarrow> deployed_result f RqTimeout ''deadline exceeded''
      | RunnerAborted \<Rightarrow> (deployed_result f RqTimeout ''deadline exceeded'')\<lparr>rr_deployed := False\<rparr>
      | RunnerThrew message \<Rightarrow>
          (deployed_result f RqSkipped (''agent runner error: '' @ message))\<lparr>rr_deployed := False\<rparr>
      | SessionReturned raw \<Rightarrow>
          (case normalizeVerificationReportV1 raw (map tb_id (tk_behaviors (rf_task f))) of
             Inl e \<Rightarrow> deployed_result f RqFailed (''invalid structured report: '' @ e)
           | Inr (r, coerced) \<Rightarrow> judge_report f r))"

section \<open>Classification and settlement\<close>

datatype VerificationFailureClass = FcEnv | FcDeliverable | FcAmbiguous

datatype evidence_source = EsPreflight | EsPortProbe | EsInstanceLock | EsAttestation | EsRunner | EsReport

record VerificationFailureEvidence =
  ev_source :: evidence_source
  ev_check :: "string option"
  ev_detail :: string

definition check_name :: "check_id \<Rightarrow> string" where
  "check_name c =
     (case c of CiNode \<Rightarrow> ''node'' | CiChromium \<Rightarrow> ''chromium'' | CiDriverCli \<Rightarrow> ''driver-cli'' | CiPortFree \<Rightarrow> ''port-free''
      | CiDriverPortFree \<Rightarrow> ''driver-port-free'' | CiOther s \<Rightarrow> s)"

definition status_text :: "RequestStatus \<Rightarrow> string" where
  "status_text st =
     (case st of RqQueued \<Rightarrow> ''queued'' | RqLeased \<Rightarrow> ''leased'' | RqRunning \<Rightarrow> ''running'' | RqPassed \<Rightarrow> ''passed''
      | RqFailed \<Rightarrow> ''failed'' | RqLowConfidence \<Rightarrow> ''low_confidence'' | RqSkipped \<Rightarrow> ''skipped'' | RqTimeout \<Rightarrow> ''timeout'')"

definition provision_text :: "provision option \<Rightarrow> string" where
  "provision_text p = (case p of None \<Rightarrow> ''null'' | Some PvSnapshot \<Rightarrow> ''snapshot'' | Some PvFallback \<Rightarrow> ''fallback'')"

record FailureClassifierInputs =
  fi_preflight :: "PreflightCheckResult list option"
  fi_runnerStatus :: RequestStatus
  fi_reportOutcome :: "VerificationReportOutcome option"
  fi_provisionMode :: "provision option"
  fi_instanceLockContention :: bool
  fi_runbookMismatch :: bool

definition env_evidence :: "FailureClassifierInputs \<Rightarrow> VerificationFailureEvidence list" where
  "env_evidence i =
     (case fi_preflight i of
        None \<Rightarrow> []
      | Some checks \<Rightarrow>
          map (\<lambda>c. \<lparr>ev_source = (if pc_id c = CiPortFree \<or> pc_id c = CiDriverPortFree then EsPortProbe else EsPreflight),
                   ev_check = Some (check_name (pc_id c)), ev_detail = pc_detail c\<rparr>)
              (filter (\<lambda>c. \<not> pc_ok c) checks)) @
     (if fi_instanceLockContention i then
        [\<lparr>ev_source = EsInstanceLock, ev_check = Some ''instance-lock'',
          ev_detail = ''Electron single-instance-lock contention detected by the runner''\<rparr>] else []) @
     (if fi_runbookMismatch i then
        [\<lparr>ev_source = EsRunner, ev_check = Some ''runbook-mismatch'',
          ev_detail = ''runbook/sha mismatch '' @ em_dash @ '' the runner rejected execution against a stale or unresolved revision''\<rparr>]
      else [])"

definition classifyVerificationFailure ::
  "FailureClassifierInputs \<Rightarrow> VerificationFailureClass \<times> VerificationFailureEvidence list" where
  "classifyVerificationFailure i =
     (if env_evidence i \<noteq> [] then (FcEnv, env_evidence i)
      else if fi_provisionMode i = Some PvSnapshot \<and> fi_reportOutcome i = Some RoFail then
        (FcDeliverable, [\<lparr>ev_source = EsReport, ev_check = Some ''report-outcome'',
           ev_detail = ''snapshot-mode judged failure (reportOutcome: '' @ sq ''fail'' @ '')''\<rparr>])
      else
        (FcAmbiguous, [\<lparr>ev_source = EsRunner, ev_check = Some ''runner-status'',
           ev_detail = ''runnerStatus='' @ status_text (fi_runnerStatus i) @ '', reportOutcome='' @
             (case fi_reportOutcome i of None \<Rightarrow> ''null'' | Some ro \<Rightarrow> outcome_name ro) @ '', provisionMode='' @
             provision_text (fi_provisionMode i)\<rparr>]))"

definition isUnprovenAdvancingSkip :: "VerificationAgentRunResult \<Rightarrow> VerificationFailureClass option \<Rightarrow> bool" where
  "isUnprovenAdvancingSkip res fc \<longleftrightarrow>
     rr_deployed res \<and> rr_status res = RqSkipped \<and> fc = Some FcAmbiguous \<and> \<not> rr_transportFailure res \<and>
     \<not> (rr_provisionMode res = Some PvFallback \<and>
        (case rr_report res of
           Some r \<Rightarrow> rp_outcome r = RoBuildFailed \<or> rp_outcome r = RoLaunchFailed \<or> rp_outcome r = RoUnverifiable
         | None \<Rightarrow> False))"

definition VERIFY_UNPROVEN_SKIP_BLOCKED :: string where
  "VERIFY_UNPROVEN_SKIP_BLOCKED = ''unverified result blocked ('' @ [CHR 0xC2, CHR 0xA7] @ ''3.1 gate integrity)''"

definition settle_class :: "VerificationAgentRunResult \<Rightarrow> (VerificationFailureClass \<times> VerificationFailureEvidence list) option" where
  "settle_class res =
     (if rr_status res = RqFailed \<or> rr_status res = RqTimeout \<or> rr_status res = RqSkipped then
        Some (classifyVerificationFailure
          \<lparr>fi_preflight = rr_preflight res, fi_runnerStatus = rr_status res,
           fi_reportOutcome = (if rr_foreignSurface res then None else map_option rp_outcome (rr_report res)),
           fi_provisionMode = rr_provisionMode res, fi_instanceLockContention = False,
           fi_runbookMismatch = rr_runbookMismatch res\<rparr>)
      else None)"

record settlement =
  st_status :: RequestStatus
  st_error :: "string option"
  st_class :: "VerificationFailureClass option"
  st_evidence :: "VerificationFailureEvidence list"

text \<open>The part of \<open>settleAgentTerminal\<close> that decides the row's status, for a result that asks for no re-dispatch.\<close>

definition settle_verdict :: "VerificationAgentRunResult \<Rightarrow> settlement" where
  "settle_verdict res =
     (let classified = settle_class res;
          failureClass = map_option fst classified;
          evidence = (case classified of None \<Rightarrow> [] | Some (c, es) \<Rightarrow> es);
          converted = (rr_status res = RqFailed \<and> failureClass = Some FcEnv);
          blocked = (\<not> converted \<and> isUnprovenAdvancingSkip res failureClass);
          evidenceDetail = join_with ''; '' (map ev_detail evidence)
      in \<lparr>st_status = (if converted then RqSkipped else if blocked then RqFailed else rr_status res),
          st_error = (if converted then Some (''environment failure (harness-verified), not the deliverable: '' @ evidenceDetail)
                      else if blocked then Some (VERIFY_UNPROVEN_SKIP_BLOCKED @ '': '' @
                        (case rr_errorMessage res of Some m \<Rightarrow> m | None \<Rightarrow> ''the deployed session produced no corroborated verdict''))
                      else rr_errorMessage res),
          st_class = failureClass,
          st_evidence = evidence\<rparr>)"

datatype LearnedPinExit = LxPromote | LxKeep | LxDeliver | LxDiscard

definition classifyLearnedPinExit :: "VerificationAgentRunResult \<Rightarrow> LearnedPinExit" where
  "classifyLearnedPinExit res =
     (if rr_redispatch res \<noteq> None then LxDiscard
      else if rr_status res = RqPassed then LxPromote
      else if rr_status res = RqFailed \<and> rr_surfaceVerified res = Some True \<and> \<not> rr_foreignSurface res \<and>
              (case rr_report res of
                 Some r \<Rightarrow> rp_outcome r = RoFail \<and> list_ex (\<lambda>b. bh_result b = BrFail) (rp_behaviors r)
               | None \<Rightarrow> False) then LxKeep
      else if rr_status res = RqSkipped \<and> \<not> rr_deployed res \<and> \<not> rr_runbookMismatch res then LxDeliver
      else LxDiscard)"

end
