(* ===== verification/VerifyReportProps.thy ===== *)
theory VerifyReportProps
  imports VerifyReport
begin

text \<open>
  What a validated report is: its claims are backed by its behaviors, and a report stored as JSON validates to
  itself.
\<close>

named_theorems report_simps \<open>reading back the members of a serialised object\<close>

section \<open>Serialisation\<close>

definition member_json :: "string \<Rightarrow> ('a \<Rightarrow> jval) \<Rightarrow> 'a option \<Rightarrow> (string \<times> jval) list" where
  "member_json k f x = (case x of None \<Rightarrow> [] | Some a \<Rightarrow> [(k, f a)])"

definition app_json :: "MobileAppSpec \<Rightarrow> jval" where
  "app_json a =
     JObj ([(''platform'', JText ''ios-simulator''), (''bundleId'', JText (ap_bundleId a)), (''scheme'', JText (ap_scheme a))] @
           member_json ''productGlob'' JText (ap_productGlob a))"

definition behavior_json :: "behavior_report \<Rightarrow> jval" where
  "behavior_json b =
     JObj [(''id'', JText (bh_id b)), (''result'', JText (result_name (bh_result b))),
           (''evidence'', JObj [(''screenshots'', JArr (map JText (bh_screenshots b))), (''notes'', JText (bh_notes b))])]"

definition shot_json :: "report_shot \<Rightarrow> jval" where
  "shot_json s = JObj [(''fileName'', JText (sh_fileName s)), (''caption'', JText (sh_caption s))]"

definition issue_json :: "verdict_issue \<Rightarrow> jval" where
  "issue_json s =
     JObj ([(''severity'', JText (issue_name (is_severity s))), (''description'', JText (is_description s))] @
           member_json ''fileName'' JText (is_fileName s))"

definition attest_json :: "attest_echo \<Rightarrow> jval" where
  "attest_json a =
     JObj [(''verified'', JBool (ae_verified a)), (''kind'', JText (attest_name (ae_kind a))), (''detail'', JText (ae_detail a))]"

text \<open>\<open>JSON.stringify(report)\<close> of the \<open>report_json\<close> column, in the member order of the validator.\<close>

definition report_json :: "VerificationReportV1 \<Rightarrow> jval" where
  "report_json r =
     JObj ([(''version'', JNum 1), (''behaviors'', JArr (map behavior_json (rp_behaviors r))),
            (''screenshots'', JArr (map shot_json (rp_screenshots r))), (''outcome'', JText (outcome_name (rp_outcome r)))] @
           member_json ''buildLogExcerpt'' JText (rp_buildLogExcerpt r) @ member_json ''diagnosis'' JText (rp_diagnosis r) @
           member_json ''neededModality'' (JText \<circ> modality_name) (rp_neededModality r) @ member_json ''app'' app_json (rp_app r) @
           member_json ''recipeJson'' JText (rp_recipeJson r) @
           [(''confidence'', JNum (rp_confidence r)), (''feedback'', JText (rp_feedback r)),
            (''issues'', JArr (map issue_json (rp_issues r)))] @
           member_json ''attestation'' attest_json (rp_attestation r))"

lemma map_of_member_json [report_simps]:
  "map_of (member_json k f x @ rest) k' = (if k = k' \<and> x \<noteq> None then Some (f (the x)) else map_of rest k')"
  by (auto simp: member_json_def split: option.splits)

lemma map_of_member_last [report_simps]:
  "map_of (member_json k f x) k' = (if k = k' \<and> x \<noteq> None then Some (f (the x)) else None)"
  by (auto simp: member_json_def split: option.splits)

lemma texts_of_map [report_simps]: "texts_of (map JText ss) = Some ss"
  by (induction ss) auto

lemmas reading = fld_def isRecord_def text_at_def nonempty_at_def array_at_def texts_at_def need_def sbind_def

lemma result_found [report_simps]: "find (\<lambda>x. result_name x = result_name br) behavior_results = Some br"
  by (cases br) (simp_all add: result_name_def behavior_results_def)

lemma severity_found [report_simps]: "find (\<lambda>x. issue_name x = issue_name s) issue_severities = Some s"
  by (cases s) (simp_all add: issue_name_def issue_severities_def)

lemma outcome_found [report_simps]:
  "find (\<lambda>x. outcome_name x = outcome_name ro) VERIFICATION_REPORT_OUTCOMES = Some ro"
  by (cases ro) (simp_all add: outcome_name_def VERIFICATION_REPORT_OUTCOMES_def)

lemma modality_found [report_simps]:
  "find (\<lambda>x. modality_name x = modality_name mo) VERIFICATION_MODALITIES = Some mo"
  by (cases mo) (simp_all add: modality_name_def VERIFICATION_MODALITIES_def)

lemma attest_found [report_simps]: "find (\<lambda>x. attest_name x = attest_name ak) ATTESTATION_KINDS = Some ak"
  by (cases ak) (simp_all add: attest_name_def ATTESTATION_KINDS_def)

section \<open>Validated values\<close>

definition app_ok :: "MobileAppSpec \<Rightarrow> bool" where
  "app_ok a \<longleftrightarrow> trim (ap_bundleId a) \<noteq> [] \<and> trim (ap_scheme a) \<noteq> [] \<and>
     (case ap_productGlob a of None \<Rightarrow> True | Some g \<Rightarrow> isRelativeContainedPath g)"

definition behavior_ok :: "string list \<Rightarrow> behavior_report \<Rightarrow> bool" where
  "behavior_ok ids b \<longleftrightarrow> trim (bh_id b) \<noteq> [] \<and> List.member ids (bh_id b)"

definition report_ok :: "string list \<Rightarrow> VerificationReportV1 \<Rightarrow> bool" where
  "report_ok ids r \<longleftrightarrow>
     list_all (behavior_ok ids) (rp_behaviors r) \<and>
     list_all (\<lambda>s. trim (sh_fileName s) \<noteq> []) (rp_screenshots r) \<and>
     (rp_outcome r = RoBuildFailed \<or> rp_outcome r = RoLaunchFailed \<longrightarrow> (\<exists>s. rp_buildLogExcerpt r = Some s \<and> trim s \<noteq> [])) \<and>
     (rp_outcome r = RoUnverifiable \<or> rp_outcome r = RoWrongEnvironment \<longrightarrow> (\<exists>s. rp_diagnosis r = Some s \<and> trim s \<noteq> [])) \<and>
     (if rp_outcome r = RoWrongEnvironment then rp_neededModality r \<noteq> None \<and> (case rp_app r of None \<Rightarrow> True | Some a \<Rightarrow> app_ok a)
      else rp_neededModality r = None \<and> rp_app r = None) \<and>
     0 \<le> rp_confidence r \<and> rp_confidence r \<le> 1 \<and>
     (rp_outcome r = RoPass \<or> rp_outcome r = RoUnverifiable \<longrightarrow> \<not> list_ex (\<lambda>b. bh_result b = BrFail) (rp_behaviors r)) \<and>
     (rp_outcome r = RoFail \<longrightarrow> ids = [] \<or> list_ex (\<lambda>b. bh_result b \<noteq> BrNotTestable) (rp_behaviors r))"

lemma parse_app_json: "app_ok a \<Longrightarrow> parseMobileAppSpec (app_json a) path = Inr a"
  by (cases a) (auto simp: parseMobileAppSpec_def app_json_def app_ok_def reading report_simps split: option.splits)

lemma parse_app_ok: "parseMobileAppSpec v path = Inr a \<Longrightarrow> app_ok a"
  by (auto simp: parseMobileAppSpec_def app_ok_def reading split: if_splits option.splits jval.splits)

lemma parse_behavior_json: "behavior_ok ids b \<Longrightarrow> parse_behavior ids i (behavior_json b) = Inr b"
  by (cases b) (simp add: parse_behavior_def behavior_json_def behavior_ok_def reading member_at_def report_simps)

lemma parse_behavior_ok: "parse_behavior ids i v = Inr b \<Longrightarrow> behavior_ok ids b"
  by (auto simp: parse_behavior_def behavior_ok_def reading Let_def split: if_splits option.splits jval.splits)

lemma parse_shot_json: "trim (sh_fileName s) \<noteq> [] \<Longrightarrow> parse_shot i (shot_json s) = Inr s"
  by (cases s) (simp add: parse_shot_def shot_json_def reading)

lemma parse_shot_ok: "parse_shot i v = Inr s \<Longrightarrow> trim (sh_fileName s) \<noteq> []"
  by (auto simp: parse_shot_def reading Let_def split: if_splits option.splits jval.splits)

lemma parse_issue_json: "parse_issue i (issue_json s) = Inr s"
  by (cases s) (auto simp: parse_issue_def issue_json_def reading member_at_def report_simps split: option.splits)

lemma parse_attest_json:
  "fld ''attestation'' v = map_option attest_json x \<Longrightarrow> parse_attestation v = Inr x"
  by (cases x) (auto simp: parse_attestation_def attest_json_def reading member_at_def report_simps)

lemma each_map: "(\<And>x i. x \<in> set xs \<Longrightarrow> f i (g x) = Inr x) \<Longrightarrow> each f i (map g xs) = Inr xs"
  by (induction xs arbitrary: i) (auto simp: sbind_def)

lemma each_all: "each f i vs = Inr xs \<Longrightarrow> (\<And>i v x. f i v = Inr x \<Longrightarrow> P x) \<Longrightarrow> list_all P xs"
  by (induction f i vs arbitrary: xs rule: each.induct) (auto simp: sbind_def split: sum.splits)



section \<open>Coercion\<close>

lemma rstrip_nonempty: "rstrip P s \<noteq> [] \<longleftrightarrow> (\<exists>c \<in> set s. \<not> P c)"
  by (auto simp: rstrip_def dropWhile_eq_Nil_conv)

lemma trim_nonempty: "trim s \<noteq> [] \<longleftrightarrow> (\<exists>c \<in> set s. \<not> js_space c)"
proof -
  have "(\<exists>c \<in> set (dropWhile js_space s). \<not> js_space c) \<longleftrightarrow> (\<exists>c \<in> set s. \<not> js_space c)"
    by (metis dropWhile_eq_Nil_conv hd_dropWhile list.set_sel(1) set_dropWhileD)
  then show ?thesis by (simp add: trim_def rstrip_nonempty)
qed

lemma trim_append: "trim s \<noteq> [] \<Longrightarrow> trim (s @ t) \<noteq> []"
  by (auto simp: trim_nonempty)

lemma note_nonempty: "trim UNVERIFIABLE_COERCION_NOTE \<noteq> []"
  unfolding UNVERIFIABLE_COERCION_NOTE_def by (rule trim_append) (simp add: trim_nonempty js_space_def code_def)

lemma synthesized_nonempty: "trim (synthesizeCoercedUnverifiableDiagnosis d f) \<noteq> []"
  using note_nonempty by (auto simp: synthesizeCoercedUnverifiableDiagnosis_def agent_words_def Let_def trim_nonempty)

lemma coerce_ok:
  assumes "coerce_outcome ids bs ro d f = (ro', d', c)"
    and "ro = RoUnverifiable \<or> ro = RoWrongEnvironment \<longrightarrow> (\<exists>s. d = Some s \<and> trim s \<noteq> [])"
  shows "ro' = RoUnverifiable \<or> ro' = RoWrongEnvironment \<longrightarrow> (\<exists>s. d' = Some s \<and> trim s \<noteq> [])"
    and "ro' = RoPass \<or> ro' = RoUnverifiable \<longrightarrow> \<not> list_ex (\<lambda>b. bh_result b = BrFail) bs"
    and "ro' = RoFail \<longrightarrow> ids = [] \<or> list_ex (\<lambda>b. bh_result b \<noteq> BrNotTestable) bs"
    and "ro' = RoWrongEnvironment \<longleftrightarrow> ro = RoWrongEnvironment"
    and "ro' = RoBuildFailed \<longleftrightarrow> ro = RoBuildFailed" and "ro' = RoLaunchFailed \<longleftrightarrow> ro = RoLaunchFailed"
  using assms synthesized_nonempty
  by (auto simp: coerce_outcome_def Let_def list_ex_iff split: if_splits)

lemma coerce_stable:
  assumes "ro = RoPass \<or> ro = RoUnverifiable \<longrightarrow> \<not> list_ex (\<lambda>b. bh_result b = BrFail) bs"
    and "ro = RoFail \<longrightarrow> ids = [] \<or> list_ex (\<lambda>b. bh_result b \<noteq> BrNotTestable) bs"
  shows "coerce_outcome ids bs ro d f = (ro, d, False)"
  using assms by (auto simp: coerce_outcome_def Let_def)

section \<open>The report validator\<close>

lemma optional_text_json: "fld k v = map_option JText x \<Longrightarrow> optional_text k v = Inr x"
  by (cases x) (auto simp: optional_text_def)

lemma buildLog_json:
  assumes "fld ''buildLogExcerpt'' v = map_option JText x"
    and "ro = RoBuildFailed \<or> ro = RoLaunchFailed \<longrightarrow> (\<exists>s. x = Some s \<and> trim s \<noteq> [])"
  shows "parse_buildLogExcerpt ro v = Inr x"
  using assms by (auto simp: parse_buildLogExcerpt_def nonempty_at_def text_at_def need_def optional_text_json)

lemma diagnosis_json:
  assumes "fld ''diagnosis'' v = map_option JText x"
    and "ro = RoUnverifiable \<or> ro = RoWrongEnvironment \<longrightarrow> (\<exists>s. x = Some s \<and> trim s \<noteq> [])"
  shows "parse_diagnosis ro v = Inr x"
  using assms by (auto simp: parse_diagnosis_def nonempty_at_def text_at_def need_def optional_text_json)

lemma mismatch_json:
  assumes "fld ''neededModality'' v = map_option (JText \<circ> modality_name) m" and "fld ''app'' v = map_option app_json a"
    and "if ro = RoWrongEnvironment then m \<noteq> None \<and> (case a of None \<Rightarrow> True | Some x \<Rightarrow> app_ok x) else m = None \<and> a = None"
  shows "parse_mismatch ro v = Inr (m, a)"
  using assms
  by (auto simp: parse_mismatch_def need_def member_at_def text_at_def report_simps sbind_def parse_app_json
      split: option.splits if_splits)

lemma need_Inr: "need x e f = Inr r \<longleftrightarrow> (\<exists>a. x = Some a \<and> f a = Inr r)"
  by (auto simp: need_def split: option.splits)

lemma sbind_Inr: "sbind x f = Inr r \<longleftrightarrow> (\<exists>a. x = Inr a \<and> f a = Inr r)"
  by (auto simp: sbind_def split: sum.splits)

lemma buildLog_ok:
  "parse_buildLogExcerpt ro v = Inr x \<Longrightarrow> ro = RoBuildFailed \<or> ro = RoLaunchFailed \<Longrightarrow> \<exists>s. x = Some s \<and> trim s \<noteq> []"
  by (auto simp: parse_buildLogExcerpt_def need_def nonempty_at_def split: option.splits if_splits)

lemma diagnosis_ok:
  "parse_diagnosis ro v = Inr x \<Longrightarrow> ro = RoUnverifiable \<or> ro = RoWrongEnvironment \<longrightarrow> (\<exists>s. x = Some s \<and> trim s \<noteq> [])"
  by (auto simp: parse_diagnosis_def need_def nonempty_at_def split: option.splits if_splits)

lemma mismatch_ok:
  "parse_mismatch ro v = Inr (m, a) \<Longrightarrow>
   if ro = RoWrongEnvironment then m \<noteq> None \<and> (case a of None \<Rightarrow> True | Some x \<Rightarrow> app_ok x) else m = None \<and> a = None"
  by (cases "fld ''app'' v") (auto simp: parse_mismatch_def need_Inr sbind_Inr dest: parse_app_ok split: if_splits)

lemma confidence_ok: "parse_confidence v = Inr n \<Longrightarrow> 0 \<le> n \<and> n \<le> 1"
  by (auto simp: parse_confidence_def split: option.splits jval.splits)

lemma triple_Inr: "(case x of (a, b, c) \<Rightarrow> Inr (f a b c)) = Inr r \<longleftrightarrow> (\<exists>a b c. x = (a, b, c) \<and> f a b c = r)"
  by (cases x) auto

lemma normalized_ok:
  assumes "normalizeVerificationReportV1 v ids = Inr (r, c)"
  shows "report_ok ids r"
proof -
  from assms obtain bs ss ro log d m a conf fb il' ro' d' rj att bl sl il where
    p: "each (parse_behavior ids) 0 bl = Inr bs" "each parse_shot 0 sl = Inr ss" "parse_buildLogExcerpt ro v = Inr log"
       "parse_diagnosis ro v = Inr d" "parse_mismatch ro v = Inr (m, a)" "parse_confidence v = Inr conf"
    and co: "coerce_outcome ids bs ro d fb = (ro', d', c)"
    and r: "r = \<lparr>rp_behaviors = bs, rp_screenshots = ss, rp_outcome = ro', rp_buildLogExcerpt = log, rp_diagnosis = d',
              rp_neededModality = m, rp_app = a, rp_recipeJson = rj, rp_confidence = conf, rp_feedback = fb,
              rp_issues = il', rp_attestation = att\<rparr>"
    by (auto simp: normalizeVerificationReportV1_def need_Inr sbind_Inr triple_Inr split: if_splits)
  note co' = coerce_ok [OF co diagnosis_ok [OF p(4)]]
  have "list_all (behavior_ok ids) bs" using p(1) by (rule each_all) (rule parse_behavior_ok)
  moreover have "list_all (\<lambda>s. trim (sh_fileName s) \<noteq> []) ss" using p(2) by (rule each_all) (rule parse_shot_ok)
  ultimately show ?thesis
    using co' buildLog_ok [OF p(3)] mismatch_ok [OF p(5)] confidence_ok [OF p(6)]
    by (simp add: report_ok_def r)
qed

lemma report_members:
  "fld ''buildLogExcerpt'' (report_json r) = map_option JText (rp_buildLogExcerpt r)"
  "fld ''diagnosis'' (report_json r) = map_option JText (rp_diagnosis r)"
  "fld ''neededModality'' (report_json r) = map_option (JText \<circ> modality_name) (rp_neededModality r)"
  "fld ''app'' (report_json r) = map_option app_json (rp_app r)"
  "fld ''recipeJson'' (report_json r) = map_option JText (rp_recipeJson r)"
  "fld ''attestation'' (report_json r) = map_option attest_json (rp_attestation r)"
  "fld ''confidence'' (report_json r) = Some (JNum (rp_confidence r))"
  "fld ''version'' (report_json r) = Some (JNum 1)"
  "fld ''behaviors'' (report_json r) = Some (JArr (map behavior_json (rp_behaviors r)))"
  "fld ''screenshots'' (report_json r) = Some (JArr (map shot_json (rp_screenshots r)))"
  "fld ''outcome'' (report_json r) = Some (JText (outcome_name (rp_outcome r)))"
  "fld ''feedback'' (report_json r) = Some (JText (rp_feedback r))"
  "fld ''issues'' (report_json r) = Some (JArr (map issue_json (rp_issues r)))"
  unfolding report_json_def fld_def
  by (simp_all add: map_of_member_json map_of_member_last map_option_case del: map_of_append split: option.split)

lemma stored_report_reads_back:
  assumes "report_ok ids r"
  shows "normalizeVerificationReportV1 (report_json r) ids = Inr (r, False)"
proof -
  note ok = assms [unfolded report_ok_def]
  have 1: "each (parse_behavior ids) 0 (map behavior_json (rp_behaviors r)) = Inr (rp_behaviors r)"
    using ok by (intro each_map) (auto simp: list_all_iff intro: parse_behavior_json)
  have 2: "each parse_shot 0 (map shot_json (rp_screenshots r)) = Inr (rp_screenshots r)"
    using ok by (intro each_map) (auto simp: list_all_iff intro: parse_shot_json)
  have 3: "each parse_issue 0 (map issue_json (rp_issues r)) = Inr (rp_issues r)"
    by (rule each_map) (rule parse_issue_json)
  have 4: "parse_buildLogExcerpt (rp_outcome r) (report_json r) = Inr (rp_buildLogExcerpt r)"
    using ok by (intro buildLog_json report_members) blast
  have 5: "parse_diagnosis (rp_outcome r) (report_json r) = Inr (rp_diagnosis r)"
    using ok by (intro diagnosis_json report_members) blast
  have 6: "parse_mismatch (rp_outcome r) (report_json r) = Inr (rp_neededModality r, rp_app r)"
    using ok by (intro mismatch_json report_members) blast
  have 7: "optional_text ''recipeJson'' (report_json r) = Inr (rp_recipeJson r)"
    by (intro optional_text_json report_members)
  have 8: "parse_attestation (report_json r) = Inr (rp_attestation r)"
    by (intro parse_attest_json report_members)
  have 9: "parse_confidence (report_json r) = Inr (rp_confidence r)"
    using ok by (simp add: parse_confidence_def report_members)
  have 10: "coerce_outcome ids (rp_behaviors r) (rp_outcome r) (rp_diagnosis r) (rp_feedback r) =
      (rp_outcome r, rp_diagnosis r, False)"
    using ok by (intro coerce_stable) blast+
  have "isRecord (report_json r)" by (simp add: report_json_def isRecord_def)
  then show ?thesis
    by (simp add: normalizeVerificationReportV1_def need_def sbind_def array_at_def member_at_def text_at_def
        report_members report_simps 1 2 3 4 5 6 7 8 9 10)
qed

end
