(* ===== verification/VerifyRunProps.thy ===== *)
theory VerifyRunProps
  imports VerifyRun VerifyReportProps
begin

text \<open>
  What a settled verification may say: a pass is backed by behaviors, files and an identified surface, a skip has
  grounds outside the agent's words, an observed failure blocks, and only the harness produces an environment
  failure.
\<close>

named_theorems verdict_simps \<open>the shapes of a run's result\<close>

section \<open>Shapes of results\<close>

lemma plain_result_fields [verdict_simps]:
  "rr_status (plain_result st) = st" "rr_report (plain_result st) = None" "rr_preflight (plain_result st) = None"
  "rr_provisionMode (plain_result st) = None" "rr_runbookMismatch (plain_result st) = False"
  "rr_transportFailure (plain_result st) = False" "rr_foreignSurface (plain_result st) = False"
  "rr_deployed (plain_result st) = False" "rr_errorMessage (plain_result st) = None"
  by (simp_all add: plain_result_def)

lemma mapped_fields [verdict_simps]:
  "rr_status (mapped r p st v e) = st" "rr_report (mapped r p st v e) = Some r" "rr_deployed (mapped r p st v e)"
  "rr_provisionMode (mapped r p st v e) = Some p" "\<not> rr_runbookMismatch (mapped r p st v e)"
  "\<not> rr_transportFailure (mapped r p st v e)" "\<not> rr_foreignSurface (mapped r p st v e)"
  by (simp_all add: mapped_def verdict_simps)

lemma deployed_fields [verdict_simps]:
  "rr_status (deployed_result f st e) = st" "rr_report (deployed_result f st e) = None" "rr_deployed (deployed_result f st e)"
  "rr_provisionMode (deployed_result f st e) = Some (rf_provisionMode f)"
  "rr_preflight (deployed_result f st e) = Some (rf_preflight f)"
  "\<not> rr_runbookMismatch (deployed_result f st e)" "\<not> rr_transportFailure (deployed_result f st e)"
  "\<not> rr_foreignSurface (deployed_result f st e)" "rr_errorMessage (deployed_result f st e) = Some e"
  by (simp_all add: deployed_result_def verdict_simps)

lemma cap_fields [verdict_simps]:
  "rr_report (capPassedAtLowConfidence res note) = rr_report res"
  "rr_status (capPassedAtLowConfidence res note) = (if rr_status res = RqPassed then RqLowConfidence else rr_status res)"
  "rr_deployed (capPassedAtLowConfidence res note) = rr_deployed res"
  "rr_provisionMode (capPassedAtLowConfidence res note) = rr_provisionMode res"
  "rr_runbookMismatch (capPassedAtLowConfidence res note) = rr_runbookMismatch res"
  "rr_transportFailure (capPassedAtLowConfidence res note) = rr_transportFailure res"
  "rr_foreignSurface (capPassedAtLowConfidence res note) = rr_foreignSurface res"
  by (simp_all add: capPassedAtLowConfidence_def)

lemmas map_shapes = unverifiableResult_def Let_def verdict_simps

lemma map_shape:
  "rr_report (mapReportToResult r ctx) = Some r \<and> rr_deployed (mapReportToResult r ctx) \<and>
   rr_provisionMode (mapReportToResult r ctx) = Some (mc_provisionMode ctx) \<and>
   \<not> rr_runbookMismatch (mapReportToResult r ctx) \<and> \<not> rr_transportFailure (mapReportToResult r ctx) \<and>
   (rr_status (mapReportToResult r ctx) = RqPassed \<longrightarrow>
      rp_outcome r = RoPass \<and> \<not> mc_mutated ctx \<and>
      (\<not> list_ex (\<lambda>b. bh_result b = BrNotTestable) (rp_behaviors r) \<or> list_ex (\<lambda>b. bh_result b = BrFail) (rp_behaviors r)) \<and>
      (mc_floor ctx = None \<or> (\<exists>ch d. mc_floor ctx = Some (FloorVerified ch d)))) \<and>
   (rr_status (mapReportToResult r ctx) = RqSkipped \<longrightarrow>
      mc_provisionMode ctx = PvFallback \<and>
      (rp_outcome r \<in> {RoBuildFailed, RoLaunchFailed} \<or>
       mc_executionMode ctx = XmPinned \<and> rp_outcome r \<in> {RoUnverifiable, RoWrongEnvironment})) \<and>
   (rp_outcome r = RoFail \<longrightarrow>
      rr_status (mapReportToResult r ctx) =
        (if mc_executionMode ctx = XmExplore \<and> (\<exists>d. mc_floor ctx = Some (FloorMissing d)) then RqLowConfidence else RqFailed) \<and>
      (rr_foreignSurface (mapReportToResult r ctx) \<longleftrightarrow>
        mc_executionMode ctx = XmExplore \<and> (\<exists>d. mc_floor ctx = Some (FloorForeign d))))"
proof (cases "rp_outcome r")
  case RoPass
  then show ?thesis
    by (simp add: mapReportToResult_def map_shapes split: option.split AttestationFloorOutcome.split)
next
  case RoFail
  then show ?thesis
    by (simp add: mapReportToResult_def map_shapes split: option.split AttestationFloorOutcome.split)
qed (simp_all add: mapReportToResult_def map_shapes)

lemma map_always [verdict_simps]:
  "rr_report (mapReportToResult r ctx) = Some r" "rr_deployed (mapReportToResult r ctx)"
  "rr_provisionMode (mapReportToResult r ctx) = Some (mc_provisionMode ctx)"
  "\<not> rr_runbookMismatch (mapReportToResult r ctx)" "\<not> rr_transportFailure (mapReportToResult r ctx)"
  using map_shape [of r ctx] by simp_all

lemma map_passed:
  assumes "rr_status (mapReportToResult r ctx) = RqPassed"
  shows "rp_outcome r = RoPass" and "\<not> mc_mutated ctx"
    and "\<not> list_ex (\<lambda>b. bh_result b = BrNotTestable) (rp_behaviors r) \<or> list_ex (\<lambda>b. bh_result b = BrFail) (rp_behaviors r)"
    and "mc_floor ctx = None \<or> (\<exists>ch d. mc_floor ctx = Some (FloorVerified ch d))"
  using map_shape [of r ctx] assms by simp_all

lemma map_skipped:
  assumes "rr_status (mapReportToResult r ctx) = RqSkipped"
  shows "mc_provisionMode ctx = PvFallback"
    and "rp_outcome r \<in> {RoBuildFailed, RoLaunchFailed} \<or> mc_executionMode ctx = XmPinned \<and> rp_outcome r \<in> {RoUnverifiable, RoWrongEnvironment}"
  using map_shape [of r ctx] assms by simp_all

lemma map_failed_report:
  assumes "rp_outcome r = RoFail"
  shows "rr_status (mapReportToResult r ctx) =
           (if mc_executionMode ctx = XmExplore \<and> (\<exists>d. mc_floor ctx = Some (FloorMissing d)) then RqLowConfidence else RqFailed)"
    and "rr_foreignSurface (mapReportToResult r ctx) \<longleftrightarrow>
           mc_executionMode ctx = XmExplore \<and> (\<exists>d. mc_floor ctx = Some (FloorForeign d))"
  using map_shape [of r ctx] assms by simp_all

section \<open>The report the harness reads\<close>

lemma coerce_drive_outcome: "coerceDriveUnsupportedBehaviors r t d = (r', n) \<Longrightarrow> rp_outcome r' = rp_outcome r"
  by (auto simp: coerceDriveUnsupportedBehaviors_def Let_def split: if_splits)

lemma reapply_simps [verdict_simps]:
  "rp_behaviors (reapplyUnverifiableAfterDriveCoercion r e n) = rp_behaviors r"
  "reapplyUnverifiableAfterDriveCoercion r e 0 = r"
  "rp_outcome (reapplyUnverifiableAfterDriveCoercion r e n) = RoPass \<longleftrightarrow> rp_outcome r = RoPass"
  by (simp_all add: reapplyUnverifiableAfterDriveCoercion_def)

lemma harness_report_untouched:
  assumes "harness_report f r = (r', n)" and "\<not> list_ex (\<lambda>b. bh_result b = BrNotTestable) (rp_behaviors r')"
  shows "r' = r"
proof -
  obtain r1 m where c: "coerceDriveUnsupportedBehaviors r (rf_task f) (driveUnsupported f) = (r1, m)" by fastforce
  have bs: "rp_behaviors r' = rp_behaviors r1" and nm: "n = m"
    using assms(1) by (auto simp: harness_report_def c verdict_simps)
  have "m = 0 \<and> r1 = r"
  proof (rule ccontr)
    assume "\<not> (m = 0 \<and> r1 = r)"
    then obtain b where "b \<in> set (rp_behaviors r)" "bh_result b \<noteq> BrNotTestable" "List.member (drive_ids (rf_task f)) (bh_id b)"
      and "r1 = r\<lparr>rp_behaviors := map (\<lambda>b. if List.member (drive_ids (rf_task f)) (bh_id b) \<and> bh_result b \<noteq> BrNotTestable
             then strike b else b) (rp_behaviors r)\<rparr>"
      using c by (fastforce simp: coerceDriveUnsupportedBehaviors_def Let_def filter_empty_conv split: if_splits)
    then have "strike b \<in> set (rp_behaviors r1)" by force
    moreover have "bh_result (strike b) = BrNotTestable" by (simp add: strike_def Let_def)
    ultimately show False using assms(2) bs by (auto simp: list_ex_iff)
  qed
  then show ?thesis
    using assms(1) by (simp add: harness_report_def c verdict_simps)
qed

lemma harness_report_pass: "harness_report f r = (r', n) \<Longrightarrow> rp_outcome r' = RoPass \<Longrightarrow> rp_outcome r = RoPass"
  by (auto simp: harness_report_def verdict_simps split: prod.splits dest: coerce_drive_outcome)

section \<open>Judging and settling\<close>

lemma judge_cases:
  assumes "harness_report f r = (r', n)"
  obtains (phantom) p where "validateReportScreenshots (rf_fileExists f) r' = Some p"
      "judge_report f r = (deployed_result f RqFailed p)\<lparr>rr_report := Some r'\<rparr>"
  | (judged) ctx where "validateReportScreenshots (rf_fileExists f) r' = None"
      "mc_provisionMode ctx = rf_provisionMode f" "mc_mutated ctx \<longleftrightarrow> rf_provisionMode f = PvSnapshot \<and> rf_mutated f"
      "mc_executionMode ctx = rf_executionMode f"
      "mc_floor ctx = (if runsFloor f r' then Some (run_floor f) else None)"
      "rr_status (judge_report f r) =
         (if rr_status (mapReportToResult r' ctx) = RqPassed \<and> rf_xcodeReasons f \<noteq> [] then RqLowConfidence
          else rr_status (mapReportToResult r' ctx))"
      "rr_report (judge_report f r) = Some r'" "rr_deployed (judge_report f r)"
      "rr_preflight (judge_report f r) = Some (rf_preflight f)"
      "rr_provisionMode (judge_report f r) = Some (rf_provisionMode f)"
      "\<not> rr_runbookMismatch (judge_report f r)" "\<not> rr_transportFailure (judge_report f r)"
      "rr_foreignSurface (judge_report f r) \<longleftrightarrow> rr_foreignSurface (mapReportToResult r' ctx)"
proof (cases "validateReportScreenshots (rf_fileExists f) r'")
  case None
  show ?thesis
    by (rule judged [where ctx = "\<lparr>mc_provisionMode = rf_provisionMode f,
                      mc_mutated = (rf_provisionMode f = PvSnapshot \<and> rf_mutated f),
                      mc_model = rf_model f, mc_executionMode = rf_executionMode f, mc_modality = rf_modality f,
                      mc_floor = if runsFloor f r' then Some (run_floor f) else None,
                      mc_corroboration = unverifiableCorroboration
                        \<lparr>uf_floor = if runsFloor f r' then Some (run_floor f) else None,
                         uf_probe = if runsFloor f r' then fst (run_identity f) else None, uf_task = rf_task f,
                         uf_modality = rf_modality f,
                         uf_mobileDrive = rf_mobileDrive f, uf_driveUnsupported = driveUnsupported f,
                         uf_driveCoerced = n\<rparr>\<rparr>"])
      (simp_all add: judge_report_def assms None Let_def verdict_simps)
next
  case (Some p)
  then show ?thesis using phantom by (simp add: judge_report_def assms)
qed

definition harness_faulted :: "run_facts \<Rightarrow> bool" where
  "harness_faulted f \<longleftrightarrow> list_ex (\<lambda>c. \<not> pc_ok c) (rf_preflight f)"

lemma run_no_mismatch: "\<not> rr_runbookMismatch (run_result f s)" and run_preflight: "rr_preflight (run_result f s) = Some (rf_preflight f)"
proof -
  have "\<not> rr_runbookMismatch (run_result f s) \<and> rr_preflight (run_result f s) = Some (rf_preflight f)"
  proof (cases s)
    case (SessionReturned raw)
    have "\<not> rr_runbookMismatch (judge_report f r) \<and> rr_preflight (judge_report f r) = Some (rf_preflight f)" for r
    proof -
      obtain r' n where "harness_report f r = (r', n)" by fastforce
      then show ?thesis by (cases rule: judge_cases) (simp_all add: verdict_simps)
    qed
    then show ?thesis
      by (simp add: run_result_def SessionReturned verdict_simps split: sum.split prod.split)
  qed (simp_all add: run_result_def verdict_simps)
  then show "\<not> rr_runbookMismatch (run_result f s)" "rr_preflight (run_result f s) = Some (rf_preflight f)" by simp_all
qed

lemma env_iff_faulted:
  "fst (classifyVerificationFailure
     \<lparr>fi_preflight = Some (rf_preflight f), fi_runnerStatus = st, fi_reportOutcome = ro, fi_provisionMode = pm,
      fi_instanceLockContention = False, fi_runbookMismatch = False\<rparr>) = FcEnv \<longleftrightarrow> harness_faulted f"
  by (auto simp: classifyVerificationFailure_def env_evidence_def harness_faulted_def filter_empty_conv list_ex_iff)

lemma class_of_run:
  "st_class (settle_verdict (run_result f s)) =
     (if rr_status (run_result f s) \<in> {RqFailed, RqTimeout, RqSkipped} then
        Some (if harness_faulted f then FcEnv
              else if rr_provisionMode (run_result f s) = Some PvSnapshot \<and> \<not> rr_foreignSurface (run_result f s) \<and>
                      map_option rp_outcome (rr_report (run_result f s)) = Some RoFail then FcDeliverable
              else FcAmbiguous)
      else None)"
  by (auto simp: settle_verdict_def settle_class_def Let_def run_no_mismatch run_preflight classifyVerificationFailure_def
      env_evidence_def harness_faulted_def filter_empty_conv list_ex_iff)

lemma settled_status:
  "st_status (settle_verdict res) =
     (if rr_status res = RqFailed \<and> st_class (settle_verdict res) = Some FcEnv then RqSkipped
      else if isUnprovenAdvancingSkip res (st_class (settle_verdict res)) then RqFailed else rr_status res)"
  by (auto simp: settle_verdict_def Let_def)

lemma settled_passed: "st_status (settle_verdict res) = RqPassed \<longleftrightarrow> rr_status res = RqPassed"
  by (auto simp: settled_status isUnprovenAdvancingSkip_def)


section \<open>The identity of the surface\<close>

text \<open>The port's listener is in the group the driver recorded and that group's leader runs the composed command.\<close>

definition serve_holds_port :: "run_facts \<Rightarrow> bool" where
  "serve_holds_port f \<longleftrightarrow>
     (case (bp_servePid (rf_probes f), composed_cmd (rf_task f),
            if attach_cdp (rf_task f) then pt_driver (rf_ports f) else pt_verify (rf_ports f)) of
        (Some pid, Some cmd, Some port) \<Rightarrow>
          pid > 1 \<and>
          (case bp_listener (rf_probes f) port of
             Some listener \<Rightarrow> map_option fst (bp_process (rf_probes f) listener) = Some pid
           | None \<Rightarrow> False) \<and>
          (case bp_process (rf_probes f) pid of
             Some (g, leader) \<Rightarrow> serveCommandMatches leader cmd (pt_verify (rf_ports f))
           | None \<Rightarrow> False)
      | _ \<Rightarrow> False)"

lemma composed_cmd_iff: "hasComposedServeCmd t \<longleftrightarrow> composed_cmd t \<noteq> None"
  by (auto simp: hasComposedServeCmd_def composed_cmd_def split: option.splits)

lemma bound_holds_port:
  assumes "checkServeIdentityBinding bt (rf_probes f) = Bound d" and "bt_serveCmd bt = composed_cmd (rf_task f)"
    and "bt_probedPort bt = (if attach_cdp (rf_task f) then pt_driver (rf_ports f) else pt_verify (rf_ports f))"
    and "bt_portLever bt = pt_verify (rf_ports f)" and "composed_cmd (rf_task f) \<noteq> None"
  shows "serve_holds_port f"
  using assms
  by (auto simp: checkServeIdentityBinding_def serve_holds_port_def simp del: nat_text.simps
      split: option.splits prod.splits if_splits)

lemma target_shapes:
  "serveBindingTarget t s ports e = Some bt \<Longrightarrow>
     bt_serveCmd bt = composed_cmd t \<and> bt_probedPort bt = (if attach_cdp t then pt_driver ports else pt_verify ports) \<and>
     bt_portLever bt = pt_verify ports"
  "serveBindingOnlyTarget t ports = Some bt \<Longrightarrow>
     bt_serveCmd bt = composed_cmd t \<and> bt_probedPort bt = (if attach_cdp t then pt_driver ports else pt_verify ports) \<and>
     bt_portLever bt = pt_verify ports"
  by (auto simp: serveBindingTarget_def serveBindingOnlyTarget_def Let_def split: if_splits)

lemma bound_surface:
  assumes "bindServeIdentity (rf_task f) (rf_ports f) (rf_probes f) spec mode = Some (Bound d, c)"
    and "hasComposedServeCmd (rf_task f)"
  shows "serve_holds_port f"
proof -
  from assms(1) obtain bt where b: "checkServeIdentityBinding bt (rf_probes f) = Bound d"
    and bt: "serveBindingOnlyTarget (rf_task f) (rf_ports f) = Some bt \<or>
        (\<exists>s e. serveBindingTarget (rf_task f) s (rf_ports f) e = Some bt)"
    by (auto simp: bindServeIdentity_def Let_def split: option.splits AttestationSpec.splits)
  show ?thesis
    by (rule bound_holds_port [OF b]) (use bt assms(2) in \<open>auto dest: target_shapes simp: composed_cmd_iff\<close>)
qed

text \<open>What a verified floor says: the channel's own probe verified, and in explore mode the surface is the
  composed serve, the installed bundle or a bare file. The harness's own marker may fall back to the binding.\<close>

definition surface_identified :: "run_facts \<Rightarrow> bool" where
  "surface_identified f \<longleftrightarrow>
     (let explore = (rf_executionMode f = XmExplore);
          probed = (\<lambda>s. case rf_attest f s of Inr p \<Rightarrow> ha_verified p | Inl e \<Rightarrow> False)
      in explore \<and> serve_holds_port f \<and>
           (run_spec f = None \<or> rf_harnessMarker f \<and> markerUpgradesDeclaration (tk_attestation (rf_task f))) \<or>
         (case run_spec f of
            None \<Rightarrow> False
          | Some s \<Rightarrow>
              if s = FileIdentity then explore \<longrightarrow> isDegenerateFileTarget (rf_task f)
              else if s = ServeBinding then serve_holds_port f
              else probed s \<and> (explore \<longrightarrow> spec_kind s = AkBundle \<or> serve_holds_port f)))"

lemma identity_bound:
  assumes "snd (run_identity f) = Some (Bound d)" and "hasComposedServeCmd (rf_task f)"
  shows "serve_holds_port f"
proof -
  from assms(1) obtain spec c where
    "bindServeIdentity (rf_task f) (rf_ports f) (rf_probes f) spec (rf_executionMode f) = Some (Bound d, c)"
    by (auto simp: run_identity_def probeSurfaceIdentity_def Let_def binding_probe_def split: option.splits AttestationSpec.splits
        if_splits sum.splits)
  then show ?thesis using assms(2) by (rule bound_surface)
qed


lemma base_verified:
  "evaluateAttestationFloor spec probe = FloorVerified ch d \<Longrightarrow>
     \<exists>s. spec = Some s \<and> ch = spec_kind s \<and> (s = FileIdentity \<or> (\<exists>p. probe = Some p \<and> ha_verified p))"
  by (auto simp: evaluateAttestationFloor_def split: option.splits if_splits)

lemma floor_verified:
  assumes "floor_for_mode mode t spec probe binding = FloorVerified ch d"
  shows "spec = None \<and> mode = XmExplore \<and> hasComposedServeCmd t \<and> (\<exists>b. binding = Some (Bound b)) \<or>
    (\<exists>s. spec = Some s \<and> (s = ServeBinding \<longrightarrow> hasComposedServeCmd t) \<and>
       (s = FileIdentity \<or> (\<exists>p. probe = Some p \<and> ha_verified p)) \<and>
       (mode = XmExplore \<longrightarrow> spec_kind s \<in> {AkBundle, AkServe} \<or> s = FileIdentity \<and> isDegenerateFileTarget t \<or>
          hasComposedServeCmd t \<and> (\<exists>b. binding = Some (Bound b))))"
proof (cases "mode = XmExplore")
  case False
  then show ?thesis
    using assms by (cases spec) (auto simp: floor_for_mode_def Let_def dest!: base_verified split: if_splits)
next
  case True
  show ?thesis
  proof (cases spec)
    case None
    then show ?thesis
      using assms True
      by (auto simp: floor_for_mode_def Let_def evaluateAttestationFloor_def split: option.splits ServeBindingResult.splits
          bool.splits if_splits)
  next
    case (Some s)
    have base: "evaluateAttestationFloor spec probe = FloorVerified ch d"
      and rest: "ch \<in> {AkBundle, AkServe} \<or> ch = AkFile \<and> isDegenerateFileTarget t \<or>
          hasComposedServeCmd t \<and> (\<exists>b. binding = Some (Bound b))"
      and serve: "s = ServeBinding \<longrightarrow> hasComposedServeCmd t"
      using assms True Some
      by (auto simp: floor_for_mode_def Let_def split: option.splits ServeBindingResult.splits AttestationFloorOutcome.splits
          attest_kind.splits bool.splits if_splits)
    have "ch = spec_kind s" using base_verified [OF base] Some by auto
    moreover have "spec_kind s = AkFile \<Longrightarrow> s = FileIdentity" by (cases s) simp_all
    ultimately show ?thesis using base_verified [OF base] rest serve Some by auto
  qed
qed

lemma identity_probe:
  assumes "fst (run_identity f) = Some p" and "ha_verified p" and "run_spec f = Some s" and "s \<noteq> FileIdentity"
  shows "if s = ServeBinding then (\<exists>d. snd (run_identity f) = Some (Bound d))
         else rf_attest f s = Inr p"
  using assms
  by (cases s) (auto simp: run_identity_def probeSurfaceIdentity_def Let_def binding_probe_def split: option.splits
      ServeBindingResult.splits if_splits sum.splits)

lemma composed_undeclared [simp]:
  "hasComposedServeCmd (t\<lparr>tk_attestation := a\<rparr>) = hasComposedServeCmd t"
  "isDegenerateFileTarget (t\<lparr>tk_attestation := a\<rparr>) = isDegenerateFileTarget t"
  by (simp_all add: hasComposedServeCmd_def isDegenerateFileTarget_def)

end
