(* ===== verification/VerifyTask.thy ===== *)
theory VerifyTask
  imports VerifyVerdict VerifyReportProps
begin

text \<open>
  The validator of a composed verification task, \<open>parseVerificationTaskV1\<close> of shared/types/visualVerification.ts,
  with \<open>isAttestationSpec\<close>. A parsed task has no repeated behavior id and parses to itself. \<open>String(kind)\<close> of an
  unrecognised attestation kind, which only words the error, is the parameter \<open>show\<close>.
\<close>

section \<open>The validator\<close>

definition isAttestationSpec :: "jval \<Rightarrow> AttestationSpec option" where
  "isAttestationSpec v =
     (if \<not> isRecord v then None
      else case member_at attest_name ATTESTATION_KINDS ''kind'' v of
        None \<Rightarrow> None
      | Some AkHttp \<Rightarrow> map_option HttpEndpoint (nonempty_at ''urlPath'' v)
      | Some AkDom \<Rightarrow> map_option DomMarker (nonempty_at ''selector'' v)
      | Some AkCdp \<Rightarrow>
          (case (nonempty_at ''expression'' v, nonempty_at ''expected'' v) of
             (Some e, Some x) \<Rightarrow> Some (CdpToken e x)
           | _ \<Rightarrow> None)
      | Some AkWindow \<Rightarrow>
          (case (nonempty_at ''titlePattern'' v, nonempty_at ''app'' v) of
             (Some t, Some a) \<Rightarrow> Some (WindowIdentity t a)
           | _ \<Rightarrow> None)
      | Some AkBundle \<Rightarrow> map_option BundleIdentity (nonempty_at ''bundleId'' v)
      | Some AkFile \<Rightarrow> Some FileIdentity
      | Some AkServe \<Rightarrow> Some ServeBinding)"

text \<open>An optional member: absent, or read by \<open>f\<close>.\<close>

definition opt_at :: "string \<Rightarrow> (jval \<Rightarrow> 'e + 'a) \<Rightarrow> jval \<Rightarrow> 'e + 'a option" where
  "opt_at k f v = (case fld k v of None \<Rightarrow> Inr None | Some x \<Rightarrow> sbind (f x) (\<lambda>a. Inr (Some a)))"

definition as_text :: "'e \<Rightarrow> jval \<Rightarrow> 'e + string" where
  "as_text e v = (case v of JText s \<Rightarrow> Inr s | _ \<Rightarrow> Inl e)"

definition as_nonempty :: "'e \<Rightarrow> jval \<Rightarrow> 'e + string" where
  "as_nonempty e v = (case v of JText s \<Rightarrow> if trim s = [] then Inl e else Inr s | _ \<Rightarrow> Inl e)"

definition as_bool :: "'e \<Rightarrow> jval \<Rightarrow> 'e + bool" where
  "as_bool e v = (case v of JBool b \<Rightarrow> Inr b | _ \<Rightarrow> Inl e)"

definition as_texts :: "'e \<Rightarrow> jval \<Rightarrow> 'e + string list" where
  "as_texts e v = (case v of JArr vs \<Rightarrow> (case texts_of vs of Some ss \<Rightarrow> Inr ss | None \<Rightarrow> Inl e) | _ \<Rightarrow> Inl e)"

definition as_positive :: "'e \<Rightarrow> jval \<Rightarrow> 'e + rat" where
  "as_positive e v = (case v of JNum n \<Rightarrow> if 0 < n then Inr n else Inl e | _ \<Rightarrow> Inl e)"

definition parse_ready :: "jval \<Rightarrow> string + ready_when" where
  "parse_ready v =
     (if \<not> isRecord v then Inl ''serve.readyWhen: expected an object''
      else sbind (opt_at ''urlPath'' (as_text ''serve.readyWhen.urlPath: expected string'') v) (\<lambda>url.
        sbind (opt_at ''timeoutMs'' (as_positive ''serve.readyWhen.timeoutMs: expected positive finite number'') v) (\<lambda>ms.
          Inr \<lparr>rw_urlPath = url, rw_timeoutMs = ms\<rparr>)))"

definition parse_serve :: "jval \<Rightarrow> string + serve_step" where
  "parse_serve v =
     (if \<not> isRecord v then Inl ''serve: expected an object''
      else need (nonempty_at ''cmd'' v) ''serve.cmd: expected non-empty string'' (\<lambda>cmd.
        sbind (opt_at ''readyWhen'' parse_ready v) (\<lambda>ready.
        sbind (opt_at ''attach'' (\<lambda>a. if a = JText ''cdp'' then Inr ()
                 else Inl (''serve.attach: expected the string '' @ sq ''cdp'' @ '' when present'')) v) (\<lambda>attach.
          Inr \<lparr>sv_cmd = cmd, sv_readyWhen = ready, sv_attach_cdp = (attach \<noteq> None)\<rparr>))))"

definition parse_target :: "jval \<Rightarrow> string + verify_target" where
  "parse_target v =
     (if \<not> isRecord v then Inl ''target: expected an object''
      else sbind (opt_at ''url'' (as_text ''target.url: expected string'') v) (\<lambda>url.
        sbind (opt_at ''htmlPath'' (as_text ''target.htmlPath: expected string'') v) (\<lambda>path.
          Inr \<lparr>tg_url = url, tg_htmlPath = path\<rparr>)))"

definition parse_modality :: "jval \<Rightarrow> string + VerificationModality" where
  "parse_modality v =
     (case v of
        JText s \<Rightarrow>
          need (find (\<lambda>mo. modality_name mo = s) VERIFICATION_MODALITIES)
            ''modality: expected one of web|cdp-app|native-screen|mobile'' Inr
      | _ \<Rightarrow> Inl ''modality: expected one of web|cdp-app|native-screen|mobile'')"

definition parse_attestation_spec :: "(jval \<Rightarrow> string) \<Rightarrow> jval \<Rightarrow> string + AttestationSpec" where
  "parse_attestation_spec show v =
     need (isAttestationSpec v)
       (case fld ''kind'' v of
          Some k \<Rightarrow> ''attestation: malformed or unrecognized spec for kind '' @ dq (show k)
        | None \<Rightarrow> ''attestation: expected an object with a valid '' @ dq ''kind'') Inr"

definition parse_task_behavior :: "string list \<Rightarrow> nat \<Rightarrow> jval \<Rightarrow> string + task_behavior" where
  "parse_task_behavior seen i v =
     (let path = at_index ''behaviors'' i in
      if \<not> isRecord v then Inl (path @ '': expected an object'')
      else need (nonempty_at ''id'' v) (path @ ''.id: expected non-empty string'') (\<lambda>id.
        if List.member seen id then Inl (path @ ''.id: duplicate behavior id '' @ dq id)
        else need (nonempty_at ''description'' v) (path @ ''.description: expected non-empty string'') (\<lambda>descr.
          need (nonempty_at ''expected'' v) (path @ ''.expected: expected non-empty string'') (\<lambda>expected.
            sbind (opt_at ''steps'' (as_texts (path @ ''.steps: expected an array of strings'')) v) (\<lambda>steps.
            sbind (opt_at ''requiresDrive'' (as_bool (path @ ''.requiresDrive: expected boolean'')) v) (\<lambda>drive.
              Inr \<lparr>tb_id = id, tb_description = descr, tb_expected = expected, tb_steps = steps,
                   tb_requiresDrive = drive\<rparr>))))))"

fun parse_task_behaviors :: "string list \<Rightarrow> nat \<Rightarrow> jval list \<Rightarrow> string + task_behavior list" where
  "parse_task_behaviors seen i [] = Inr []"
| "parse_task_behaviors seen i (v # vs) =
     sbind (parse_task_behavior seen i v) (\<lambda>b.
       sbind (parse_task_behaviors (tb_id b # seen) (Suc i) vs) (\<lambda>bs. Inr (b # bs)))"

definition parse_viewport :: "nat \<Rightarrow> jval \<Rightarrow> string + ViewportSpec" where
  "parse_viewport i v =
     (let path = at_index ''viewports'' i in
      if \<not> isRecord v then Inl (path @ '': expected an object'')
      else need (fld ''width'' v) (path @ ''.width: expected positive finite number'') (\<lambda>w.
        sbind (as_positive (path @ ''.width: expected positive finite number'') w) (\<lambda>width.
        need (fld ''height'' v) (path @ ''.height: expected positive finite number'') (\<lambda>h.
        sbind (as_positive (path @ ''.height: expected positive finite number'') h) (\<lambda>height.
        sbind (opt_at ''label'' (as_text (path @ ''.label: expected string'')) v) (\<lambda>label.
          Inr \<lparr>vp_width = width, vp_height = height, vp_label = label\<rparr>))))))"

definition parse_viewports :: "jval \<Rightarrow> string + ViewportSpec list" where
  "parse_viewports v = (case v of JArr vs \<Rightarrow> each parse_viewport 0 vs | _ \<Rightarrow> Inl ''viewports: expected an array'')"

definition parseVerificationTaskV1 :: "(jval \<Rightarrow> string) \<Rightarrow> jval \<Rightarrow> string + VerificationTaskV1" where
  "parseVerificationTaskV1 show v =
     (if \<not> isRecord v then Inl ''root: expected an object''
      else if fld ''version'' v \<noteq> Some (JNum 1) then Inl ''version: expected literal 1''
      else need (nonempty_at ''summary'' v) ''summary: expected non-empty string'' (\<lambda>summary.
        sbind (opt_at ''taskRef'' (as_nonempty ''taskRef: expected non-empty string'') v) (\<lambda>taskRef.
        sbind (opt_at ''build'' (as_texts ''build: expected an array of strings'') v) (\<lambda>build.
        sbind (opt_at ''serve'' parse_serve v) (\<lambda>serve.
        sbind (opt_at ''app'' (\<lambda>a. parseMobileAppSpec a ''app'') v) (\<lambda>app.
        sbind (opt_at ''target'' parse_target v) (\<lambda>target.
        sbind (opt_at ''modality'' parse_modality v) (\<lambda>modality.
        sbind (opt_at ''attestation'' (parse_attestation_spec show) v) (\<lambda>attestation.
        need (array_at ''behaviors'' v) ''behaviors: expected an array'' (\<lambda>bs.
        sbind (parse_task_behaviors [] 0 bs) (\<lambda>behaviors.
        sbind (opt_at ''viewports'' parse_viewports v) (\<lambda>viewports.
        sbind (opt_at ''timeoutMs'' (as_positive ''timeoutMs: expected positive finite number'') v) (\<lambda>timeoutMs.
          Inr \<lparr>tk_taskRef = taskRef, tk_summary = summary, tk_build = build, tk_serve = serve, tk_app = app,
               tk_target = target, tk_modality = modality, tk_attestation = attestation, tk_behaviors = behaviors,
               tk_viewports = viewports, tk_timeoutMs = timeoutMs\<rparr>)))))))))))))"


section \<open>Serialisation\<close>

definition spec_json :: "AttestationSpec \<Rightarrow> jval" where
  "spec_json a =
     JObj ((''kind'', JText (attest_name (spec_kind a))) #
           (case a of
              HttpEndpoint u \<Rightarrow> [(''urlPath'', JText u)]
            | DomMarker s \<Rightarrow> [(''selector'', JText s)]
            | CdpToken e x \<Rightarrow> [(''expression'', JText e), (''expected'', JText x)]
            | WindowIdentity t p \<Rightarrow> [(''titlePattern'', JText t), (''app'', JText p)]
            | BundleIdentity b \<Rightarrow> [(''bundleId'', JText b)]
            | FileIdentity \<Rightarrow> []
            | ServeBinding \<Rightarrow> []))"

definition ready_json :: "ready_when \<Rightarrow> jval" where
  "ready_json w = JObj (member_json ''urlPath'' JText (rw_urlPath w) @ member_json ''timeoutMs'' JNum (rw_timeoutMs w))"

definition serve_json :: "serve_step \<Rightarrow> jval" where
  "serve_json s =
     JObj ((''cmd'', JText (sv_cmd s)) # member_json ''readyWhen'' ready_json (sv_readyWhen s) @
           (if sv_attach_cdp s then [(''attach'', JText ''cdp'')] else []))"

definition target_json :: "verify_target \<Rightarrow> jval" where
  "target_json g = JObj (member_json ''url'' JText (tg_url g) @ member_json ''htmlPath'' JText (tg_htmlPath g))"

definition texts_json :: "string list \<Rightarrow> jval" where
  "texts_json ss = JArr (map JText ss)"

definition task_behavior_json :: "task_behavior \<Rightarrow> jval" where
  "task_behavior_json b =
     JObj ([(''id'', JText (tb_id b)), (''description'', JText (tb_description b)), (''expected'', JText (tb_expected b))] @
           member_json ''steps'' texts_json (tb_steps b) @ member_json ''requiresDrive'' JBool (tb_requiresDrive b))"

definition viewport_json :: "ViewportSpec \<Rightarrow> jval" where
  "viewport_json w =
     JObj ([(''width'', JNum (vp_width w)), (''height'', JNum (vp_height w))] @ member_json ''label'' JText (vp_label w))"

definition task_json :: "VerificationTaskV1 \<Rightarrow> jval" where
  "task_json t =
     JObj ([(''version'', JNum 1), (''summary'', JText (tk_summary t)),
            (''behaviors'', JArr (map task_behavior_json (tk_behaviors t)))] @
           member_json ''taskRef'' JText (tk_taskRef t) @ member_json ''build'' texts_json (tk_build t) @
           member_json ''serve'' serve_json (tk_serve t) @ member_json ''app'' app_json (tk_app t) @
           member_json ''target'' target_json (tk_target t) @
           member_json ''modality'' (JText \<circ> modality_name) (tk_modality t) @
           member_json ''attestation'' spec_json (tk_attestation t) @
           member_json ''viewports'' (JArr \<circ> map viewport_json) (tk_viewports t) @
           member_json ''timeoutMs'' JNum (tk_timeoutMs t))"

section \<open>Validated tasks\<close>

definition all_opt :: "('a \<Rightarrow> bool) \<Rightarrow> 'a option \<Rightarrow> bool" where
  "all_opt P x = (case x of None \<Rightarrow> True | Some a \<Rightarrow> P a)"

definition spec_ok :: "AttestationSpec \<Rightarrow> bool" where
  "spec_ok a \<longleftrightarrow>
     (case a of
        HttpEndpoint u \<Rightarrow> trim u \<noteq> []
      | DomMarker s \<Rightarrow> trim s \<noteq> []
      | CdpToken e x \<Rightarrow> trim e \<noteq> [] \<and> trim x \<noteq> []
      | WindowIdentity t p \<Rightarrow> trim t \<noteq> [] \<and> trim p \<noteq> []
      | BundleIdentity b \<Rightarrow> trim b \<noteq> []
      | _ \<Rightarrow> True)"

definition ready_ok :: "ready_when \<Rightarrow> bool" where
  "ready_ok w \<longleftrightarrow> all_opt ((<) 0) (rw_timeoutMs w)"

definition serve_ok :: "serve_step \<Rightarrow> bool" where
  "serve_ok s \<longleftrightarrow> trim (sv_cmd s) \<noteq> [] \<and> all_opt ready_ok (sv_readyWhen s)"

definition task_behavior_ok :: "task_behavior \<Rightarrow> bool" where
  "task_behavior_ok b \<longleftrightarrow> trim (tb_id b) \<noteq> [] \<and> trim (tb_description b) \<noteq> [] \<and> trim (tb_expected b) \<noteq> []"

definition viewport_ok :: "ViewportSpec \<Rightarrow> bool" where
  "viewport_ok w \<longleftrightarrow> 0 < vp_width w \<and> 0 < vp_height w"

definition task_ok :: "VerificationTaskV1 \<Rightarrow> bool" where
  "task_ok t \<longleftrightarrow>
     trim (tk_summary t) \<noteq> [] \<and> all_opt (\<lambda>s. trim s \<noteq> []) (tk_taskRef t) \<and> all_opt serve_ok (tk_serve t) \<and>
     all_opt app_ok (tk_app t) \<and> all_opt spec_ok (tk_attestation t) \<and>
     list_all task_behavior_ok (tk_behaviors t) \<and> distinct (map tb_id (tk_behaviors t)) \<and>
     all_opt (list_all viewport_ok) (tk_viewports t) \<and> all_opt ((<) 0) (tk_timeoutMs t)"

lemma opt_at_json:
  "fld k v = map_option g x \<Longrightarrow> all_opt (\<lambda>a. f (g a) = Inr a) x \<Longrightarrow> opt_at k f v = Inr x"
  by (cases x) (simp_all add: opt_at_def all_opt_def sbind_def)

lemma opt_at_ok: "opt_at k f v = Inr x \<Longrightarrow> (\<And>w a. f w = Inr a \<Longrightarrow> P a) \<Longrightarrow> all_opt P x"
  by (auto simp: opt_at_def all_opt_def sbind_Inr split: option.splits)

lemma all_opt_mono: "all_opt P x \<Longrightarrow> (\<And>a. P a \<Longrightarrow> Q a) \<Longrightarrow> all_opt Q x"
  by (auto simp: all_opt_def split: option.splits)

lemma all_opt_True: "(\<And>a. P a) \<Longrightarrow> all_opt P x"
  by (auto simp: all_opt_def split: option.splits)

lemma as_json [report_simps]:
  "as_text e (JText s) = Inr s" "as_texts e (texts_json ss) = Inr ss" "as_bool e (JBool b) = Inr b"
  by (simp_all add: as_text_def as_texts_def as_bool_def texts_json_def report_simps)

lemma as_ok: "as_nonempty e v = Inr s \<Longrightarrow> trim s \<noteq> []" "as_positive e v = Inr n \<Longrightarrow> 0 < n"
  by (auto simp: as_nonempty_def as_positive_def split: jval.splits if_splits)

lemma spec_json_parses: "spec_ok a \<Longrightarrow> isAttestationSpec (spec_json a) = Some a"
  by (cases a) (auto simp: isAttestationSpec_def spec_json_def spec_ok_def reading member_at_def report_simps)

lemma spec_parsed_ok: "isAttestationSpec v = Some a \<Longrightarrow> spec_ok a"
  by (auto simp: isAttestationSpec_def spec_ok_def nonempty_at_def split: if_splits option.splits attest_kind.splits)

lemma ready_json_parses: "ready_ok w \<Longrightarrow> parse_ready (ready_json w) = Inr w"
proof -
  assume ok: "ready_ok w"
  have "opt_at ''urlPath'' (as_text e) (ready_json w) = Inr (rw_urlPath w)" for e :: string
    by (rule opt_at_json [where g = JText])
      (auto simp: ready_json_def fld_def map_of_member_json map_of_member_last report_simps map_option_case
        simp del: map_of_append split: option.split intro: all_opt_True)
  moreover have "opt_at ''timeoutMs'' (as_positive e) (ready_json w) = Inr (rw_timeoutMs w)" for e :: string
    by (rule opt_at_json [where g = JNum])
      (use ok in \<open>auto simp: ready_json_def fld_def map_of_member_json map_of_member_last map_option_case ready_ok_def as_positive_def
        all_opt_def simp del: map_of_append split: option.split\<close>)
  ultimately show ?thesis by (simp add: parse_ready_def isRecord_def ready_json_def sbind_def)
qed


lemmas json_reading = fld_def map_of_member_json map_of_member_last map_option_case

lemma serve_json_parses: "serve_ok s \<Longrightarrow> parse_serve (serve_json s) = Inr s"
proof -
  assume ok: "serve_ok s"
  have "opt_at ''readyWhen'' parse_ready (serve_json s) = Inr (sv_readyWhen s)"
    by (rule opt_at_json [where g = ready_json])
      (use ok in \<open>auto simp: serve_json_def json_reading serve_ok_def all_opt_def ready_json_parses simp del: map_of_append
        split: option.split\<close>)
  moreover have "opt_at ''attach'' (\<lambda>a. if a = JText ''cdp'' then Inr () else Inl e) (serve_json s) =
      Inr (if sv_attach_cdp s then Some () else None)" for e :: string
    by (simp add: opt_at_def serve_json_def json_reading sbind_def del: map_of_append)
  moreover have "nonempty_at ''cmd'' (serve_json s) = Some (sv_cmd s)"
    using ok by (simp add: nonempty_at_def text_at_def serve_json_def json_reading serve_ok_def del: map_of_append)
  moreover have "isRecord (serve_json s)" by (simp add: isRecord_def serve_json_def)
  ultimately show ?thesis by (simp add: parse_serve_def need_def sbind_def)
qed

lemma target_json_parses: "parse_target (target_json g) = Inr g"
proof -
  have "opt_at ''url'' (as_text e) (target_json g) = Inr (tg_url g)"
    and "opt_at ''htmlPath'' (as_text e) (target_json g) = Inr (tg_htmlPath g)" for e :: string
    by (rule opt_at_json [where g = JText],
        auto simp: target_json_def json_reading report_simps simp del: map_of_append split: option.split intro: all_opt_True)+
  then show ?thesis by (simp add: parse_target_def isRecord_def target_json_def sbind_def)
qed

lemma task_behavior_json_parses:
  assumes "task_behavior_ok b" and "\<not> List.member seen (tb_id b)"
  shows "parse_task_behavior seen i (task_behavior_json b) = Inr b"
proof -
  have "opt_at ''steps'' (as_texts e) (task_behavior_json b) = Inr (tb_steps b)" for e :: string
    by (rule opt_at_json [where g = texts_json])
      (auto simp: task_behavior_json_def json_reading report_simps simp del: map_of_append split: option.split intro: all_opt_True)
  moreover have "opt_at ''requiresDrive'' (as_bool e) (task_behavior_json b) = Inr (tb_requiresDrive b)" for e :: string
    by (rule opt_at_json [where g = JBool])
      (auto simp: task_behavior_json_def json_reading report_simps simp del: map_of_append split: option.split intro: all_opt_True)
  moreover have "nonempty_at ''id'' (task_behavior_json b) = Some (tb_id b)"
    "nonempty_at ''description'' (task_behavior_json b) = Some (tb_description b)"
    "nonempty_at ''expected'' (task_behavior_json b) = Some (tb_expected b)"
    using assms(1)
    by (simp_all add: nonempty_at_def text_at_def task_behavior_json_def json_reading task_behavior_ok_def del: map_of_append)
  ultimately show ?thesis
    using assms(2) by (simp add: parse_task_behavior_def Let_def need_def sbind_def isRecord_def task_behavior_json_def)
qed

lemma viewport_json_parses: "viewport_ok w \<Longrightarrow> parse_viewport i (viewport_json w) = Inr w"
proof -
  assume ok: "viewport_ok w"
  have "opt_at ''label'' (as_text e) (viewport_json w) = Inr (vp_label w)" for e :: string
    by (rule opt_at_json [where g = JText])
      (auto simp: viewport_json_def json_reading report_simps simp del: map_of_append split: option.split intro: all_opt_True)
  moreover have "fld ''width'' (viewport_json w) = Some (JNum (vp_width w))" "fld ''height'' (viewport_json w) = Some (JNum (vp_height w))"
    by (simp_all add: viewport_json_def json_reading del: map_of_append)
  ultimately show ?thesis
    using ok by (simp add: parse_viewport_def Let_def need_def sbind_def isRecord_def viewport_json_def as_positive_def viewport_ok_def)
qed

lemma member_set: "List.member xs x \<longleftrightarrow> x \<in> set xs"
  by (induction xs) auto

lemma task_behaviors_json_parse:
  "list_all task_behavior_ok bs \<Longrightarrow> distinct (map tb_id bs) \<Longrightarrow> set seen \<inter> tb_id ` set bs = {} \<Longrightarrow>
   parse_task_behaviors seen i (map task_behavior_json bs) = Inr bs"
proof (induction bs arbitrary: seen i)
  case (Cons b bs)
  have "parse_task_behavior seen i (task_behavior_json b) = Inr b"
    using Cons.prems by (intro task_behavior_json_parses) (auto simp: member_set)
  moreover have "parse_task_behaviors (tb_id b # seen) (Suc i) (map task_behavior_json bs) = Inr bs"
    using Cons.prems by (intro Cons.IH) auto
  ultimately show ?case by (simp add: sbind_def)
qed simp

lemma task_behaviors_parsed:
  "parse_task_behaviors seen i vs = Inr bs \<Longrightarrow>
   list_all task_behavior_ok bs \<and> distinct (map tb_id bs) \<and> set seen \<inter> tb_id ` set bs = {}"
proof (induction seen i vs arbitrary: bs rule: parse_task_behaviors.induct)
  case (2 seen i v vs)
  then obtain b bs' where b: "parse_task_behavior seen i v = Inr b" and bs: "bs = b # bs'"
    and r: "parse_task_behaviors (tb_id b # seen) (Suc i) vs = Inr bs'" by (auto simp: sbind_Inr)
  have "task_behavior_ok b" "tb_id b \<notin> set seen"
    using b by (auto simp: parse_task_behavior_def Let_def need_Inr sbind_Inr task_behavior_ok_def nonempty_at_def member_set
        split: if_splits option.splits)
  then show ?case using "2.IH" [OF r] bs by auto
qed simp


lemma serve_parsed_ok: "parse_serve v = Inr s \<Longrightarrow> serve_ok s"
proof -
  assume p: "parse_serve v = Inr s"
  have "parse_ready w = Inr r \<Longrightarrow> ready_ok r" for w r
    by (auto simp: parse_ready_def sbind_Inr ready_ok_def split: if_splits intro: opt_at_ok as_ok)
  then show ?thesis
    using p by (auto simp: parse_serve_def need_Inr sbind_Inr serve_ok_def nonempty_at_def
        split: if_splits option.splits intro: opt_at_ok)
qed

lemma viewport_parsed_ok: "parse_viewport i v = Inr w \<Longrightarrow> viewport_ok w"
  by (auto simp: parse_viewport_def Let_def need_Inr sbind_Inr viewport_ok_def dest: as_ok split: if_splits)

lemma task_members:
  "fld ''version'' (task_json t) = Some (JNum 1)"
  "fld ''summary'' (task_json t) = Some (JText (tk_summary t))"
  "fld ''behaviors'' (task_json t) = Some (JArr (map task_behavior_json (tk_behaviors t)))"
  "fld ''taskRef'' (task_json t) = map_option JText (tk_taskRef t)"
  "fld ''build'' (task_json t) = map_option texts_json (tk_build t)"
  "fld ''serve'' (task_json t) = map_option serve_json (tk_serve t)"
  "fld ''app'' (task_json t) = map_option app_json (tk_app t)"
  "fld ''target'' (task_json t) = map_option target_json (tk_target t)"
  "fld ''modality'' (task_json t) = map_option (JText \<circ> modality_name) (tk_modality t)"
  "fld ''attestation'' (task_json t) = map_option spec_json (tk_attestation t)"
  "fld ''viewports'' (task_json t) = map_option (JArr \<circ> map viewport_json) (tk_viewports t)"
  "fld ''timeoutMs'' (task_json t) = map_option JNum (tk_timeoutMs t)"
  unfolding task_json_def fld_def
  by (simp_all add: map_of_member_json map_of_member_last map_option_case del: map_of_append split: option.split)

lemma if_Inr: "(if b then Inl e else x) = Inr r \<longleftrightarrow> \<not> b \<and> x = Inr r"
  by auto

lemma task_parsed:
  assumes "parseVerificationTaskV1 show v = Inr t"
  obtains summary taskRef bld srv app target modality att bs behaviors vps ms where
    "nonempty_at ''summary'' v = Some summary"
    "opt_at ''taskRef'' (as_nonempty ''taskRef: expected non-empty string'') v = Inr taskRef"
    "opt_at ''serve'' parse_serve v = Inr srv" "opt_at ''app'' (\<lambda>a. parseMobileAppSpec a ''app'') v = Inr app"
    "opt_at ''attestation'' (parse_attestation_spec show) v = Inr att" "parse_task_behaviors [] 0 bs = Inr behaviors"
    "opt_at ''viewports'' parse_viewports v = Inr vps"
    "opt_at ''timeoutMs'' (as_positive ''timeoutMs: expected positive finite number'') v = Inr ms"
    "\<lparr>tk_taskRef = taskRef, tk_summary = summary, tk_build = bld, tk_serve = srv, tk_app = app,
      tk_target = target, tk_modality = modality, tk_attestation = att, tk_behaviors = behaviors,
      tk_viewports = vps, tk_timeoutMs = ms\<rparr> = t"
  using assms
  apply (simp only: parseVerificationTaskV1_def if_Inr need_Inr sbind_Inr sum.inject)
  apply (elim exE conjE)
  apply (rule that)
  apply assumption+
  done

lemma parsed_task_ok:
  assumes "parseVerificationTaskV1 show v = Inr t"
  shows "task_ok t"
proof -
  have app: "parseMobileAppSpec w ''app'' = Inr a \<Longrightarrow> app_ok a" for w a by (rule parse_app_ok)
  have att: "parse_attestation_spec show w = Inr a \<Longrightarrow> spec_ok a" for w a
    by (auto simp: parse_attestation_spec_def need_Inr intro: spec_parsed_ok)
  have vps: "parse_viewports w = Inr ws \<Longrightarrow> list_all viewport_ok ws" for w ws
    by (simp add: parse_viewports_def split: jval.splits) (erule each_all, rule viewport_parsed_ok)
  show ?thesis
    using assms
  proof (rule task_parsed)
    fix summary taskRef bld srv app target modality att bs behaviors vps ms
    assume p: "nonempty_at ''summary'' v = Some summary"
       "opt_at ''taskRef'' (as_nonempty ''taskRef: expected non-empty string'') v = Inr taskRef"
       "opt_at ''serve'' parse_serve v = Inr srv" "opt_at ''app'' (\<lambda>a. parseMobileAppSpec a ''app'') v = Inr app"
       "opt_at ''attestation'' (parse_attestation_spec show) v = Inr att" "parse_task_behaviors [] 0 bs = Inr behaviors"
       "opt_at ''viewports'' parse_viewports v = Inr vps"
       "opt_at ''timeoutMs'' (as_positive ''timeoutMs: expected positive finite number'') v = Inr ms"
    assume t: "\<lparr>tk_taskRef = taskRef, tk_summary = summary, tk_build = bld, tk_serve = srv, tk_app = app,
               tk_target = target, tk_modality = modality, tk_attestation = att, tk_behaviors = behaviors,
               tk_viewports = vps, tk_timeoutMs = ms\<rparr> = t"
  have "trim summary \<noteq> []" using p(1) by (auto simp: nonempty_at_def split: option.splits if_splits)
  moreover have "all_opt (\<lambda>s. trim s \<noteq> []) taskRef" using p(2) by (rule opt_at_ok) (rule as_ok)
  moreover have "all_opt serve_ok srv" using p(3) by (rule opt_at_ok) (rule serve_parsed_ok)
  moreover have "all_opt app_ok app" using p(4) by (rule opt_at_ok) (rule app)
  moreover have "all_opt spec_ok att" using p(5) by (rule opt_at_ok) (rule att)
  moreover have "all_opt (list_all viewport_ok) vps" using p(7) by (rule opt_at_ok) (rule vps)
  moreover have "all_opt ((<) 0) ms" using p(8) by (rule opt_at_ok) (rule as_ok)
  ultimately show ?thesis using task_behaviors_parsed [OF p(6)] by (simp add: task_ok_def flip: t)
  qed
qed

lemma task_json_parses:
  assumes "task_ok t"
  shows "parseVerificationTaskV1 show (task_json t) = Inr t"
proof -
  note ok = assms [unfolded task_ok_def]
  have 1: "opt_at ''taskRef'' (as_nonempty e) (task_json t) = Inr (tk_taskRef t)" for e :: string
    by (rule opt_at_json [OF task_members(4)]) (use ok in \<open>auto elim!: all_opt_mono simp: as_nonempty_def\<close>)
  have 2: "opt_at ''build'' (as_texts e) (task_json t) = Inr (tk_build t)" for e :: string
    by (rule opt_at_json [OF task_members(5)]) (auto intro: all_opt_True simp: report_simps)
  have 3: "opt_at ''serve'' parse_serve (task_json t) = Inr (tk_serve t)"
    by (rule opt_at_json [OF task_members(6)]) (use ok in \<open>auto elim!: all_opt_mono simp: serve_json_parses\<close>)
  have 4: "opt_at ''app'' (\<lambda>a. parseMobileAppSpec a ''app'') (task_json t) = Inr (tk_app t)"
    by (rule opt_at_json [OF task_members(7)]) (use ok in \<open>auto elim!: all_opt_mono simp: parse_app_json\<close>)
  have 5: "opt_at ''target'' parse_target (task_json t) = Inr (tk_target t)"
    by (rule opt_at_json [OF task_members(8)]) (auto intro: all_opt_True simp: target_json_parses)
  have 6: "opt_at ''modality'' parse_modality (task_json t) = Inr (tk_modality t)"
    by (rule opt_at_json [OF task_members(9)]) (auto intro: all_opt_True simp: parse_modality_def report_simps need_def)
  have 7: "opt_at ''attestation'' (parse_attestation_spec show) (task_json t) = Inr (tk_attestation t)"
    by (rule opt_at_json [OF task_members(10)])
      (use ok in \<open>auto elim!: all_opt_mono simp: parse_attestation_spec_def spec_json_parses need_def\<close>)
  have 8: "parse_task_behaviors [] 0 (map task_behavior_json (tk_behaviors t)) = Inr (tk_behaviors t)"
    using ok by (intro task_behaviors_json_parse) auto
  have vw: "list_all viewport_ok ws \<Longrightarrow> each parse_viewport 0 (map viewport_json ws) = Inr ws" for ws
    by (rule each_map) (auto simp: list_all_iff intro: viewport_json_parses)
  have 9: "opt_at ''viewports'' parse_viewports (task_json t) = Inr (tk_viewports t)"
    by (rule opt_at_json [OF task_members(11)]) (use ok in \<open>auto elim!: all_opt_mono simp: parse_viewports_def vw\<close>)
  have 10: "opt_at ''timeoutMs'' (as_positive e) (task_json t) = Inr (tk_timeoutMs t)" for e :: string
    by (rule opt_at_json [OF task_members(12)]) (use ok in \<open>auto elim!: all_opt_mono simp: as_positive_def\<close>)
  have 11: "nonempty_at ''summary'' (task_json t) = Some (tk_summary t)"
    using ok by (simp add: nonempty_at_def text_at_def task_members)
  have 12: "array_at ''behaviors'' (task_json t) = Some (map task_behavior_json (tk_behaviors t))"
    by (simp add: array_at_def task_members)
  have "isRecord (task_json t)" by (simp add: isRecord_def task_json_def)
  then show ?thesis
    by (simp add: parseVerificationTaskV1_def task_members(1) need_def sbind_def 1 2 3 4 5 6 7 8 9 10 11 12)
qed

end
