(* ===== verification/VerifyClaims.thy ===== *)
theory VerifyClaims
  imports VerifyRunProps VerifyTask
begin

text \<open>
  The properties of a settled verification, over the lemmas of \<open>VerifyRunProps\<close>.
\<close>

lemma marker_mode:
  assumes "evaluateAttestationFloorForMode mode t spec probe binding marker = FloorVerified ch d"
  shows "floor_for_mode mode t spec probe binding = FloorVerified ch d \<or>
    marker \<and> markerUpgradesDeclaration (tk_attestation t) \<and>
      (floor_for_mode mode (t\<lparr>tk_attestation := None\<rparr>) spec probe binding = FloorVerified ch d \<or>
       floor_for_mode mode (t\<lparr>tk_attestation := None\<rparr>) None None binding = FloorVerified ch d)"
  using assms by (auto simp: evaluateAttestationFloorForMode_def Let_def split: if_splits AttestationFloorOutcome.splits)

lemma floor_identifies:
  assumes "floor_for_mode (rf_executionMode f) t (run_spec f) (fst (run_identity f)) (snd (run_identity f)) = FloorVerified ch d"
    and "t = rf_task f \<or> t = (rf_task f)\<lparr>tk_attestation := None\<rparr>"
  shows "surface_identified f"
proof -
  have same: "hasComposedServeCmd t = hasComposedServeCmd (rf_task f)" "isDegenerateFileTarget t = isDegenerateFileTarget (rf_task f)"
    using assms(2) by auto
  have held: "hasComposedServeCmd t \<Longrightarrow> snd (run_identity f) = Some (Bound b) \<Longrightarrow> serve_holds_port f" for b
    using identity_bound same by simp
  show ?thesis
    using floor_verified [OF assms(1)]
  proof (elim disjE conjE exE)
    fix b assume "run_spec f = None" "rf_executionMode f = XmExplore" "hasComposedServeCmd t" "snd (run_identity f) = Some (Bound b)"
    then show ?thesis using held by (simp add: surface_identified_def)
  next
    fix s assume s: "run_spec f = Some s" "s = FileIdentity"
      "rf_executionMode f = XmExplore \<longrightarrow> spec_kind s \<in> {AkBundle, AkServe} \<or> s = FileIdentity \<and> isDegenerateFileTarget t \<or>
          hasComposedServeCmd t \<and> (\<exists>b. snd (run_identity f) = Some (Bound b))"
    then have "snd (run_identity f) = None" by (simp add: run_identity_def probeSurfaceIdentity_def)
    then show ?thesis using s same by (simp add: surface_identified_def)
  next
    fix s p assume s: "run_spec f = Some s" "s = ServeBinding \<longrightarrow> hasComposedServeCmd t"
      "fst (run_identity f) = Some p" "ha_verified p"
      "rf_executionMode f = XmExplore \<longrightarrow> spec_kind s \<in> {AkBundle, AkServe} \<or> s = FileIdentity \<and> isDegenerateFileTarget t \<or>
          hasComposedServeCmd t \<and> (\<exists>b. snd (run_identity f) = Some (Bound b))"
    have nf: "s \<noteq> FileIdentity" using s(1,3) by (auto simp: run_identity_def probeSurfaceIdentity_def)
    note probe = identity_probe [OF s(3,4,1) nf]
    have "spec_kind s = AkServe \<longrightarrow> s = ServeBinding" by (cases s) simp_all
    then show ?thesis
      using s(1,2,4,5) nf probe held same by (cases "s = ServeBinding") (auto simp: surface_identified_def Let_def)
  qed
qed

lemma verified_identifies: "run_floor f = FloorVerified ch d \<Longrightarrow> surface_identified f"
proof -
  assume v: "run_floor f = FloorVerified ch d"
  show ?thesis
    using marker_mode [OF v [unfolded run_floor_def]]
  proof (elim disjE conjE)
    assume m: "rf_harnessMarker f" "markerUpgradesDeclaration (tk_attestation (rf_task f))"
      and n: "floor_for_mode (rf_executionMode f) (rf_task f\<lparr>tk_attestation := None\<rparr>) None None (snd (run_identity f)) = FloorVerified ch d"
    from floor_verified [OF n] have "rf_executionMode f = XmExplore" "hasComposedServeCmd (rf_task f)"
      "\<exists>b. snd (run_identity f) = Some (Bound b)" by auto
    then show ?thesis using m identity_bound by (auto simp: surface_identified_def)
  qed (auto intro: floor_identifies)
qed

lemma harness_report_fails:
  "harness_report f r = (r', n) \<Longrightarrow> list_ex (\<lambda>b. bh_result b = BrFail) (rp_behaviors r') \<Longrightarrow>
   list_ex (\<lambda>b. bh_result b = BrFail) (rp_behaviors r)"
  by (auto simp: harness_report_def coerceDriveUnsupportedBehaviors_def Let_def verdict_simps list_ex_iff strike_def
      split: if_splits prod.splits)




section \<open>An example\<close>

text \<open>A bare file to look at, one expected behavior, and what the session may return.\<close>

definition ex_task :: VerificationTaskV1 where
  "ex_task = \<lparr>tk_taskRef = None, tk_summary = ''page'', tk_build = None, tk_serve = None, tk_app = None,
     tk_target = Some \<lparr>tg_url = None, tg_htmlPath = Some ''index.html''\<rparr>, tk_modality = None, tk_attestation = None,
     tk_behaviors = [\<lparr>tb_id = ''b1'', tb_description = ''title'', tb_expected = ''shown'', tb_steps = None,
       tb_requiresDrive = None\<rparr>],
     tk_viewports = None, tk_timeoutMs = None\<rparr>"

definition ex_facts :: "VerificationExecutionMode \<Rightarrow> provision \<Rightarrow> PreflightCheckResult list \<Rightarrow> run_facts" where
  "ex_facts mode prov checks =
     \<lparr>rf_task = ex_task, rf_modality = MoWeb, rf_executionMode = mode, rf_provisionMode = prov, rf_preflight = checks,
      rf_model = ''m'', rf_mobileDrive = None, rf_mobileLeased = False, rf_harnessMarker = False,
      rf_fileExists = (\<lambda>n. n = ''a.png''), rf_ports = \<lparr>pt_verify = Some 4100, pt_driver = Some 4200\<rparr>,
      rf_probes = \<lparr>bp_servePid = None, bp_listener = (\<lambda>p. None), bp_process = (\<lambda>p. None)\<rparr>,
      rf_attest = (\<lambda>s. Inl ''unreachable''), rf_mutated = False, rf_xcodeReasons = [], rf_learnedPin = False\<rparr>"

definition ex_report :: "behavior_result \<Rightarrow> VerificationReportOutcome \<Rightarrow> VerificationReportV1" where
  "ex_report br ro =
     \<lparr>rp_behaviors = [\<lparr>bh_id = ''b1'', bh_result = br, bh_screenshots = [''a.png''], bh_notes = []\<rparr>],
      rp_screenshots = [\<lparr>sh_fileName = ''a.png'', sh_caption = []\<rparr>], rp_outcome = ro,
      rp_buildLogExcerpt = Some ''log'', rp_diagnosis = Some ''why'',
      rp_neededModality = (if ro = RoWrongEnvironment then Some MoMobile else None), rp_app = None,
      rp_recipeJson = None, rp_confidence = 1, rp_feedback = ''ok'', rp_issues = [], rp_attestation = None\<rparr>"


section \<open>Properties\<close>

lemma screenshots_valid:
  "validateReportScreenshots ex r = None \<Longrightarrow>
     list_all (\<lambda>n. bare_name n \<and> ex n) (map sh_fileName (rp_screenshots r) @ concat (map bh_screenshots (rp_behaviors r)))"
  by (auto simp: validateReportScreenshots_def Let_def list_all_iff filter_empty_conv split: if_splits)

text \<open>C34: A validated report is backed by its members: every behavior is an expected one, a \<open>pass\<close> or
  \<open>unverifiable\<close> report has no failed behavior, a \<open>fail\<close> report exercised at least one behavior when any was
  expected, stand-up failures carry a log, unverifiable and mismatch reports a diagnosis, a mismatch the modality it
  needs (and no other outcome does), and the confidence lies between 0 and 1.\<close>

theorem validated_report_backed:
  assumes "normalizeVerificationReportV1 v ids = Inr (r, c)"
  shows "report_ok ids r"
  using assms by (rule normalized_ok)

theorem validated_report_backed_witness:
  "report_ok [''b1''] ((ex_report BrFail RoPass)\<lparr>rp_outcome := RoFail\<rparr>)"
proof -
  have "normalizeVerificationReportV1 (report_json (ex_report BrFail RoPass)) [''b1''] =
      Inr ((ex_report BrFail RoPass)\<lparr>rp_outcome := RoFail\<rparr>, True)"
    by code_simp
  then show ?thesis by (rule validated_report_backed)
qed

text \<open>C33: Validation is stable: the validated report, stored as JSON and validated again against the same behaviors,
  is itself, and nothing is coerced a second time.\<close>

theorem validated_report_revalidates:
  assumes "normalizeVerificationReportV1 v ids = Inr (r, c)"
  shows "normalizeVerificationReportV1 (report_json r) ids = Inr (r, False)"
  using assms by (intro stored_report_reads_back normalized_ok)

theorem validated_report_revalidates_witness:
  "normalizeVerificationReportV1 (report_json ((ex_report BrFail RoUnverifiable)\<lparr>rp_outcome := RoFail\<rparr>)) [''b1''] =
     Inr ((ex_report BrFail RoUnverifiable)\<lparr>rp_outcome := RoFail\<rparr>, False)"
proof -
  have "normalizeVerificationReportV1 (report_json (ex_report BrFail RoUnverifiable)) [''b1''] =
      Inr ((ex_report BrFail RoUnverifiable)\<lparr>rp_outcome := RoFail\<rparr>, True)"
    by code_simp
  then show ?thesis by (rule validated_report_revalidates)
qed

text \<open>C35: A composed task that validates has pairwise distinct behavior ids and non-blank required members, and
  stored as JSON it validates to itself.\<close>

theorem validated_task_revalidates:
  assumes "parseVerificationTaskV1 show v = Inr t"
  shows "distinct (map tb_id (tk_behaviors t)) \<and> task_ok t \<and> parseVerificationTaskV1 show (task_json t) = Inr t"
  using parsed_task_ok [OF assms] task_json_parses by (auto simp: task_ok_def)

theorem validated_task_revalidates_witness:
  "task_ok ex_task \<and> parseVerificationTaskV1 (\<lambda>k. []) (task_json ex_task) = Inr ex_task"
proof -
  have "parseVerificationTaskV1 (\<lambda>k. []) (task_json ex_task) = Inr ex_task"
    by (rule task_json_parses)
      (simp add: task_ok_def ex_task_def all_opt_def task_behavior_ok_def trim_nonempty js_space_def code_def)
  then show ?thesis using validated_task_revalidates [of "\<lambda>k. []" "task_json ex_task"] by simp
qed

text \<open>C29: A verification settles \<open>passed\<close> only if it was earned: the session returned a report that validates
  with outcome \<open>pass\<close>, no reported behavior failed or was left untested, every referenced screenshot is a bare name
  of a file that exists, the harness identified the surface as this task's deliverable, the snapshot's tracked
  sources were not modified and the capture ledger backs the pass.\<close>

theorem pass_is_earned:
  assumes "st_status (settle_verdict (run_result f s)) = RqPassed"
  shows "\<exists>raw r c. s = SessionReturned raw \<and>
           normalizeVerificationReportV1 raw (map tb_id (tk_behaviors (rf_task f))) = Inr (r, c) \<and>
           rp_outcome r = RoPass \<and> list_all (\<lambda>b. bh_result b = BrPass) (rp_behaviors r) \<and>
           list_all (\<lambda>n. bare_name n \<and> rf_fileExists f n)
             (map sh_fileName (rp_screenshots r) @ concat (map bh_screenshots (rp_behaviors r))) \<and>
           surface_identified f \<and> \<not> (rf_provisionMode f = PvSnapshot \<and> rf_mutated f) \<and> rf_xcodeReasons f = []"
proof -
  from assms have st: "rr_status (run_result f s) = RqPassed" by (simp add: settled_passed)
  then obtain raw r c where s: "s = SessionReturned raw"
    and norm: "normalizeVerificationReportV1 raw (map tb_id (tk_behaviors (rf_task f))) = Inr (r, c)"
    and judged: "rr_status (judge_report f r) = RqPassed"
    by (auto simp: run_result_def verdict_simps split: session.splits sum.splits prod.splits if_splits)
  obtain r' n where h: "harness_report f r = (r', n)" by fastforce
  show ?thesis
    using h
  proof (cases rule: judge_cases)
    case (phantom p)
    then show ?thesis using judged by (simp add: verdict_simps)
  next
    case (judged ctx)
    have ok: "report_ok (map tb_id (tk_behaviors (rf_task f))) r" using norm by (rule normalized_ok)
    from judged(6) \<open>rr_status (judge_report f r) = RqPassed\<close> have m: "rr_status (mapReportToResult r' ctx) = RqPassed"
      and x: "rf_xcodeReasons f = []" by (auto split: if_splits)
    note passed = map_passed [OF m]
    have ro: "rp_outcome r = RoPass" using harness_report_pass [OF h passed(1)] .
    have nofail: "\<not> list_ex (\<lambda>b. bh_result b = BrFail) (rp_behaviors r)" using ok ro by (simp add: report_ok_def)
    then have untested: "\<not> list_ex (\<lambda>b. bh_result b = BrNotTestable) (rp_behaviors r')"
      using passed(3) harness_report_fails [OF h] by blast
    have same: "r' = r" using harness_report_untouched [OF h untested] .
    have "list_all (\<lambda>b. bh_result b = BrPass) (rp_behaviors r)"
      using nofail untested unfolding same by (force simp: list_all_iff list_ex_iff intro: behavior_result.exhaust)
    moreover have "surface_identified f"
      using passed(4) passed(1) judged(5) verified_identifies by (auto simp: runsFloor_def)
    ultimately show ?thesis
      using s norm ro screenshots_valid [OF judged(1)] passed(2) judged(3) x unfolding same by blast
  qed
qed

theorem pass_is_earned_witness:
  "st_status (settle_verdict (run_result (ex_facts XmExplore PvSnapshot [])
     (SessionReturned (report_json (ex_report BrPass RoPass))))) = RqPassed \<and>
   surface_identified (ex_facts XmExplore PvSnapshot [])"
proof -
  have "st_status (settle_verdict (run_result (ex_facts XmExplore PvSnapshot [])
     (SessionReturned (report_json (ex_report BrPass RoPass))))) = RqPassed"
    by code_simp
  then show ?thesis by (blast dest: pass_is_earned)
qed







section \<open>Departures from the comments\<close>

text \<open>A \<open>pass\<close> report that mentions none of the task's behaviors settles \<open>passed\<close>: the mapping looks at the
  reported behaviors only, while the validator leaves an uncovered id to the runner.\<close>

lemma uncovered_behaviors_pass:
  "tk_behaviors (rf_task (ex_facts XmExplore PvSnapshot [])) \<noteq> [] \<and>
   st_status (settle_verdict (run_result (ex_facts XmExplore PvSnapshot [])
     (SessionReturned (report_json ((ex_report BrPass RoPass)\<lparr>rp_behaviors := []\<rparr>))))) = RqPassed"
  by code_simp

text \<open>On a pinned run in the dirty worktree a \<open>wrong_environment\<close> report is mapped to \<open>skipped\<close> like an
  unverifiable one, but the settlement's exemption does not list its outcome, so it blocks.\<close>

lemma fallback_wrong_environment_blocks:
  "rr_status (run_result (ex_facts XmPinned PvFallback [])
     (SessionReturned (report_json (ex_report BrNotTestable RoWrongEnvironment)))) = RqSkipped \<and>
   st_status (settle_verdict (run_result (ex_facts XmPinned PvFallback [])
     (SessionReturned (report_json (ex_report BrNotTestable RoWrongEnvironment))))) = RqFailed"
  by code_simp

text \<open>A \<open>wrong_environment\<close> report that names the modality it already ran as keeps its outcome although a
  behavior failed: it is not dispatched again and settles advisory.\<close>

lemma failing_mismatch_advances:
  "rr_redispatch (run_result (ex_facts XmLegacy PvSnapshot [])
     (SessionReturned (report_json ((ex_report BrFail RoWrongEnvironment)\<lparr>rp_neededModality := Some MoWeb\<rparr>)))) = None \<and>
   st_status (settle_verdict (run_result (ex_facts XmLegacy PvSnapshot [])
     (SessionReturned (report_json ((ex_report BrFail RoWrongEnvironment)\<lparr>rp_neededModality := Some MoWeb\<rparr>))))) = RqLowConfidence"
  by code_simp

end
