(* ===== verification/Spec2Isabelle.thy ===== *)
theory Spec2Isabelle
  imports Transitions RunProps LanePoolClaims LaneCrewClaims PermissionProps HlcProps LeaseProps VerifyClaims
begin

text \<open>
  Verification of the orchestration core of cyboflow.

  \<^bold>\<open>The program.\<close> cyboflow drives coding agents through workflows. A workflow definition is a list of
  phases of steps; a definition is validated before it is stored. A run is a row of \<open>workflow_runs\<close>
  whose status column only moves through guarded updates. For the programmatic execution model a
  controller walks the definition: it runs each step's agent through a step runner, retries, parks on
  systemic failures, jumps back along loopbacks, asks humans at gates, consults a supervisor about
  failures and about review rounds, fans a step out over parallel lanes, and ends with a result. The
  controller reaches everything else (database, agents, humans, timers) through a host interface.

  \<^bold>\<open>Theories and the code they model.\<close>
  \<^item> \<open>Prelude\<close>: per-step counters (\<open>Map<string, number>\<close>) and \<open>findIndex\<close>, with their rewrite rules.
  \<^item> \<open>RunStatus\<close>: shared/workflows/runStateMachine.ts and sessionStateMachine.ts. The tables, the
    assertions with their error values, the backwards reading and its SQL rendering.
  \<^item> \<open>Transitions\<close>: main/src/services/cyboflow/transitions.ts. The database is a record of tables; each
    helper maps a database to an error or a value and the database it leaves. The locale
    \<open>guarded_writer\<close> is the contract of a writer and is interpreted on all eight helpers.
  \<^item> \<open>JsString\<close>: the JavaScript string operations and regular-expression fragments, on UTF-8 text.
  \<^item> \<open>ReviewDoc\<close>: shared/types/adversarialReview.ts and the verdict readers of workflowController.ts.
  \<^item> \<open>AgentDraft\<close>: main/src/orchestrator/agents/agentValidation.ts, the single-writer chokepoint.
  \<^item> \<open>WorkflowDef\<close>: the definition types of shared/types/workflows.ts and the validator of
    main/src/orchestrator/workflowDefinitionSchema.ts, including the keys zod strips.
  \<^item> \<open>Controller\<close>: main/src/orchestrator/programmatic/types.ts and the helpers of workflowController.ts
    (\<open>applyGateDecision\<close>, \<open>handleRequiredFailure\<close>, \<open>tryLoopback\<close>, \<open>clearCompletedFrom\<close>). The host is a
    record of functions over an abstract host state; a seam that can throw returns an option.
  \<^item> \<open>ReviewLoop\<close>: reading a review's verdict, selecting its document and deciding about a lap.
  \<^item> \<open>Walk\<close>: \<open>WorkflowController.run()\<close>, one definition per stage of the loop body, composed in the
    order of the code into \<open>visit\<close>, then \<open>walk_phase\<close>, \<open>walk_phases\<close> and \<open>run\<close>.
  \<^item> \<open>WalkSpec\<close>: an abstract machine of the walk (position, reports, budgets, skip set) as an inductive
    step relation, and the simulation: every visit is a step of the machine or one of its stops.
  \<^item> \<open>WalkProps\<close>: the locale \<open>spec_invariant\<close>, which lifts an invariant of the machine to whole runs,
    with its interpretations for budgets, trace shape and coverage of steps.
  \<^item> \<open>RunProps\<close>: the properties of runs, gates, attempts and the review loop, with sample hosts.

  \<^bold>\<open>What the lemmas show.\<close> Status columns: guarded writes follow the table, terminal rows are never
  changed again, listeners hear of a run at most once, the approval transaction is atomic. Definitions:
  what the validator returns is well formed, stable under re-validation and free of agents that break
  the single-writer rule; it also loses one declared flag. Runs: no run trips the execution bound
  (except for one degenerate phase shape, shown separately), outcomes agree with the trace, a completed
  run accounts for every step, a jump back re-runs its region, a required gate needs a human decision.
  Attempts and laps stay within their budgets, and the reviewer's text and document agree.

  \<^bold>\<open>Bounds.\<close> No fuel is used. \<open>attempt_loop\<close> terminates because an iteration consumes an attempt or a
  systemic pause; \<open>walk_phase\<close> terminates because the code's own execution counter is bounded by
  \<open>maxExecutions\<close>, and reaching the bound is the value \<open>BoundExceeded\<close>, which the code throws.

  \<^bold>\<open>Modelling choices.\<close> Every \<open>await\<close> is a call on the host that returns a new host state; the abort
  signal and the operator's skip directives are read from that state, so they may change during any
  host call and at no other time. Log lines are left out. Counters are natural numbers and timestamps
  integers; JavaScript numbers are only used far below 2^53 here. A set or map the code shares by
  reference is a field of the walk state.

  \<^bold>\<open>Not modelled.\<close> \<open>runFanOut\<close>, the lane pool of a fan-out step, is a parameter of the walk: the run
  properties hold for every behaviour of it. The step runner, the prompts, the host's implementation,
  the routers over the database, the transports, the evaluation, the synchronisation services and the
  frontend are outside; the manifest lists them.

  \<^bold>\<open>Plan.\<close> Next are the fan-out lanes (rescue budgets, merge gates, the lane pool), then the run
  handlers and boot recovery as sequences of guarded writes, the build slots and verification leases,
  the hybrid logical clock of the remote synchronisation, and the safe-command classifier.
\<close>

end
